(* ===== verification/Prelude.thy ===== *)
theory Prelude
  imports Main "HOL-Library.Word"
begin

text \<open>
  Shared ground of the development: the machine types of the Rust source, clock
  readings, the fallible-computation type, and the parts of the Rust standard
  library the modelled code uses (integer helpers, ASCII string methods, hash-map
  iteration).

  Conventions.
  \<^item> \<open>u8\<close>, \<open>u16\<close>, \<open>u32\<close>, \<open>u64\<close> are words of that width; an \<open>Ipv4Addr\<close> is the \<open>u32\<close> that
    \<open>u32::from\<close> gives (\<open>ip\<close> below), so the order of addresses is the order of words.
  \<^item> An \<open>Instant\<close> and a \<open>Duration\<close> are nanosecond counts (\<open>nat\<close>).
  \<^item> A \<open>String\<close> is a byte string; the string methods are modelled on ASCII text.
  \<^item> \<open>Result<T, E>\<close> is \<open>'e + 'a\<close> with the error on the left.
  \<^item> A \<open>HashMap\<close> is a partial function. Where the source iterates over one, the order
    is unspecified: the model takes the key list \<open>ks\<close> of that iteration as an argument,
    and \<open>iterates ks m\<close> says that \<open>ks\<close> enumerates the keys of \<open>m\<close> once each.
\<close>

unbundle bit_operations_syntax

named_theorems lease_simps \<open>unfolding rules of the lease table operations\<close>
named_theorems dns_simps \<open>unfolding rules of the DNS forwarder operations\<close>
named_theorems cfg_simps \<open>unfolding rules of the configuration parser\<close>

type_synonym u8 = "8 word"
type_synonym u16 = "16 word"
type_synonym u32 = "32 word"
type_synonym u64 = "64 word"
type_synonym ip = "32 word"
type_synonym bytes = "8 word list"
type_synonym instant = nat
type_synonym duration = nat

subsection \<open>Durations\<close>

abbreviation nanos_per_sec :: nat where
  "nanos_per_sec \<equiv> 1000000000"

definition from_secs :: "nat \<Rightarrow> duration" where
  "from_secs s = s * nanos_per_sec"

definition from_millis :: "nat \<Rightarrow> duration" where
  "from_millis s = s * 1000000"

definition as_secs :: "duration \<Rightarrow> nat" where
  "as_secs d = d div nanos_per_sec"

lemma as_secs_from_secs [simp]: "as_secs (from_secs s) = s"
  by (simp add: as_secs_def from_secs_def)

lemma from_secs_mono [simp]: "from_secs a \<le> from_secs b \<longleftrightarrow> a \<le> b"
  by (simp add: from_secs_def)

lemma from_secs_pos [simp]: "0 < from_secs a \<longleftrightarrow> 0 < a"
  by (simp add: from_secs_def)

subsection \<open>Results\<close>

fun and_then :: "'e + 'a \<Rightarrow> ('a \<Rightarrow> 'e + 'b) \<Rightarrow> 'e + 'b" where
  "and_then (Inl e) f = Inl e"
| "and_then (Inr x) f = f x"

fun ok_or :: "'a option \<Rightarrow> 'e \<Rightarrow> 'e + 'a" where
  "ok_or None e = Inl e"
| "ok_or (Some x) e = Inr x"

lemma and_then_Inr_iff [simp]: "and_then r f = Inr y \<longleftrightarrow> (\<exists>x. r = Inr x \<and> f x = Inr y)"
  by (cases r) auto

lemma guard_Inr_iff: "(if b then Inl e else r) = Inr y \<longleftrightarrow> \<not> b \<and> r = Inr y"
  by simp

lemma ok_or_Inr_iff [simp]: "ok_or x e = Inr y \<longleftrightarrow> x = Some y"
  by (cases x) auto

subsection \<open>Checked and saturating arithmetic\<close>

definition checked_sub :: "u32 \<Rightarrow> u32 \<Rightarrow> u32 option" where
  "checked_sub a b = (if b \<le> a then Some (a - b) else None)"

definition checked_add :: "u32 \<Rightarrow> u32 \<Rightarrow> u32 option" where
  "checked_add a b = (if unat a + unat b < 2 ^ 32 then Some (a + b) else None)"

definition saturating_add64 :: "u64 \<Rightarrow> u64 \<Rightarrow> u64" where
  "saturating_add64 a b = (if unat a + unat b < 2 ^ 64 then a + b else - 1)"

lemma checked_sub_Some_iff: "checked_sub a b = Some c \<longleftrightarrow> b \<le> a \<and> c = a - b"
  by (auto simp: checked_sub_def)

lemma checked_add_Some_iff: "checked_add a b = Some c \<longleftrightarrow> unat a + unat b < 2 ^ 32 \<and> c = a + b"
  by (auto simp: checked_add_def)

lemma unat_checked_add: "checked_add a b = Some c \<Longrightarrow> unat c = unat a + unat b"
  by (auto simp: checked_add_Some_iff unat_word_ariths)

lemma unat_checked_sub: "checked_sub a b = Some c \<Longrightarrow> unat c = unat a - unat b"
  by (auto simp: checked_sub_Some_iff unat_sub)

lemma unat_of_nat_le:
  fixes b :: "'a::len word"
  assumes "k \<le> unat b"
  shows "unat (of_nat k :: 'a word) = k"
proof -
  have "k < 2 ^ LENGTH('a)" by (rule le_less_trans[OF assms unsigned_less])
  then show ?thesis by (simp add: unsigned_of_nat take_bit_nat_eq_self)
qed

subsection \<open>Big-endian integers\<close>

definition be16 :: "u16 \<Rightarrow> bytes" where
  "be16 w = [of_nat (unat w div 256), of_nat (unat w mod 256)]"

definition de16 :: "bytes \<Rightarrow> u16" where
  "de16 b = of_nat (256 * unat (b ! 0) + unat (b ! 1))"

lemma de16_be16 [simp]: "de16 (be16 w) = w"
proof -
  have "unat w < 2 ^ LENGTH(16)" by (rule unsigned_less)
  then have "unat w div 256 < 2 ^ 8" by (simp add: less_mult_imp_div_less)
  then show ?thesis by (simp add: de16_def be16_def unsigned_of_nat take_bit_nat_eq_self)
qed

lemma length_be16 [simp]: "length (be16 w) = 2"
  by (simp add: be16_def)

lemma de16_append [simp]: "de16 (be16 w @ b) = w"
  using de16_be16[of w] by (simp add: de16_def be16_def)

subsection \<open>Iterating over hash maps\<close>

definition iterates :: "'k list \<Rightarrow> ('k \<rightharpoonup> 'v) \<Rightarrow> bool" where
  "iterates ks m \<longleftrightarrow> distinct ks \<and> set ks = dom m"

definition any_entry :: "'k list \<Rightarrow> ('k \<rightharpoonup> 'v) \<Rightarrow> ('k \<Rightarrow> 'v \<Rightarrow> bool) \<Rightarrow> bool" where
  "any_entry ks m P = list_ex (\<lambda>k. case m k of Some v \<Rightarrow> P k v | None \<Rightarrow> False) ks"

definition find_entry :: "'k list \<Rightarrow> ('k \<rightharpoonup> 'v) \<Rightarrow> ('k \<Rightarrow> 'v \<Rightarrow> bool) \<Rightarrow> 'k option" where
  "find_entry ks m P = List.find (\<lambda>k. case m k of Some v \<Rightarrow> P k v | None \<Rightarrow> False) ks"

definition retain :: "('v \<Rightarrow> bool) \<Rightarrow> ('k \<rightharpoonup> 'v) \<Rightarrow> ('k \<rightharpoonup> 'v)" where
  "retain P m = (\<lambda>k. case m k of Some v \<Rightarrow> if P v then Some v else None | None \<Rightarrow> None)"

definition values_along :: "'k list \<Rightarrow> ('k \<rightharpoonup> 'v) \<Rightarrow> 'v list" where
  "values_along ks m = List.map_filter m ks"

lemma iterates_finite: "iterates ks m \<Longrightarrow> finite (dom m)"
  by (metis iterates_def List.finite_set)

lemma any_entry_iff:
  "iterates ks m \<Longrightarrow> any_entry ks m P \<longleftrightarrow> (\<exists>k v. m k = Some v \<and> P k v)"
  by (auto simp: any_entry_def iterates_def list_ex_iff split: option.splits)

lemma find_entry_Some:
  "find_entry ks m P = Some k \<Longrightarrow> \<exists>v. m k = Some v \<and> P k v"
  by (auto simp: find_entry_def find_Some_iff split: option.splits)

lemma find_entry_None:
  "iterates ks m \<Longrightarrow> find_entry ks m P = None \<longleftrightarrow> (\<forall>k v. m k = Some v \<longrightarrow> \<not> P k v)"
  by (force simp: find_entry_def find_None_iff iterates_def split: option.splits)

lemma retain_Some_iff [simp]: "retain P m k = Some v \<longleftrightarrow> m k = Some v \<and> P v"
  by (auto simp: retain_def split: option.splits)

lemma retain_None_iff [simp]: "retain P m k = None \<longleftrightarrow> (\<forall>v. m k = Some v \<longrightarrow> \<not> P v)"
  by (auto simp: retain_def split: option.splits)

lemma dom_retain: "dom (retain P m) \<subseteq> dom m"
  by (auto simp: dom_def)

lemma ran_retain: "ran (retain P m) = {v \<in> ran m. P v}"
  by (auto simp: ran_def)

lemma set_map_filter_iff: "x \<in> set (List.map_filter f xs) \<longleftrightarrow> (\<exists>y\<in>set xs. f y = Some x)"
  by (force simp: map_filter_def)

lemma set_values_along: "set ks \<supseteq> dom m \<Longrightarrow> set (values_along ks m) = ran m"
  by (fastforce simp: values_along_def set_map_filter_iff ran_def)

subsection \<open>ASCII strings\<close>

definition ascii_code :: "char \<Rightarrow> nat" where
  "ascii_code c = of_char c"

definition is_ascii_digit :: "char \<Rightarrow> bool" where
  "is_ascii_digit c \<longleftrightarrow> 48 \<le> ascii_code c \<and> ascii_code c \<le> 57"

definition is_ascii_uppercase :: "char \<Rightarrow> bool" where
  "is_ascii_uppercase c \<longleftrightarrow> 65 \<le> ascii_code c \<and> ascii_code c \<le> 90"

definition is_ascii_lowercase :: "char \<Rightarrow> bool" where
  "is_ascii_lowercase c \<longleftrightarrow> 97 \<le> ascii_code c \<and> ascii_code c \<le> 122"

definition is_ascii_alphanumeric :: "char \<Rightarrow> bool" where
  "is_ascii_alphanumeric c \<longleftrightarrow> is_ascii_digit c \<or> is_ascii_uppercase c \<or> is_ascii_lowercase c"

definition is_whitespace :: "char \<Rightarrow> bool" where
  "is_whitespace c \<longleftrightarrow> ascii_code c = 32 \<or> (9 \<le> ascii_code c \<and> ascii_code c \<le> 13)"

definition char_lower :: "char \<Rightarrow> char" where
  "char_lower c = (if is_ascii_uppercase c then char_of (ascii_code c + 32) else c)"

definition to_ascii_lowercase :: "string \<Rightarrow> string" where
  "to_ascii_lowercase s = map char_lower s"

definition trim_start :: "string \<Rightarrow> string" where
  "trim_start s = dropWhile is_whitespace s"

definition trim_end :: "string \<Rightarrow> string" where
  "trim_end s = rev (dropWhile is_whitespace (rev s))"

definition trim :: "string \<Rightarrow> string" where
  "trim s = trim_end (trim_start s)"

definition trim_end_matches :: "char \<Rightarrow> string \<Rightarrow> string" where
  "trim_end_matches c s = rev (dropWhile (\<lambda>x. x = c) (rev s))"

definition starts_with :: "string \<Rightarrow> string \<Rightarrow> bool" where
  "starts_with s p \<longleftrightarrow> take (length p) s = p"

definition ends_with :: "string \<Rightarrow> string \<Rightarrow> bool" where
  "ends_with s p \<longleftrightarrow> length p \<le> length s \<and> drop (length s - length p) s = p"

definition strip_suffix :: "string \<Rightarrow> string \<Rightarrow> string option" where
  "strip_suffix s p = (if ends_with s p then Some (take (length s - length p) s) else None)"

fun split_char :: "char \<Rightarrow> string \<Rightarrow> string list" where
  "split_char c [] = [[]]"
| "split_char c (x # xs) =
     (if x = c then [] # split_char c xs
      else (case split_char c xs of [] \<Rightarrow> [[x]] | y # ys \<Rightarrow> (x # y) # ys))"

lemma split_char_nonempty [simp]: "split_char c s \<noteq> []"
  by (induction s) (auto split: list.splits)

lemma split_char_noc: "c \<notin> set s \<Longrightarrow> split_char c s = [s]"
  by (induction s) auto

lemma split_char_append: "c \<notin> set s \<Longrightarrow> split_char c (s @ c # t) = s # split_char c t"
  by (induction s) auto

lemma hd_split_char: "hd (split_char c s) = takeWhile (\<lambda>x. x \<noteq> c) s"
  by (induction s) (auto split: list.splits)

lemma strip_suffix_Some_iff: "strip_suffix s p = Some r \<longleftrightarrow> s = r @ p"
proof
  assume "strip_suffix s p = Some r"
  then have "length p \<le> length s" "drop (length s - length p) s = p" "r = take (length s - length p) s"
    by (auto simp: strip_suffix_def ends_with_def split: if_splits)
  then show "s = r @ p" by (metis append_take_drop_id)
next
  assume "s = r @ p"
  then show "strip_suffix s p = Some r" by (simp add: strip_suffix_def ends_with_def)
qed

lemma ends_with_iff: "ends_with s p \<longleftrightarrow> (\<exists>r. s = r @ p)"
  by (metis ends_with_def strip_suffix_Some_iff strip_suffix_def option.distinct(1))

lemma length_to_ascii_lowercase [simp]: "length (to_ascii_lowercase s) = length s"
  by (simp add: to_ascii_lowercase_def)

end
