(* ===== verification/Ip_Text.thy ===== *)
theory Ip_Text
  imports Prelude
begin

text \<open>
  The textual form of addresses, as the Rust standard library prints and parses
  \<open>Ipv4Addr\<close>: four decimal octets without leading zeros, separated by dots.
\<close>

definition ipv4 :: "nat \<Rightarrow> nat \<Rightarrow> nat \<Rightarrow> nat \<Rightarrow> ip" where
  "ipv4 a b c d = of_nat (((a * 256 + b) * 256 + c) * 256 + d)"

definition octet :: "nat \<Rightarrow> ip \<Rightarrow> nat" where
  "octet i a = (unat a div 256 ^ (3 - i)) mod 256"

lemma unat_ipv4:
  assumes "a < 256" "b < 256" "c < 256" "d < 256"
  shows "unat (ipv4 a b c d) = ((a * 256 + b) * 256 + c) * 256 + d"
proof -
  have "((a * 256 + b) * 256 + c) * 256 + d < 2 ^ 32" using assms by simp
  then show ?thesis unfolding ipv4_def unsigned_of_nat by (simp add: take_bit_nat_eq_self)
qed

lemma octet_less [simp]: "octet i a < 256"
  by (simp add: octet_def)

lemma base256:
  fixes n :: nat
  assumes "n < 2 ^ 32"
  shows "((n div 256 ^ 3 mod 256 * 256 + n div 256 ^ 2 mod 256) * 256 + n div 256 mod 256) * 256 + n mod 256 = n"
proof -
  define a b c where "a = n div 256" and "b = a div 256" and "c = b div 256"
  have d: "n div 256 ^ 2 = b" "n div 256 ^ 3 = c"
    by (simp_all add: a_def b_def c_def div_mult2_eq[symmetric])
  have "c mod 256 = c" using assms
    by (simp add: a_def b_def c_def div_mult2_eq[symmetric] less_mult_imp_div_less)
  moreover have "n = 256 * a + n mod 256" "a = 256 * b + a mod 256" "b = 256 * c + b mod 256"
    by (simp_all add: a_def b_def c_def)
  moreover have "((c' * 256 + r2) * 256 + r1) * 256 + r0 = n"
    if "c' = c" "n = 256 * a + r0" "a = 256 * b + r1" "b = 256 * c + r2" for c' r0 r1 r2
    using that by simp
  ultimately show ?thesis unfolding d a_def[symmetric] by blast
qed

lemma ipv4_octets [simp]: "ipv4 (octet 0 a) (octet 1 a) (octet 2 a) (octet 3 a) = a"
proof -
  have "unat a < 2 ^ LENGTH(32)" by (rule unsigned_less)
  then have "((octet 0 a * 256 + octet 1 a) * 256 + octet 2 a) * 256 + octet 3 a = unat a"
    using base256[of "unat a"] by (simp add: octet_def)
  then show ?thesis by (simp add: ipv4_def)
qed

section \<open>Decimal numbers\<close>

definition digit_char :: "nat \<Rightarrow> char" where
  "digit_char d = char_of (48 + d)"

definition digit_val :: "char \<Rightarrow> nat" where
  "digit_val c = of_char c - 48"

fun show_nat :: "nat \<Rightarrow> string" where
  "show_nat n = (if n < 10 then [digit_char n] else show_nat (n div 10) @ [digit_char (n mod 10)])"

declare show_nat.simps [simp del]

definition parse_decimal :: "string \<Rightarrow> nat" where
  "parse_decimal s = foldl (\<lambda>n c. 10 * n + digit_val c) 0 s"

definition parse_octet :: "string \<Rightarrow> nat option" where
  "parse_octet s =
     (if s = [] \<or> 3 < length s \<or> \<not> list_all is_ascii_digit s \<or> (1 < length s \<and> hd s = CHR ''0'') then None
      else let n = parse_decimal s in if 255 < n then None else Some n)"

lemma digit_facts:
  assumes "d < 10"
  shows "digit_val (digit_char d) = d" "is_ascii_digit (digit_char d)" "digit_char d = CHR ''0'' \<longleftrightarrow> d = 0"
    "digit_char d \<noteq> CHR ''.''" "digit_char d \<noteq> CHR ''/''"
proof -
  have c: "(of_char (digit_char d) :: nat) = 48 + d" using assms by (simp add: digit_char_def)
  then show "digit_val (digit_char d) = d" by (simp add: digit_val_def)
  show "is_ascii_digit (digit_char d)" using assms c by (simp add: is_ascii_digit_def ascii_code_def)
  have "digit_char d = x \<longleftrightarrow> 48 + d = of_char x" for x
    using c by (metis of_char_eq_iff)
  then show "digit_char d = CHR ''0'' \<longleftrightarrow> d = 0" "digit_char d \<noteq> CHR ''.''" "digit_char d \<noteq> CHR ''/''"
    using assms by auto
qed

lemma show_nat_small:
  "n < 10 \<Longrightarrow> show_nat n = [digit_char n]"
  "10 \<le> n \<Longrightarrow> n < 100 \<Longrightarrow> show_nat n = [digit_char (n div 10), digit_char (n mod 10)]"
  "100 \<le> n \<Longrightarrow> n < 1000 \<Longrightarrow>
     show_nat n = [digit_char (n div 100), digit_char (n div 10 mod 10), digit_char (n mod 10)]"
proof -
  show "show_nat n = [digit_char n]" if "n < 10" using that by (simp add: show_nat.simps)
  show two: "show_nat n = [digit_char (n div 10), digit_char (n mod 10)]" if "10 \<le> n" "n < 100" for n
    using that by (simp add: show_nat.simps less_mult_imp_div_less)
  assume "100 \<le> n" "n < 1000"
  then have "10 \<le> n div 10" "n div 10 < 100"
    using div_le_mono[of 100 n 10] by (simp_all add: less_mult_imp_div_less)
  from two[OF this] \<open>100 \<le> n\<close>
  show "show_nat n = [digit_char (n div 100), digit_char (n div 10 mod 10), digit_char (n mod 10)]"
    by (simp add: show_nat.simps[of n] div_mult2_eq[symmetric])
qed

lemma parse_octet_show:
  assumes "n < 256"
  shows "parse_octet (show_nat n) = Some n"
proof -
  consider "n < 10" | "10 \<le> n" "n < 100" | "100 \<le> n" "n < 1000" using assms by linarith
  then show ?thesis
  proof cases
    case 1
    then show ?thesis by (simp add: show_nat_small parse_octet_def parse_decimal_def digit_facts)
  next
    case 2
    then have "n div 10 < 10" "n div 10 \<noteq> 0" by (auto simp: less_mult_imp_div_less)
    with 2 show ?thesis by (simp add: show_nat_small parse_octet_def parse_decimal_def digit_facts)
  next
    case 3
    then have "n div 100 < 10" "n div 100 \<noteq> 0" by (auto simp: less_mult_imp_div_less)
    moreover have "10 * (10 * (n div 100) + n div 10 mod 10) + n mod 10 = n"
    proof -
      have "n div 100 * 10 + n div 10 mod 10 = n div 10"
        using div_mult_mod_eq[of "n div 10" 10] by (simp add: div_mult2_eq[symmetric])
      moreover have "n div 10 * 10 + n mod 10 = n" by simp
      moreover have "10 * (10 * a + b) + c = n" if "a * 10 + b = d" "d * 10 + c = n" for a b c d
        using that by simp
      ultimately show ?thesis by blast
    qed
    ultimately show ?thesis using 3 assms
      by (simp add: show_nat_small parse_octet_def parse_decimal_def digit_facts)
  qed
qed

lemma show_nat_chars:
  assumes "c \<in> set (show_nat n)"
  shows "c \<noteq> CHR ''.''" "c \<noteq> CHR ''/''"
proof -
  have "\<exists>d < 10. c = digit_char d"
    using assms
  proof (induction n rule: show_nat.induct)
    case (1 n)
    show ?case
    proof (cases "n < 10 \<or> c = digit_char (n mod 10)")
      case True
      then have "c = digit_char (n mod 10)" using 1 by (auto simp: show_nat.simps[of n])
      then show ?thesis by (intro exI[of _ "n mod 10"]) simp
    next
      case False
      then show ?thesis using 1 by (auto simp: show_nat.simps[of n])
    qed
  qed
  then obtain d where "d < 10" "c = digit_char d" by blast
  then show "c \<noteq> CHR ''.''" "c \<noteq> CHR ''/''" by (simp_all add: digit_facts(4,5))
qed

section \<open>Addresses\<close>

definition show_ip :: "ip \<Rightarrow> string" where
  "show_ip a = show_nat (octet 0 a) @ ''.'' @ show_nat (octet 1 a) @ ''.'' @ show_nat (octet 2 a) @ ''.''
     @ show_nat (octet 3 a)"

definition parse_ip :: "string \<Rightarrow> ip option" where
  "parse_ip s =
     (case split_char CHR ''.'' s of
        [a, b, c, d] \<Rightarrow>
          (case (parse_octet a, parse_octet b, parse_octet c, parse_octet d) of
             (Some x, Some y, Some z, Some w) \<Rightarrow> Some (ipv4 x y z w)
           | _ \<Rightarrow> None)
      | _ \<Rightarrow> None)"

lemma parse_ip_show_ip [simp]: "parse_ip (show_ip a) = Some a"
proof -
  have nodot: "CHR ''.'' \<notin> set (show_nat n)" for n using show_nat_chars(1) by blast
  have "split_char CHR ''.'' (show_ip a) =
      [show_nat (octet 0 a), show_nat (octet 1 a), show_nat (octet 2 a), show_nat (octet 3 a)]"
    by (simp add: show_ip_def split_char_append[OF nodot] split_char_noc[OF nodot])
  then show ?thesis by (simp add: parse_ip_def parse_octet_show ipv4_octets[unfolded One_nat_def])
qed

lemma show_ip_chars: "CHR ''/'' \<notin> set (show_ip a)"
  using show_nat_chars(2) by (auto simp: show_ip_def)

end
