(* ===== verification/Net_Lib.thy ===== *)
theory Net_Lib
  imports Ip_Text
begin

text \<open>
  Addresses. The \<open>Ipv4Addr\<close> methods of the Rust standard library are definitions. The
  network-prefix type \<open>Ipv4Net\<close> (crate \<open>ipnet\<close>) is third-party code: it is the type
  variable \<open>'n\<close> together with a record of the functions the router calls, and the locale
  \<open>net_laws\<close> states what that crate documents of them. \<open>cidr_lib\<close> is a reference instance
  (address and prefix length) at which the laws are proved, so they are satisfiable; the
  witnesses of the development run on it.
\<close>

section \<open>Standard-library address methods\<close>

definition is_unspecified :: "ip \<Rightarrow> bool" where
  "is_unspecified a \<longleftrightarrow> a = 0"

definition is_broadcast :: "ip \<Rightarrow> bool" where
  "is_broadcast a \<longleftrightarrow> a = - 1"

definition is_loopback :: "ip \<Rightarrow> bool" where
  "is_loopback a \<longleftrightarrow> octet 0 a = 127"

definition is_multicast :: "ip \<Rightarrow> bool" where
  "is_multicast a \<longleftrightarrow> 224 \<le> octet 0 a \<and> octet 0 a \<le> 239"

definition is_private :: "ip \<Rightarrow> bool" where
  "is_private a \<longleftrightarrow> octet 0 a = 10
     \<or> (octet 0 a = 172 \<and> 16 \<le> octet 1 a \<and> octet 1 a \<le> 31)
     \<or> (octet 0 a = 192 \<and> octet 1 a = 168)"

section \<open>Hardware addresses\<close>

text \<open>The six octets of \<open>pnet\<close>'s \<open>MacAddr\<close>, a tuple struct with public fields.\<close>

datatype mac = MacAddr u8 u8 u8 u8 u8 u8

fun octets :: "mac \<Rightarrow> bytes" where
  "octets (MacAddr a b c d e f) = [a, b, c, d, e, f]"

lemma octets_inject [simp]: "octets m = octets m' \<longleftrightarrow> m = m'"
  by (cases m; cases m') simp

section \<open>Network prefixes\<close>

definition netmask_of :: "u8 \<Rightarrow> ip" where
  "netmask_of p = push_bit (32 - unat p) (- 1)"

record 'n net_lib =
  net_new :: "ip \<Rightarrow> u8 \<Rightarrow> 'n option"
  net_parse :: "string \<Rightarrow> 'n option"
  net_addr :: "'n \<Rightarrow> ip"
  net_prefix_len :: "'n \<Rightarrow> u8"
  net_netmask :: "'n \<Rightarrow> ip"
  net_network :: "'n \<Rightarrow> ip"
  net_broadcast :: "'n \<Rightarrow> ip"
  net_contains :: "'n \<Rightarrow> ip \<Rightarrow> bool"
  net_hosts :: "'n \<Rightarrow> ip list"
  mac_zero :: mac
  mac_broadcast :: mac
  mac_is_zero :: "mac \<Rightarrow> bool"
  mac_is_broadcast :: "mac \<Rightarrow> bool"

text \<open>
  Documented behaviour: \<open>new\<close> fails exactly on a prefix longer than 32 bits and keeps the
  address it is given; the network and broadcast addresses are the address with the host
  bits cleared and set; \<open>contains\<close> tests the closed range between them; \<open>hosts\<close> lists, in
  ascending order, the addresses strictly between the two for prefixes up to 30 and the
  whole range for 31 and 32; equality compares address and prefix length; and parsing
  \<open>address/length\<close> gives the prefix that \<open>new\<close> gives.
\<close>

locale net_laws =
  fixes L :: "'n net_lib"
  assumes new_None: "net_new L a p = None \<longleftrightarrow> 32 < p"
    and new_Some: "net_new L a p = Some n \<Longrightarrow> net_addr L n = a \<and> net_prefix_len L n = p"
    and netmask: "net_netmask L n = netmask_of (net_prefix_len L n)"
    and network: "net_network L n = net_addr L n AND netmask_of (net_prefix_len L n)"
    and broadcast: "net_broadcast L n = net_addr L n OR NOT (netmask_of (net_prefix_len L n))"
    and contains: "net_contains L n a \<longleftrightarrow> net_network L n \<le> a \<and> a \<le> net_broadcast L n"
    and hosts_short: "net_prefix_len L n < 31 \<Longrightarrow>
          net_hosts L n = map of_nat [Suc (unat (net_network L n))..<unat (net_broadcast L n)]"
    and hosts_long: "31 \<le> net_prefix_len L n \<Longrightarrow>
          net_hosts L n = map of_nat [unat (net_network L n)..<Suc (unat (net_broadcast L n))]"
    and net_eqI: "net_addr L n = net_addr L n' \<Longrightarrow> net_prefix_len L n = net_prefix_len L n' \<Longrightarrow> n = n'"
    and parse_text: "net_parse L (show_ip a @ CHR ''/'' # show_nat (unat p)) = net_new L a p"
    and zero_octets: "octets (mac_zero L) = [0, 0, 0, 0, 0, 0]"
    and broadcast_octets: "octets (mac_broadcast L) = [255, 255, 255, 255, 255, 255]"
    and is_zero_iff: "mac_is_zero L m \<longleftrightarrow> m = mac_zero L"
    and is_broadcast_iff: "mac_is_broadcast L m \<longleftrightarrow> m = mac_broadcast L"
begin

lemma contains_addr: "net_contains L n (net_addr L n)"
  unfolding contains network broadcast by (simp add: word_and_le2 le_word_or2)

lemma network_le_broadcast: "net_network L n \<le> net_broadcast L n"
  using contains_addr contains order_trans by blast

lemma contains_network: "net_contains L n (net_network L n)"
  by (simp add: contains network_le_broadcast)

lemma contains_broadcast: "net_contains L n (net_broadcast L n)"
  by (simp add: contains network_le_broadcast)

lemma hosts_contains:
  assumes "a \<in> set (net_hosts L n)"
  shows "net_contains L n a"
proof (cases "net_prefix_len L n < 31")
  case True
  then obtain k where k: "a = of_nat k" "unat (net_network L n) < k" "k < unat (net_broadcast L n)"
    using assms hosts_short by auto
  then have "unat a = k"
    by (simp add: unat_of_nat_le[of _ "net_broadcast L n"])
  then show ?thesis using k by (simp add: contains word_le_nat_alt)
next
  case False
  then obtain k where k: "a = of_nat k" "unat (net_network L n) \<le> k" "k \<le> unat (net_broadcast L n)"
    using assms hosts_long by fastforce
  then have "unat a = k"
    by (simp add: unat_of_nat_le[of _ "net_broadcast L n"])
  then show ?thesis using k by (simp add: contains word_le_nat_alt)
qed

lemma hosts_iff:
  assumes "net_prefix_len L n < 31"
  shows "a \<in> set (net_hosts L n) \<longleftrightarrow>
    net_contains L n a \<and> a \<noteq> net_network L n \<and> a \<noteq> net_broadcast L n"
proof
  assume a: "a \<in> set (net_hosts L n)"
  then obtain k where k: "a = of_nat k" "unat (net_network L n) < k" "k < unat (net_broadcast L n)"
    using assms hosts_short by auto
  then have "unat a = k"
    by (simp add: unat_of_nat_le[of _ "net_broadcast L n"])
  with k hosts_contains[OF a] show "net_contains L n a \<and> a \<noteq> net_network L n \<and> a \<noteq> net_broadcast L n"
    by auto
next
  assume a: "net_contains L n a \<and> a \<noteq> net_network L n \<and> a \<noteq> net_broadcast L n"
  then have "net_network L n < a" "a < net_broadcast L n"
    using contains by (auto simp: less_le)
  then have "unat (net_network L n) < unat a" "unat a < unat (net_broadcast L n)"
    by (simp_all add: word_less_nat_alt)
  then show "a \<in> set (net_hosts L n)"
    unfolding hosts_short[OF assms] by (auto intro!: image_eqI[of _ _ "unat a"])
qed

text \<open>Two prefixes share an address exactly when one contains the other's first address.\<close>

lemma overlap_iff:
  "net_contains L n (net_network L n') \<or> net_contains L n' (net_network L n) \<longleftrightarrow>
   (\<exists>a. net_contains L n a \<and> net_contains L n' a)"
proof
  assume "\<exists>a. net_contains L n a \<and> net_contains L n' a"
  then obtain a where "net_network L n \<le> a" "a \<le> net_broadcast L n"
    "net_network L n' \<le> a" "a \<le> net_broadcast L n'" by (auto simp: contains)
  then show "net_contains L n (net_network L n') \<or> net_contains L n' (net_network L n)"
    by (cases "net_network L n \<le> net_network L n'") (auto simp: contains intro: order_trans)
qed (use contains_network in blast)

end

section \<open>A reference instance\<close>

type_synonym cidr = "ip \<times> u8"

definition cidr_network :: "cidr \<Rightarrow> ip" where
  "cidr_network n = fst n AND netmask_of (snd n)"

definition cidr_broadcast :: "cidr \<Rightarrow> ip" where
  "cidr_broadcast n = fst n OR NOT (netmask_of (snd n))"

definition cidr_parse :: "string \<Rightarrow> cidr option" where
  "cidr_parse s =
     (case split_char CHR ''/'' s of
        [a, p] \<Rightarrow>
          (case (parse_ip a, parse_octet p) of
             (Some i, Some n) \<Rightarrow> if 32 < n then None else Some (i, of_nat n)
           | _ \<Rightarrow> None)
      | _ \<Rightarrow> None)"

lemma cidr_parse_text:
  "cidr_parse (show_ip a @ CHR ''/'' # show_nat (unat p)) = (if 32 < p then None else Some (a, p))"
proof -
  have "unat p < 2 ^ LENGTH(8)" by (rule unsigned_less)
  then have "parse_octet (show_nat (unat p)) = Some (unat p)" by (simp add: parse_octet_show)
  moreover have "CHR ''/'' \<notin> set (show_nat (unat p))" using show_nat_chars(2) by blast
  ultimately show ?thesis
    by (simp add: cidr_parse_def split_char_append[OF show_ip_chars] split_char_noc word_less_nat_alt)
qed

definition cidr_lib :: "cidr net_lib" where
  "cidr_lib = \<lparr>
     net_new = (\<lambda>a p. if 32 < p then None else Some (a, p)),
     net_parse = cidr_parse,
     net_addr = fst,
     net_prefix_len = snd,
     net_netmask = (\<lambda>n. netmask_of (snd n)),
     net_network = cidr_network,
     net_broadcast = cidr_broadcast,
     net_contains = (\<lambda>n a. cidr_network n \<le> a \<and> a \<le> cidr_broadcast n),
     net_hosts = (\<lambda>n. if snd n < 31
        then map of_nat [Suc (unat (cidr_network n))..<unat (cidr_broadcast n)]
        else map of_nat [unat (cidr_network n)..<Suc (unat (cidr_broadcast n))]),
     mac_zero = MacAddr 0 0 0 0 0 0,
     mac_broadcast = MacAddr 255 255 255 255 255 255,
     mac_is_zero = (\<lambda>m. m = MacAddr 0 0 0 0 0 0),
     mac_is_broadcast = (\<lambda>m. m = MacAddr 255 255 255 255 255 255) \<rparr>"

interpretation cidr: net_laws cidr_lib
  by unfold_locales
    (simp_all add: cidr_lib_def cidr_network_def cidr_broadcast_def cidr_parse_text prod_eq_iff not_less
      split: if_splits)

lemma cidr_mac_eval [simp]:
  "mac_zero cidr_lib = MacAddr 0 0 0 0 0 0"
  "mac_broadcast cidr_lib = MacAddr 255 255 255 255 255 255"
  "mac_is_zero cidr_lib m \<longleftrightarrow> m = MacAddr 0 0 0 0 0 0"
  "mac_is_broadcast cidr_lib m \<longleftrightarrow> m = MacAddr 255 255 255 255 255 255"
  by (simp_all add: cidr_lib_def)

text \<open>The prefix \<open>192.168.1.1/29\<close>, at which the witnesses of the DHCP theories run.\<close>

definition lan29 :: cidr where
  "lan29 = (3232235777, 29)"

lemmas cidr_eval = cidr_lib_def cidr_network_def cidr_broadcast_def netmask_of_def
  push_bit_minus_one_eq_not_mask mask_eq_exp_minus_1

lemma lan29_eval [simp]:
  "net_addr cidr_lib lan29 = 3232235777"
  "net_network cidr_lib lan29 = 3232235776"
  "net_broadcast cidr_lib lan29 = 3232235783"
  "net_contains cidr_lib lan29 a \<longleftrightarrow> 3232235776 \<le> a \<and> a \<le> 3232235783"
  "net_hosts cidr_lib lan29 = [3232235777, 3232235778, 3232235779, 3232235780, 3232235781, 3232235782]"
  by (simp_all add: cidr_eval lan29_def upt_rec_numeral)

end
