(* ===== verification/Ipc.thy ===== *)
theory Ipc
  imports Net_Lib
begin

text \<open>
  The messages of \<open>services/ipc.rs\<close>: the privileged parent and the sandboxed worker of each
  service exchange values of these types over a SEQPACKET socket. The encoding
  (\<open>postcard\<close>) and the socket itself are third-party code; here a message is the value that
  is sent. \<open>send\<close> and \<open>recv\<close> keep the length limit and the error cases, over the
  serializer as a parameter.
\<close>

record static_lease =
  sl_mac :: mac
  sl_ip :: ip
  sl_hostname :: "string option"

datatype local_host_event =
    LhRegister string ip
  | LhDeregister string

record dns_stats_info =
  queries_total :: u64
  cache_hits_total :: u64
  cached_entries_count :: nat
  rate_limited_drops_total :: u64

datatype dns_parent_to_worker =
    SetUpstreamResolvers "ip list"
  | DnsRegisterLocalHost string ip
  | DnsDeregisterLocalHost string

datatype dns_worker_to_parent = DnsHeartbeat dns_stats_info

record dhcp_lease_info =
  li_mac :: mac
  li_ip :: ip
  li_hostname :: "string option"
  li_expires_in_seconds :: nat
  li_is_static :: bool

datatype dhcp_client_parent_to_worker = ClientRawPacket bytes

datatype dhcp_server_parent_to_worker =
    ServerRawPacket bytes
  | AddNeighborMsg ip mac
  | SetStaticLeasesMsg "static_lease list"

datatype dhcp_server_worker_to_parent =
    SendOffer mac u32 ip bool
  | SendAck mac u32 ip bool
  | SendNak mac u32
  | ProbeArpConflict ip
  | ServerHeartbeat "dhcp_lease_info list"
  | RegisterLocalHost string ip
  | DeregisterLocalHost string

datatype dhcp_client_to_parent =
    SendDiscover u32
  | SendRequest u32 ip "ip option" ip
  | ApplyWanLease ip u8 ip "ip list"
  | ClearWanLease
  | ClientHeartbeat

datatype sntp_client_to_parent =
    SetSystemTime int int
  | ResolveTimeServer

datatype sntp_parent_to_client = TimeServerResolved "string + ip"

subsection \<open>Framing\<close>

datatype io_error = InvalidData | InvalidInput | SocketError | UnexpectedEof | ConnectionAborted

definition MAX_IPC_MSG_LEN :: nat where
  "MAX_IPC_MSG_LEN = 65536"

definition ipc_send :: "('m \<Rightarrow> bytes option) \<Rightarrow> (bytes \<Rightarrow> bool) \<Rightarrow> 'm \<Rightarrow> io_error + unit" where
  "ipc_send to_stdvec sock_send msg =
     (case to_stdvec msg of
        None \<Rightarrow> Inl InvalidData
      | Some serialized \<Rightarrow>
          if MAX_IPC_MSG_LEN < length serialized then Inl InvalidData
          else if sock_send serialized then Inr () else Inl SocketError)"

text \<open>\<open>recv\<close>: \<open>None\<close> from the socket is an I/O error, an empty datagram is end of file.\<close>

definition ipc_recv :: "(bytes \<Rightarrow> 'm option) \<Rightarrow> bytes option \<Rightarrow> io_error + 'm option" where
  "ipc_recv from_bytes datagram =
     (case datagram of
        None \<Rightarrow> Inl SocketError
      | Some buf \<Rightarrow>
          let b = take MAX_IPC_MSG_LEN buf in
          if b = [] then Inr None
          else (case from_bytes b of None \<Rightarrow> Inl InvalidData | Some msg \<Rightarrow> Inr (Some msg)))"

text \<open>
  A message that was sent is received unchanged: nothing that \<open>ipc_send\<close> accepts is cut off
  by the fixed receive buffer. The serializer is assumed to be a left inverse of the parser
  and to produce at least one byte for the message.
\<close>

lemma ipc_send_recv:
  assumes "ipc_send to_stdvec sock_send msg = Inr ()"
    and "\<And>b. to_stdvec msg = Some b \<Longrightarrow> from_bytes b = Some msg \<and> b \<noteq> []"
  shows "\<exists>b. to_stdvec msg = Some b \<and> sock_send b \<and> ipc_recv from_bytes (Some b) = Inr (Some msg)"
proof -
  from assms(1) obtain b where b: "to_stdvec msg = Some b" "length b \<le> MAX_IPC_MSG_LEN" "sock_send b"
    by (auto simp: ipc_send_def split: option.splits if_splits)
  with assms(2)[OF b(1)] have "ipc_recv from_bytes (Some b) = Inr (Some msg)"
    by (simp add: ipc_recv_def)
  with b show ?thesis by blast
qed

end
