(* ===== verification/Lease_Table.thy ===== *)
theory Lease_Table
  imports Ipc
begin

text \<open>
  The DHCP lease table of \<open>services/dhcp_server/lease_table.rs\<close>: its data, one definition per
  method, the invariants every method keeps, and what allocation, confirmation and eviction
  achieve. The actor that owns the table is in \<open>Lease_Actor\<close>.

  Every operation takes the clock reading \<open>now\<close> (the source reads \<open>Instant::now()\<close>; the
  model reads the clock once per command) and, where the source iterates over
  \<open>by_mac\<close> or \<open>static_leases\<close>, the key order of that iteration.
\<close>

section \<open>Table\<close>

definition LEASE_CLEANUP_INTERVAL :: duration where
  "LEASE_CLEANUP_INTERVAL = from_secs 60"

definition CANDIDATE_HOLD_DURATION :: duration where
  "CANDIDATE_HOLD_DURATION = from_secs 10"

definition NEIGHBOR_HOLD_DURATION :: duration where
  "NEIGHBOR_HOLD_DURATION = from_secs 300"

record client_lease =
  cl_ip :: ip
  cl_expiry :: instant
  cl_hostname :: "string option"

record lease_table =
  by_mac :: "mac \<rightharpoonup> client_lease"
  allocated_ips :: "ip set"
  conflicts :: "ip \<rightharpoonup> instant"
  static_leases :: "mac \<rightharpoonup> static_lease"
  reserved_ips :: "ip set"

record lease_confirmation =
  lc_ip :: ip
  lc_hostname :: "string option"
  lc_old_hostname :: "string option"

definition table_new :: lease_table where
  "table_new = \<lparr> by_mac = Map.empty, allocated_ips = {}, conflicts = Map.empty,
                 static_leases = Map.empty, reserved_ips = {} \<rparr>"

definition with_static_leases :: "static_lease list \<Rightarrow> lease_table" where
  "with_static_leases ls =
     (let (m, r) = fold (\<lambda>l (m, r). (m(sl_mac l \<mapsto> l), insert (sl_ip l) r)) ls (Map.empty, {})
      in \<lparr> by_mac = Map.empty, allocated_ips = {}, conflicts = Map.empty,
           static_leases = m, reserved_ips = r \<rparr>)"

definition table_insert :: "mac \<Rightarrow> client_lease \<Rightarrow> lease_table \<Rightarrow> lease_table" where
  "table_insert m l t =
     (let a = (case by_mac t m of Some old \<Rightarrow> allocated_ips t - {cl_ip old} | None \<Rightarrow> allocated_ips t)
      in t\<lparr> allocated_ips := insert (cl_ip l) a, by_mac := (by_mac t)(m \<mapsto> l) \<rparr>)"

definition table_remove :: "mac \<Rightarrow> lease_table \<Rightarrow> client_lease option \<times> lease_table" where
  "table_remove m t =
     (case by_mac t m of
        None \<Rightarrow> (None, t)
      | Some l \<Rightarrow> (Some l, t\<lparr> by_mac := (by_mac t)(m := None),
                             allocated_ips := allocated_ips t - {cl_ip l} \<rparr>))"

definition set_static_step ::
  "static_lease \<Rightarrow> lease_table \<times> (mac \<rightharpoonup> static_lease) \<times> ip set
     \<Rightarrow> lease_table \<times> (mac \<rightharpoonup> static_lease) \<times> ip set" where
  "set_static_step l s =
     (case s of (t, m, r) \<Rightarrow>
       ((case by_mac t (sl_mac l) of
           Some existing \<Rightarrow> if cl_ip existing \<noteq> sl_ip l then snd (table_remove (sl_mac l) t) else t
         | None \<Rightarrow> t),
        m(sl_mac l \<mapsto> l), insert (sl_ip l) r))"

definition set_static_leases :: "static_lease list \<Rightarrow> lease_table \<Rightarrow> lease_table" where
  "set_static_leases ls t =
     (case fold set_static_step ls (t, Map.empty, {}) of
        (t', m, r) \<Rightarrow> t'\<lparr> reserved_ips := r, static_leases := m \<rparr>)"

definition is_hostname_taken_by_other :: "instant \<Rightarrow> mac list \<Rightarrow> lease_table \<Rightarrow> string \<Rightarrow> mac \<Rightarrow> bool" where
  "is_hostname_taken_by_other now ks t h client =
     any_entry ks (by_mac t) (\<lambda>m l. m \<noteq> client \<and> now < cl_expiry l \<and> cl_hostname l = Some h)"

definition is_conflict_active :: "instant \<Rightarrow> lease_table \<Rightarrow> ip \<Rightarrow> bool" where
  "is_conflict_active now t i = (case conflicts t i of Some e \<Rightarrow> now < e | None \<Rightarrow> False)"

definition is_ip_available :: "instant \<Rightarrow> lease_table \<Rightarrow> ip \<Rightarrow> bool" where
  "is_ip_available now t i \<longleftrightarrow> i \<notin> allocated_ips t \<and> \<not> is_conflict_active now t i"

definition is_ip_available_for_dynamic :: "instant \<Rightarrow> lease_table \<Rightarrow> ip \<Rightarrow> bool" where
  "is_ip_available_for_dynamic now t i \<longleftrightarrow> is_ip_available now t i \<and> i \<notin> reserved_ips t"

definition record_conflict :: "instant \<Rightarrow> ip \<Rightarrow> duration \<Rightarrow> lease_table \<Rightarrow> lease_table" where
  "record_conflict now i d t = t\<lparr> conflicts := (conflicts t)(i \<mapsto> now + d) \<rparr>"

definition is_ip_taken_by_other :: "instant \<Rightarrow> mac list \<Rightarrow> lease_table \<Rightarrow> ip \<Rightarrow> mac \<Rightarrow> bool" where
  "is_ip_taken_by_other now ks t i client =
     any_entry ks (by_mac t) (\<lambda>m l. cl_ip l = i \<and> now < cl_expiry l \<and> m \<noteq> client)"

definition evict_expired :: "instant \<Rightarrow> mac list \<Rightarrow> lease_table \<Rightarrow> string list \<times> lease_table" where
  "evict_expired now ks t =
     (let expired = List.map_filter cl_hostname
                      (filter (\<lambda>l. \<not> now < cl_expiry l) (values_along ks (by_mac t)));
          live = retain (\<lambda>l. now < cl_expiry l) (by_mac t)
      in (expired,
          t\<lparr> by_mac := live,
             allocated_ips := set (map cl_ip (values_along ks live)),
             conflicts := retain (\<lambda>e. now < e) (conflicts t) \<rparr>))"

definition next_available_ip ::
  "'n net_lib \<Rightarrow> instant \<Rightarrow> mac list \<Rightarrow> 'n \<Rightarrow> ip \<Rightarrow> lease_table \<Rightarrow> ip option \<times> lease_table" where
  "next_available_ip L now ks net server_ip t =
     (let t' = snd (evict_expired now ks t)
      in (List.find (\<lambda>i. i \<noteq> server_ip \<and> is_ip_available_for_dynamic now t' i) (net_hosts L net), t'))"

definition get_mac_by_ip :: "instant \<Rightarrow> mac list \<Rightarrow> lease_table \<Rightarrow> ip \<Rightarrow> mac option" where
  "get_mac_by_ip now ks t i = find_entry ks (by_mac t) (\<lambda>_ l. cl_ip l = i \<and> now < cl_expiry l)"

definition allocate_candidate ::
  "'n net_lib \<Rightarrow> instant \<Rightarrow> mac list \<Rightarrow> mac \<Rightarrow> 'n \<Rightarrow> ip \<Rightarrow> lease_table \<Rightarrow> ip option \<times> lease_table" where
  "allocate_candidate L now ks client net server_ip t =
     (case static_leases t client of
        Some s \<Rightarrow>
          if net_contains L net (sl_ip s) \<and> sl_ip s \<noteq> server_ip
             \<and> \<not> is_ip_taken_by_other now ks t (sl_ip s) client
          then (Some (sl_ip s),
                table_insert client \<lparr> cl_ip = sl_ip s, cl_expiry = now + CANDIDATE_HOLD_DURATION,
                                      cl_hostname = sl_hostname s \<rparr> t)
          else (None, t)
      | None \<Rightarrow>
          (case next_available_ip L now ks net server_ip t of
             (None, t') \<Rightarrow> (None, t')
           | (Some i, t') \<Rightarrow>
               (Some i, table_insert client \<lparr> cl_ip = i, cl_expiry = now + CANDIDATE_HOLD_DURATION,
                                              cl_hostname = None \<rparr> t')))"

definition old_hostname_to_deregister :: "string option \<Rightarrow> string option \<Rightarrow> string option" where
  "old_hostname_to_deregister old_h new_h =
     (case (old_h, new_h) of
        (Some old, Some new) \<Rightarrow> if old \<noteq> new then Some old else None
      | (Some old, None) \<Rightarrow> Some old
      | _ \<Rightarrow> None)"

definition target_rejected ::
  "'n net_lib \<Rightarrow> instant \<Rightarrow> mac list \<Rightarrow> mac \<Rightarrow> ip \<Rightarrow> ip \<Rightarrow> 'n \<Rightarrow> lease_table \<Rightarrow> bool" where
  "target_rejected L now ks client target server_ip net t \<longleftrightarrow>
     target = server_ip \<or> target = net_network L net \<or> target = net_broadcast L net
     \<or> \<not> net_contains L net target \<or> is_ip_taken_by_other now ks t target client
     \<or> (case static_leases t client of
          Some s \<Rightarrow> target \<noteq> sl_ip s
        | None \<Rightarrow> target \<in> reserved_ips t)"

definition validate_and_confirm ::
  "'n net_lib \<Rightarrow> instant \<Rightarrow> mac list \<Rightarrow> mac \<Rightarrow> ip option \<Rightarrow> ip \<Rightarrow> 'n \<Rightarrow> duration \<Rightarrow> string option
     \<Rightarrow> lease_table \<Rightarrow> lease_confirmation option \<times> lease_table" where
  "validate_and_confirm L now ks client requested_ip server_ip net duration requested_hostname t =
     (case (case requested_ip of Some i \<Rightarrow> Some i | None \<Rightarrow> map_option cl_ip (by_mac t client)) of
        None \<Rightarrow> (None, t)
      | Some target \<Rightarrow>
          if target_rejected L now ks client target server_ip net t then (None, t)
          else
            let old_h = Option.bind (by_mac t client) cl_hostname;
                target_h = (case Option.bind (static_leases t client) sl_hostname of
                              Some h \<Rightarrow> Some h | None \<Rightarrow> requested_hostname);
                effective = (case target_h of
                               Some h \<Rightarrow> if is_hostname_taken_by_other now ks t h client then None else Some h
                             | None \<Rightarrow> None)
            in (Some \<lparr> lc_ip = target, lc_hostname = effective,
                       lc_old_hostname = old_hostname_to_deregister old_h effective \<rparr>,
                table_insert client \<lparr> cl_ip = target, cl_expiry = now + duration,
                                      cl_hostname = effective \<rparr> t))"

definition update_from_neighbor ::
  "'n net_lib \<Rightarrow> instant \<Rightarrow> mac \<Rightarrow> ip \<Rightarrow> lease_table \<Rightarrow> lease_table" where
  "update_from_neighbor L now m i t =
     (if m = mac_zero L \<or> m = mac_broadcast L then t
      else if (case static_leases t m of Some s \<Rightarrow> i \<noteq> sl_ip s | None \<Rightarrow> False) then t
      else if (case by_mac t m of Some existing \<Rightarrow> cl_ip existing = i | None \<Rightarrow> False) then t
      else table_insert m \<lparr> cl_ip = i, cl_expiry = now + NEIGHBOR_HOLD_DURATION,
                            cl_hostname = Option.bind (static_leases t m) sl_hostname \<rparr> t)"

definition get_active_leases ::
  "instant \<Rightarrow> mac list \<Rightarrow> mac list \<Rightarrow> lease_table \<Rightarrow> dhcp_lease_info list" where
  "get_active_leases now ks ss t =
     (let active = filter (\<lambda>m. case by_mac t m of Some l \<Rightarrow> now < cl_expiry l | None \<Rightarrow> False) ks
      in List.map_filter (\<lambda>m. map_option (\<lambda>l.
             \<lparr> li_mac = m, li_ip = cl_ip l, li_hostname = cl_hostname l,
               li_expires_in_seconds = as_secs (cl_expiry l - now),
               li_is_static = (static_leases t m \<noteq> None) \<rparr>) (by_mac t m)) active
         @ List.map_filter (\<lambda>m. map_option (\<lambda>s.
             \<lparr> li_mac = m, li_ip = sl_ip s, li_hostname = sl_hostname s,
               li_expires_in_seconds = 0, li_is_static = True \<rparr>) (static_leases t m))
           (filter (\<lambda>m. m \<notin> set active) ss))"

section \<open>Specification vocabulary\<close>

text \<open>
  \<open>bindings now t\<close> is the abstract content of the table at time \<open>now\<close>: the address each
  client actively holds. The detailed table keeps expired entries and an index beside it.
\<close>

definition bindings :: "instant \<Rightarrow> lease_table \<Rightarrow> mac \<rightharpoonup> ip" where
  "bindings now t m =
     (case by_mac t m of Some l \<Rightarrow> if now < cl_expiry l then Some (cl_ip l) else None | None \<Rightarrow> None)"

definition held_by_other :: "instant \<Rightarrow> lease_table \<Rightarrow> ip \<Rightarrow> mac \<Rightarrow> bool" where
  "held_by_other now t i client \<longleftrightarrow> (\<exists>m. m \<noteq> client \<and> bindings now t m = Some i)"

definition unique_holders :: "instant \<Rightarrow> lease_table \<Rightarrow> bool" where
  "unique_holders now t \<longleftrightarrow> (\<forall>m m' i. bindings now t m = Some i \<longrightarrow> bindings now t m' = Some i \<longrightarrow> m = m')"

definition name_taken :: "instant \<Rightarrow> lease_table \<Rightarrow> string \<Rightarrow> mac \<Rightarrow> bool" where
  "name_taken now t h client \<longleftrightarrow>
     (\<exists>m l. m \<noteq> client \<and> by_mac t m = Some l \<and> now < cl_expiry l \<and> cl_hostname l = Some h)"

definition index_exact :: "lease_table \<Rightarrow> bool" where
  "index_exact t \<longleftrightarrow> allocated_ips t = cl_ip ` ran (by_mac t)"

definition table_ok :: "lease_table \<Rightarrow> bool" where
  "table_ok t \<longleftrightarrow> allocated_ips t \<subseteq> cl_ip ` ran (by_mac t)
     \<and> sl_ip ` ran (static_leases t) \<subseteq> reserved_ips t
     \<and> (\<forall>m s. static_leases t m = Some s \<longrightarrow> sl_mac s = m)"

definition reservations_kept :: "lease_table \<Rightarrow> bool" where
  "reservations_kept t \<longleftrightarrow>
     (\<forall>m s l. static_leases t m = Some s \<longrightarrow> by_mac t m = Some l \<longrightarrow> cl_ip l = sl_ip s)"

text \<open>An address the dynamic allocator may hand out.\<close>

definition free_for_dynamic :: "'n net_lib \<Rightarrow> instant \<Rightarrow> 'n \<Rightarrow> ip \<Rightarrow> lease_table \<Rightarrow> ip \<Rightarrow> bool" where
  "free_for_dynamic L now net server_ip t i \<longleftrightarrow>
     i \<in> set (net_hosts L net) \<and> i \<noteq> server_ip \<and> i \<notin> ran (bindings now t)
     \<and> \<not> is_conflict_active now t i \<and> i \<notin> reserved_ips t"

text \<open>Constants at which the theorems are instantiated.\<close>

abbreviation mac_a :: mac where "mac_a \<equiv> MacAddr 2 0 0 0 0 1"
abbreviation mac_b :: mac where "mac_b \<equiv> MacAddr 2 0 0 0 0 2"

definition witness_table :: lease_table where
  "witness_table = table_insert mac_a
     \<lparr> cl_ip = 3232235778, cl_expiry = 100, cl_hostname = Some ''nas'' \<rparr> table_new"

section \<open>Elementary facts\<close>

lemma bindings_Some_iff:
  "bindings now t m = Some i \<longleftrightarrow> (\<exists>l. by_mac t m = Some l \<and> now < cl_expiry l \<and> cl_ip l = i)"
  by (auto simp: bindings_def split: option.splits)

lemma is_ip_taken_by_other_iff:
  "iterates ks (by_mac t) \<Longrightarrow> is_ip_taken_by_other now ks t i client \<longleftrightarrow> held_by_other now t i client"
  by (auto simp: is_ip_taken_by_other_def any_entry_iff held_by_other_def bindings_Some_iff)

lemma is_hostname_taken_by_other_iff:
  "iterates ks (by_mac t) \<Longrightarrow> is_hostname_taken_by_other now ks t h client \<longleftrightarrow> name_taken now t h client"
  by (auto simp: is_hostname_taken_by_other_def any_entry_iff name_taken_def)

lemma table_insert_sel [simp]:
  "by_mac (table_insert m l t) = (by_mac t)(m \<mapsto> l)"
  "conflicts (table_insert m l t) = conflicts t"
  "static_leases (table_insert m l t) = static_leases t"
  "reserved_ips (table_insert m l t) = reserved_ips t"
  by (auto simp: table_insert_def Let_def)

lemma table_remove_sel [simp]:
  "fst (table_remove m t) = by_mac t m"
  "by_mac (snd (table_remove m t)) = (by_mac t)(m := None)"
  "conflicts (snd (table_remove m t)) = conflicts t"
  "static_leases (snd (table_remove m t)) = static_leases t"
  "reserved_ips (snd (table_remove m t)) = reserved_ips t"
  by (auto simp: table_remove_def split: option.splits)

lemma bindings_insert:
  "bindings now (table_insert m l t) =
     (bindings now t)(m := if now < cl_expiry l then Some (cl_ip l) else None)"
  by (auto simp: bindings_def fun_eq_iff)

lemma bindings_remove: "bindings now (snd (table_remove m t)) = (bindings now t)(m := None)"
  by (auto simp: bindings_def fun_eq_iff)

lemma bindings_later: "now \<le> now' \<Longrightarrow> bindings now' t m = Some i \<Longrightarrow> bindings now t m = Some i"
  by (auto simp: bindings_Some_iff)

lemma unique_holders_later: "now \<le> now' \<Longrightarrow> unique_holders now t \<Longrightarrow> unique_holders now' t"
  unfolding unique_holders_def by (meson bindings_later)

lemma unique_holders_insert:
  assumes "unique_holders now t" "\<not> held_by_other now t (cl_ip l) m"
  shows "unique_holders now (table_insert m l t)"
  using assms unfolding unique_holders_def held_by_other_def bindings_insert
  by (auto split: if_splits)

lemma unique_holders_submap:
  assumes "unique_holders now t" "\<And>m i. bindings now t' m = Some i \<Longrightarrow> bindings now t m = Some i"
  shows "unique_holders now t'"
  using assms unfolding unique_holders_def by blast

lemma witness_table_eval [simp]:
  "by_mac witness_table = [mac_a \<mapsto> \<lparr> cl_ip = 3232235778, cl_expiry = 100, cl_hostname = Some ''nas'' \<rparr>]"
  "static_leases witness_table = Map.empty"
  "conflicts witness_table = Map.empty"
  "reserved_ips witness_table = {}"
  "allocated_ips witness_table = {3232235778}"
  by (simp_all add: witness_table_def table_insert_def table_new_def)

lemma witness_table_binding [simp]: "bindings 0 witness_table mac_a = Some 3232235778"
  by (simp add: bindings_def)

lemma witness_table_iterates: "iterates [mac_a] (by_mac witness_table)"
  by (simp add: iterates_def)

subsection \<open>Eviction\<close>

lemma evict_expired_sel [simp]:
  "by_mac (snd (evict_expired now ks t)) = retain (\<lambda>l. now < cl_expiry l) (by_mac t)"
  "conflicts (snd (evict_expired now ks t)) = retain (\<lambda>e. now < e) (conflicts t)"
  "static_leases (snd (evict_expired now ks t)) = static_leases t"
  "reserved_ips (snd (evict_expired now ks t)) = reserved_ips t"
  by (simp_all add: evict_expired_def Let_def)

lemma bindings_evict [simp]: "bindings now (snd (evict_expired now ks t)) = bindings now t"
  by (auto simp: bindings_def fun_eq_iff retain_def split: option.splits)

lemma allocated_evict:
  assumes "iterates ks (by_mac t)"
  shows "allocated_ips (snd (evict_expired now ks t)) = ran (bindings now t)"
proof -
  let ?live = "retain (\<lambda>l. now < cl_expiry l) (by_mac t)"
  have "dom ?live \<subseteq> set ks" using assms by (auto simp: iterates_def dom_def)
  then have "allocated_ips (snd (evict_expired now ks t)) = cl_ip ` ran ?live"
    by (simp add: evict_expired_def Let_def set_values_along)
  also have "\<dots> = ran (bindings now t)"
    by (auto simp: ran_def bindings_Some_iff)
  finally show ?thesis .
qed

lemma conflict_active_evict [simp]:
  "is_conflict_active now (snd (evict_expired now ks t)) i \<longleftrightarrow> is_conflict_active now t i"
  by (auto simp: is_conflict_active_def retain_def split: option.splits)

lemma set_expired_names:
  assumes "iterates ks (by_mac t)"
  shows "set (fst (evict_expired now ks t)) =
    {h. \<exists>m l. by_mac t m = Some l \<and> cl_expiry l \<le> now \<and> cl_hostname l = Some h}"
proof -
  have "set (values_along ks (by_mac t)) = ran (by_mac t)"
    using assms by (simp add: iterates_def set_values_along)
  then show ?thesis
    by (fastforce simp: evict_expired_def Let_def set_map_filter_iff ran_def not_less)
qed

section \<open>Invariants of the table\<close>

lemma table_ok_new [simp]: "table_ok table_new"
  by (simp add: table_ok_def table_new_def)

lemma table_ok_insert:
  assumes "table_ok t"
  shows "table_ok (table_insert m l t)"
proof -
  have "allocated_ips (table_insert m l t) \<subseteq> cl_ip ` ran ((by_mac t)(m \<mapsto> l))"
  proof
    fix i assume "i \<in> allocated_ips (table_insert m l t)"
    then consider "i = cl_ip l"
      | "i \<in> allocated_ips t" "\<And>old. by_mac t m = Some old \<Longrightarrow> i \<noteq> cl_ip old"
      by (auto simp: table_insert_def Let_def split: option.splits)
    then show "i \<in> cl_ip ` ran ((by_mac t)(m \<mapsto> l))"
    proof cases
      case 2
      with assms obtain m' l' where "by_mac t m' = Some l'" "cl_ip l' = i"
        by (auto simp: table_ok_def ran_def)
      with 2 have "((by_mac t)(m \<mapsto> l)) m' = Some l'" by auto
      with \<open>cl_ip l' = i\<close> show ?thesis by (metis imageI ranI)
    qed (auto simp: ran_def)
  qed
  with assms show ?thesis by (simp add: table_ok_def)
qed

lemma table_ok_remove:
  assumes "table_ok t"
  shows "table_ok (snd (table_remove m t))"
proof -
  have "allocated_ips (snd (table_remove m t)) \<subseteq> cl_ip ` ran ((by_mac t)(m := None))"
  proof
    fix i assume i: "i \<in> allocated_ips (snd (table_remove m t))"
    then obtain m' l' where l': "by_mac t m' = Some l'" "cl_ip l' = i"
      using assms by (auto simp: table_remove_def table_ok_def ran_def split: option.splits)
    with i have "m' \<noteq> m" by (auto simp: table_remove_def)
    with l' have "((by_mac t)(m := None)) m' = Some l'" by simp
    with l' show "i \<in> cl_ip ` ran ((by_mac t)(m := None))" by (metis imageI ranI)
  qed
  with assms show ?thesis by (simp add: table_ok_def)
qed

lemma table_ok_evict:
  assumes "table_ok t"
  shows "table_ok (snd (evict_expired now ks t))"
proof -
  have "set (values_along ks m) \<subseteq> ran m" for m :: "mac \<rightharpoonup> client_lease"
    by (auto simp: values_along_def set_map_filter_iff ran_def)
  then have "allocated_ips (snd (evict_expired now ks t))
      \<subseteq> cl_ip ` ran (retain (\<lambda>l. now < cl_expiry l) (by_mac t))"
    by (simp add: evict_expired_def Let_def image_mono)
  with assms show ?thesis by (simp add: table_ok_def)
qed

text \<open>The loop of \<open>set_static_leases\<close>, as an invariant over the processed reservations.\<close>

lemma set_static_fold:
  assumes "fold set_static_step ls (t, m, r) = (t', m', r')"
  shows "r' = r \<union> sl_ip ` set ls"
    and "\<And>k s. m' k = Some s \<Longrightarrow> m k = Some s \<or> (s \<in> set ls \<and> sl_mac s = k)"
    and "table_ok t \<Longrightarrow> table_ok t'"
    and "\<And>k l. by_mac t' k = Some l \<Longrightarrow> by_mac t k = Some l"
    and "\<And>k s l. (\<And>s l. m k = Some s \<Longrightarrow> by_mac t k = Some l \<Longrightarrow> cl_ip l = sl_ip s)
           \<Longrightarrow> m' k = Some s \<Longrightarrow> by_mac t' k = Some l \<Longrightarrow> cl_ip l = sl_ip s"
    and "conflicts t' = conflicts t"
proof -
  define t1 where "t1 x t = (case by_mac t (sl_mac x) of
      Some e \<Rightarrow> if cl_ip e \<noteq> sl_ip x then snd (table_remove (sl_mac x) t) else t | None \<Rightarrow> t)"
    for x :: static_lease and t
  have step: "set_static_step x (t, m, r) = (t1 x t, m(sl_mac x \<mapsto> x), insert (sl_ip x) r)" for x t m r
    by (simp add: set_static_step_def t1_def)
  have t1: "table_ok t \<Longrightarrow> table_ok (t1 x t)" "by_mac (t1 x t) k = Some l \<Longrightarrow> by_mac t k = Some l"
    "by_mac (t1 x t) (sl_mac x) = Some l \<Longrightarrow> cl_ip l = sl_ip x" "conflicts (t1 x t) = conflicts t"
    for x t k l
    by (auto simp: t1_def table_ok_remove split: option.splits if_splits)
  show "r' = r \<union> sl_ip ` set ls" using assms
    by (induction ls arbitrary: t m r) (auto simp: step)
  show "m k = Some s \<or> (s \<in> set ls \<and> sl_mac s = k)" if "m' k = Some s" for k s
    using assms that by (induction ls arbitrary: t m r) (fastforce simp: step split: if_splits)+
  show "table_ok t'" if "table_ok t"
    using assms that by (induction ls arbitrary: t m r) (auto simp: step t1)
  show "by_mac t k = Some l" if "by_mac t' k = Some l" for k l
    using assms that by (induction ls arbitrary: t m r) (auto simp: step dest: t1(2))
  show "conflicts t' = conflicts t"
    using assms by (induction ls arbitrary: t m r) (auto simp: step t1)
  show "cl_ip l = sl_ip s" if "\<And>s l. m k = Some s \<Longrightarrow> by_mac t k = Some l \<Longrightarrow> cl_ip l = sl_ip s"
    "m' k = Some s" "by_mac t' k = Some l" for k s l
    using assms that
  proof (induction ls arbitrary: t m r)
    case (Cons x ls)
    show ?case
    proof (rule Cons.IH)
      show "fold set_static_step ls (t1 x t, m(sl_mac x \<mapsto> x), insert (sl_ip x) r) = (t', m', r')"
        using Cons.prems(1) by (simp add: step)
      show "cl_ip l = sl_ip s" if "(m(sl_mac x \<mapsto> x)) k = Some s" "by_mac (t1 x t) k = Some l" for s l
      proof (cases "k = sl_mac x")
        case True
        with that t1(3) show ?thesis by simp
      next
        case False
        with that(1) have "m k = Some s" by simp
        with that(2) show ?thesis using Cons.prems(2) t1(2) by blast
      qed
    qed (use Cons.prems in simp_all)
  qed simp
qed

lemma set_static_leases_facts:
  shows "table_ok t \<Longrightarrow> table_ok (set_static_leases ls t)"
    and "reserved_ips (set_static_leases ls t) = sl_ip ` set ls"
    and "by_mac (set_static_leases ls t) k = Some l \<Longrightarrow> by_mac t k = Some l"
    and "reservations_kept (set_static_leases ls t)"
    and "conflicts (set_static_leases ls t) = conflicts t"
proof -
  obtain t' m' r' where f: "fold set_static_step ls (t, Map.empty, {}) = (t', m', r')"
    by (metis prod_cases3)
  note facts = set_static_fold[OF f]
  have eq: "set_static_leases ls t = t'\<lparr> reserved_ips := r', static_leases := m' \<rparr>"
    by (simp add: set_static_leases_def f)
  show "table_ok (set_static_leases ls t)" if "table_ok t"
    using facts(1) facts(2) facts(3)[OF that] by (fastforce simp: eq table_ok_def ran_def)
  show "reserved_ips (set_static_leases ls t) = sl_ip ` set ls" using facts(1) by (simp add: eq)
  show "by_mac t k = Some l" if "by_mac (set_static_leases ls t) k = Some l"
    using facts(4) that by (simp add: eq)
  show "reservations_kept (set_static_leases ls t)"
    using facts(5) by (simp add: eq reservations_kept_def)
  show "conflicts (set_static_leases ls t) = conflicts t" using facts(6) by (simp add: eq)
qed

section \<open>Allocation\<close>

lemma free_after_evict:
  assumes "iterates ks (by_mac t)"
  shows "is_ip_available_for_dynamic now (snd (evict_expired now ks t)) i \<longleftrightarrow>
    i \<notin> ran (bindings now t) \<and> \<not> is_conflict_active now t i \<and> i \<notin> reserved_ips t"
  by (auto simp: is_ip_available_for_dynamic_def is_ip_available_def allocated_evict[OF assms])

lemma next_available_ip_eq:
  assumes "iterates ks (by_mac t)"
  shows "fst (next_available_ip L now ks net server_ip t) =
    List.find (free_for_dynamic L now net server_ip t) (net_hosts L net)"
  unfolding next_available_ip_def Let_def fst_conv free_after_evict[OF assms]
  by (rule find_cong) (simp_all add: free_for_dynamic_def)

lemma allocate_candidate_dynamic_eq:
  assumes "static_leases t client = None"
  shows "allocate_candidate L now ks client net server_ip t =
    (case fst (next_available_ip L now ks net server_ip t) of
       None \<Rightarrow> (None, snd (evict_expired now ks t))
     | Some i \<Rightarrow> (Some i, table_insert client \<lparr> cl_ip = i, cl_expiry = now + CANDIDATE_HOLD_DURATION,
                                              cl_hostname = None \<rparr> (snd (evict_expired now ks t))))"
  using assms by (simp add: allocate_candidate_def next_available_ip_def Let_def split: option.splits)

lemma candidate_hold_pos [simp]: "0 < CANDIDATE_HOLD_DURATION"
  by (simp add: CANDIDATE_HOLD_DURATION_def)

text \<open>
  C34. Dynamic allocation is sound and complete. For a client without a reservation,
  \<open>allocate_candidate\<close> answers with the first host address of the network that is not the
  server's, not actively held by anyone, not under a conflict hold and not reserved, and
  afterwards the client actively holds that address and all other active bindings are
  unchanged; it answers \<open>None\<close> exactly when no such address exists, and then changes no
  active binding.
\<close>

theorem allocate_candidate_dynamic:
  assumes "iterates ks (by_mac t)" and "static_leases t client = None"
  shows "case allocate_candidate L now ks client net server_ip t of
      (Some i, t') \<Rightarrow> free_for_dynamic L now net server_ip t i
        \<and> (\<exists>k < length (net_hosts L net). net_hosts L net ! k = i
             \<and> (\<forall>j < k. \<not> free_for_dynamic L now net server_ip t (net_hosts L net ! j)))
        \<and> bindings now t' = (bindings now t)(client \<mapsto> i)
    | (None, t') \<Rightarrow> (\<forall>i. \<not> free_for_dynamic L now net server_ip t i) \<and> bindings now t' = bindings now t"
proof (cases "List.find (free_for_dynamic L now net server_ip t) (net_hosts L net)")
  case None
  then have "\<forall>i. \<not> free_for_dynamic L now net server_ip t i"
    by (auto simp: find_None_iff free_for_dynamic_def)
  with None show ?thesis
    by (simp add: allocate_candidate_dynamic_eq[OF assms(2)] next_available_ip_eq[OF assms(1)])
next
  case (Some i)
  then obtain k where "k < length (net_hosts L net)" "net_hosts L net ! k = i"
    "free_for_dynamic L now net server_ip t i"
    "\<forall>j < k. \<not> free_for_dynamic L now net server_ip t (net_hosts L net ! j)"
    by (auto simp: find_Some_iff)
  with Some show ?thesis
    by (auto simp: allocate_candidate_dynamic_eq[OF assms(2)] next_available_ip_eq[OF assms(1)]
        bindings_insert)
qed

theorem allocate_candidate_dynamic_witness:
  "\<exists>t'. allocate_candidate cidr_lib 0 [mac_a] mac_b lan29 3232235777 witness_table = (Some 3232235779, t')
     \<and> free_for_dynamic cidr_lib 0 lan29 3232235777 witness_table 3232235779
     \<and> bindings 0 t' mac_b = Some 3232235779 \<and> bindings 0 t' mac_a = Some 3232235778"
proof -
  have "fst (allocate_candidate cidr_lib 0 [mac_a] mac_b lan29 3232235777 witness_table) = Some 3232235779"
    by (simp add: allocate_candidate_def next_available_ip_def is_ip_available_for_dynamic_def
        is_ip_available_def is_conflict_active_def evict_expired_def Let_def values_along_def retain_def
        map_filter_def)
  then obtain t' where eq:
    "allocate_candidate cidr_lib 0 [mac_a] mac_b lan29 3232235777 witness_table = (Some 3232235779, t')"
    by (metis prod.collapse)
  then show ?thesis
    using allocate_candidate_dynamic[OF witness_table_iterates, of mac_b cidr_lib 0 lan29 3232235777]
    by simp
qed

lemma allocate_candidate_static_eq:
  assumes "iterates ks (by_mac t)" and "static_leases t client = Some s"
  shows "allocate_candidate L now ks client net server_ip t =
    (if net_contains L net (sl_ip s) \<and> sl_ip s \<noteq> server_ip \<and> \<not> held_by_other now t (sl_ip s) client
     then (Some (sl_ip s), table_insert client \<lparr> cl_ip = sl_ip s,
             cl_expiry = now + CANDIDATE_HOLD_DURATION, cl_hostname = sl_hostname s \<rparr> t)
     else (None, t))"
  using assms by (simp add: allocate_candidate_def is_ip_taken_by_other_iff)

lemma allocate_candidate_props:
  assumes "net_laws L" and it: "iterates ks (by_mac t)"
    and alloc: "allocate_candidate L now ks client net server_ip t = (r, t')"
  shows "r = Some i \<Longrightarrow> net_contains L net i \<and> i \<noteq> server_ip \<and> \<not> held_by_other now t i client"
    and "bindings now t' = (case r of Some i \<Rightarrow> (bindings now t)(client \<mapsto> i) | None \<Rightarrow> bindings now t)"
    and "static_leases t' = static_leases t" "reserved_ips t' = reserved_ips t"
proof -
  have find: "List.find (free_for_dynamic L now net server_ip t) (net_hosts L net) = Some j \<Longrightarrow>
      net_contains L net j \<and> j \<noteq> server_ip \<and> \<not> held_by_other now t j client" for j
    using net_laws.hosts_contains[OF assms(1)]
    by (auto simp: find_Some_iff free_for_dynamic_def held_by_other_def ran_def)
  consider (static) s where "static_leases t client = Some s" "r = Some (sl_ip s)"
      "net_contains L net (sl_ip s)" "sl_ip s \<noteq> server_ip" "\<not> held_by_other now t (sl_ip s) client"
      "t' = table_insert client \<lparr> cl_ip = sl_ip s, cl_expiry = now + CANDIDATE_HOLD_DURATION,
              cl_hostname = sl_hostname s \<rparr> t"
    | (refused) "r = None" "t' = t"
    | (dynamic) j where "static_leases t client = None" "r = Some j"
      "List.find (free_for_dynamic L now net server_ip t) (net_hosts L net) = Some j"
      "t' = table_insert client \<lparr> cl_ip = j, cl_expiry = now + CANDIDATE_HOLD_DURATION,
              cl_hostname = None \<rparr> (snd (evict_expired now ks t))"
    | (exhausted) "static_leases t client = None" "r = None" "t' = snd (evict_expired now ks t)"
  proof (cases "static_leases t client")
    case None
    note eq = alloc[unfolded allocate_candidate_dynamic_eq[OF None] next_available_ip_eq[OF it]]
    show thesis
    proof (cases "List.find (free_for_dynamic L now net server_ip t) (net_hosts L net)")
      case (Some j)
      show thesis by (rule dynamic[of j]) (use None Some eq in simp_all)
    qed (use None eq exhausted in simp)
  next
    case (Some s)
    note eq = alloc[unfolded allocate_candidate_static_eq[OF it Some]]
    show thesis
    proof (cases "net_contains L net (sl_ip s) \<and> sl_ip s \<noteq> server_ip \<and> \<not> held_by_other now t (sl_ip s) client")
      case True
      show thesis by (rule static[of s]) (use Some True eq in simp_all)
    next
      case False
      show thesis by (rule refused) (use eq[unfolded if_not_P[OF False]] in simp_all)
    qed
  qed
  note cases = this
  show "net_contains L net i \<and> i \<noteq> server_ip \<and> \<not> held_by_other now t i client" if "r = Some i"
    using that by (cases rule: cases) (use find in simp_all)
  show "bindings now t' = (case r of Some i \<Rightarrow> (bindings now t)(client \<mapsto> i) | None \<Rightarrow> bindings now t)"
    by (cases rule: cases) (simp_all add: bindings_insert)
  show "static_leases t' = static_leases t" "reserved_ips t' = reserved_ips t"
    by (cases rule: cases; simp)+
qed

section \<open>Confirmation\<close>

text \<open>The address a request is about, and the conditions the table puts on it.\<close>

definition request_target :: "mac \<Rightarrow> ip option \<Rightarrow> lease_table \<Rightarrow> ip option" where
  "request_target client req t = (case req of Some i \<Rightarrow> Some i | None \<Rightarrow> map_option cl_ip (by_mac t client))"

definition grantable :: "'n net_lib \<Rightarrow> instant \<Rightarrow> mac \<Rightarrow> ip \<Rightarrow> 'n \<Rightarrow> lease_table \<Rightarrow> ip \<Rightarrow> bool" where
  "grantable L now client server_ip net t i \<longleftrightarrow>
     net_contains L net i \<and> i \<noteq> net_network L net \<and> i \<noteq> net_broadcast L net \<and> i \<noteq> server_ip
     \<and> \<not> held_by_other now t i client
     \<and> (case static_leases t client of Some s \<Rightarrow> i = sl_ip s | None \<Rightarrow> i \<notin> reserved_ips t)"

definition granted_hostname :: "instant \<Rightarrow> mac \<Rightarrow> string option \<Rightarrow> lease_table \<Rightarrow> string option" where
  "granted_hostname now client req t =
     (case (case Option.bind (static_leases t client) sl_hostname of Some h \<Rightarrow> Some h | None \<Rightarrow> req) of
        Some h \<Rightarrow> if name_taken now t h client then None else Some h
      | None \<Rightarrow> None)"

lemma target_rejected_iff:
  "iterates ks (by_mac t) \<Longrightarrow>
     target_rejected L now ks client i server_ip net t \<longleftrightarrow> \<not> grantable L now client server_ip net t i"
  by (auto simp: target_rejected_def grantable_def is_ip_taken_by_other_iff split: option.splits)

lemma validate_and_confirm_eq:
  assumes "iterates ks (by_mac t)"
  shows "validate_and_confirm L now ks client req server_ip net d h t =
    (case request_target client req t of
       None \<Rightarrow> (None, t)
     | Some i \<Rightarrow>
         if grantable L now client server_ip net t i
         then (Some \<lparr> lc_ip = i, lc_hostname = granted_hostname now client h t,
                      lc_old_hostname = old_hostname_to_deregister
                        (Option.bind (by_mac t client) cl_hostname) (granted_hostname now client h t) \<rparr>,
               table_insert client \<lparr> cl_ip = i, cl_expiry = now + d,
                                     cl_hostname = granted_hostname now client h t \<rparr> t)
         else (None, t))"
proof -
  have names: "is_hostname_taken_by_other now ks t = name_taken now t"
    using is_hostname_taken_by_other_iff[OF assms] by blast
  show ?thesis
    unfolding validate_and_confirm_def request_target_def[symmetric] granted_hostname_def names
    by (cases "request_target client req t") (simp_all add: target_rejected_iff[OF assms] Let_def)
qed

text \<open>
  A request is confirmed exactly when its target (the requested address, or else the
  address of the client's present entry) may be granted: it is a proper host address of the
  network, not the server's, not actively held by another client, and it is the client's own
  reservation if the client has one and nobody's reservation otherwise. Confirmation gives
  the client that address until \<open>now + d\<close> and leaves all other bindings as they were, a
  refused request leaves the table unchanged.
\<close>

lemma validate_and_confirm_spec:
  assumes "iterates ks (by_mac t)"
  shows "case validate_and_confirm L now ks client req server_ip net d h t of
      (Some c, t') \<Rightarrow> request_target client req t = Some (lc_ip c)
         \<and> grantable L now client server_ip net t (lc_ip c)
         \<and> by_mac t' = (by_mac t)(client \<mapsto> \<lparr> cl_ip = lc_ip c, cl_expiry = now + d, cl_hostname = lc_hostname c \<rparr>)
         \<and> static_leases t' = static_leases t \<and> conflicts t' = conflicts t
    | (None, t') \<Rightarrow> t' = t
         \<and> (\<forall>i. request_target client req t = Some i \<longrightarrow> \<not> grantable L now client server_ip net t i)"
  unfolding validate_and_confirm_eq[OF assms] by (simp split: option.splits)

lemma validate_and_confirm_spec_example:
  "\<exists>c t'. validate_and_confirm cidr_lib 0 [mac_a] mac_b (Some 3232235779) 3232235777 lan29 5 None witness_table
       = (Some c, t') \<and> lc_ip c = 3232235779
     \<and> by_mac t' mac_b = Some \<lparr> cl_ip = 3232235779, cl_expiry = 5, cl_hostname = None \<rparr>
     \<and> by_mac t' mac_a = by_mac witness_table mac_a"
proof -
  have "fst (validate_and_confirm cidr_lib 0 [mac_a] mac_b (Some 3232235779) 3232235777 lan29 5 None witness_table)
      = Some \<lparr> lc_ip = 3232235779, lc_hostname = None, lc_old_hostname = None \<rparr>"
    by (simp add: validate_and_confirm_def target_rejected_def is_ip_taken_by_other_def any_entry_def
        old_hostname_to_deregister_def)
  then show ?thesis
    using validate_and_confirm_spec[OF witness_table_iterates, where L = cidr_lib and now = 0
        and client = mac_b and req = "Some 3232235779" and server_ip = 3232235777 and net = lan29
        and d = 5 and h = None]
    by (auto simp: case_prod_beta prod_eq_iff)
qed

text \<open>
  A confirmed request never gives a client a host name that another client is actively
  using, and it asks for the old name of the client to be deregistered exactly when the
  client had a name that it does not keep.
\<close>

lemma validate_and_confirm_names:
  assumes "iterates ks (by_mac t)"
    and "validate_and_confirm L now ks client req server_ip net d h t = (Some c, t')"
  shows "(\<forall>n. lc_hostname c = Some n \<longrightarrow> \<not> name_taken now t n client)
    \<and> (\<forall>n. lc_old_hostname c = Some n \<longleftrightarrow>
         (\<exists>l. by_mac t client = Some l \<and> cl_hostname l = Some n) \<and> lc_hostname c \<noteq> Some n)"
proof -
  have c: "lc_hostname c = granted_hostname now client h t"
    "lc_old_hostname c = old_hostname_to_deregister (Option.bind (by_mac t client) cl_hostname)
       (granted_hostname now client h t)"
    using assms(2) unfolding validate_and_confirm_eq[OF assms(1)] by (auto split: option.splits if_splits)
  have "\<forall>n. lc_hostname c = Some n \<longrightarrow> \<not> name_taken now t n client"
    unfolding c by (auto simp: granted_hostname_def split: option.splits if_splits)
  moreover have "lc_old_hostname c = Some n \<longleftrightarrow>
      (\<exists>l. by_mac t client = Some l \<and> cl_hostname l = Some n) \<and> lc_hostname c \<noteq> Some n" for n
    unfolding c by (auto simp: old_hostname_to_deregister_def bind_eq_Some_conv split: option.splits if_splits)
  ultimately show ?thesis by blast
qed

lemma validate_and_confirm_names_example:
  "\<exists>c t'. validate_and_confirm cidr_lib 0 [mac_a] mac_b (Some 3232235779) 3232235777 lan29 5 (Some ''nas'')
       witness_table = (Some c, t') \<and> lc_hostname c \<noteq> Some ''nas''"
proof -
  obtain c t' where eq: "validate_and_confirm cidr_lib 0 [mac_a] mac_b (Some 3232235779) 3232235777 lan29 5
      (Some ''nas'') witness_table = (Some c, t')"
    by (simp add: validate_and_confirm_def target_rejected_def is_ip_taken_by_other_def any_entry_def Let_def)
  have "name_taken 0 witness_table ''nas'' mac_b" by (simp add: name_taken_def)
  with validate_and_confirm_names[OF witness_table_iterates eq] eq show ?thesis by blast
qed

section \<open>Eviction as a specification\<close>

text \<open>
  Eviction removes exactly the entries and conflict holds whose time has come and
  reports the names of the removed entries. Afterwards the address index lists exactly the
  addresses of the remaining entries, and the active bindings are what they were.
\<close>

lemma evict_expired_spec:
  assumes "iterates ks (by_mac t)"
  shows "case evict_expired now ks t of (names, t') \<Rightarrow>
      (\<forall>m l. by_mac t' m = Some l \<longleftrightarrow> by_mac t m = Some l \<and> now < cl_expiry l)
    \<and> (\<forall>i e. conflicts t' i = Some e \<longleftrightarrow> conflicts t i = Some e \<and> now < e)
    \<and> set names = {h. \<exists>m l. by_mac t m = Some l \<and> cl_expiry l \<le> now \<and> cl_hostname l = Some h}
    \<and> index_exact t' \<and> bindings now t' = bindings now t"
proof -
  have "index_exact (snd (evict_expired now ks t))"
    unfolding index_exact_def allocated_evict[OF assms]
    by (auto simp: ran_def bindings_Some_iff)
  then show ?thesis using set_expired_names[OF assms, of now] by (simp add: case_prod_beta)
qed

lemma evict_expired_spec_example:
  "case evict_expired 100 [mac_a] witness_table of (names, t') \<Rightarrow>
     set names = {''nas''} \<and> index_exact t' \<and> by_mac t' mac_a = None"
  using evict_expired_spec[OF witness_table_iterates, of 100]
  by (auto simp: case_prod_beta split: if_splits)

end
