(* ===== verification/Lease_Actor.thy ===== *)
theory Lease_Actor
  imports Lease_Table
begin

text \<open>
  The actor of \<open>services/dhcp_server/lease_table.rs\<close>: the commands other tasks send it, the
  handler of each, and the loop that serves the command channel and the cleanup timer. All
  access to the table goes through this actor, so a run of the server is, for the table, a
  sequence of these events; \<open>lease_reach\<close> is the set of tables such sequences lead to.
\<close>

section \<open>Commands and loop\<close>

datatype 'n lease_command =
    GetExistingIp mac
  | AllocateCandidate mac 'n ip
  | ConfirmLease mac ip duration "string option"
  | ValidateAndConfirmRequest mac "ip option" ip 'n duration "string option"
  | CheckConflict ip mac
  | RecordConflict ip duration
  | Release mac
  | EvictExpired
  | AddNeighbor mac ip
  | SetStaticLeases "static_lease list"
  | GetActiveLeases

datatype lease_reply =
    NoReply
  | UnitReply
  | IpReply "ip option"
  | ConfirmReply "lease_confirmation option"
  | BoolReply bool
  | ReleaseReply "(ip \<times> string option) option"
  | NamesReply "string list"
  | LeasesReply "dhcp_lease_info list"

text \<open>What the runtime supplies when a command is served: the clock and the two hash orders.\<close>

record lease_env =
  env_now :: instant
  env_macs :: "mac list"
  env_statics :: "mac list"

fun handle_lease_command ::
  "'n net_lib \<Rightarrow> lease_env \<Rightarrow> 'n lease_command \<Rightarrow> lease_table \<Rightarrow> lease_reply \<times> lease_table" where
  "handle_lease_command L e (SetStaticLeases ls) t = (UnitReply, set_static_leases ls t)"
| "handle_lease_command L e (GetExistingIp client) t =
     (IpReply (case static_leases t client of
                 Some s \<Rightarrow> Some (sl_ip s)
               | None \<Rightarrow> map_option cl_ip (by_mac t client)), t)"
| "handle_lease_command L e (AllocateCandidate client net server_ip) t =
     (case allocate_candidate L (env_now e) (env_macs e) client net server_ip t of
        (r, t') \<Rightarrow> (IpReply r, t'))"
| "handle_lease_command L e (ConfirmLease client i duration hostname) t =
     (NoReply, table_insert client \<lparr> cl_ip = i, cl_expiry = env_now e + duration,
                                     cl_hostname = hostname \<rparr> t)"
| "handle_lease_command L e (ValidateAndConfirmRequest client req server_ip net duration h) t =
     (case validate_and_confirm L (env_now e) (env_macs e) client req server_ip net duration h t of
        (r, t') \<Rightarrow> (ConfirmReply r, t'))"
| "handle_lease_command L e (CheckConflict target client) t =
     (BoolReply (case get_mac_by_ip (env_now e) (env_macs e) t target of
                   Some m \<Rightarrow> m \<noteq> client | None \<Rightarrow> False), t)"
| "handle_lease_command L e (RecordConflict i duration) t =
     (NoReply, record_conflict (env_now e) i duration t)"
| "handle_lease_command L e (Release client) t =
     (case table_remove client t of
        (r, t') \<Rightarrow> (ReleaseReply (map_option (\<lambda>l. (cl_ip l, cl_hostname l)) r), t'))"
| "handle_lease_command L e EvictExpired t =
     (case evict_expired (env_now e) (env_macs e) t of (hs, t') \<Rightarrow> (NamesReply hs, t'))"
| "handle_lease_command L e (AddNeighbor m i) t =
     (NoReply, update_from_neighbor L (env_now e) m i t)"
| "handle_lease_command L e GetActiveLeases t =
     (LeasesReply (get_active_leases (env_now e) (env_macs e) (env_statics e) t), t)"

text \<open>The actor loop serves the cleanup timer and the command channel.\<close>

datatype 'n actor_event = CleanupTick | Recv "'n lease_command"

fun lease_actor_event ::
  "'n net_lib \<Rightarrow> lease_env \<Rightarrow> 'n actor_event \<Rightarrow> lease_table \<Rightarrow> lease_reply \<times> lease_table" where
  "lease_actor_event L e CleanupTick t = (NoReply, snd (evict_expired (env_now e) (env_macs e) t))"
| "lease_actor_event L e (Recv cmd) t = handle_lease_command L e cmd t"

fun run_lease_actor_loop ::
  "'n net_lib \<Rightarrow> (lease_env \<times> 'n actor_event) list \<Rightarrow> lease_table \<Rightarrow> lease_reply list \<times> lease_table" where
  "run_lease_actor_loop L [] t = ([], t)"
| "run_lease_actor_loop L ((e, ev) # evs) t =
     (let (r, t') = lease_actor_event L e ev t;
          (rs, t'') = run_lease_actor_loop L evs t'
      in (r # rs, t''))"

section \<open>Reachable tables\<close>

text \<open>
  The clock never goes back, and the hash orders the runtime supplies enumerate the maps as
  they are when the event is served. \<open>ok\<close> restricts the events considered.
\<close>

definition env_for :: "instant \<Rightarrow> lease_table \<Rightarrow> lease_env \<Rightarrow> bool" where
  "env_for now t e \<longleftrightarrow> now \<le> env_now e \<and> iterates (env_macs e) (by_mac t)
     \<and> iterates (env_statics e) (static_leases t)"

inductive lease_reach ::
  "'n net_lib \<Rightarrow> (lease_env \<Rightarrow> 'n actor_event \<Rightarrow> lease_table \<Rightarrow> bool) \<Rightarrow> instant \<Rightarrow> lease_table \<Rightarrow> bool"
  for L :: "'n net_lib" and ok where
  reach_init: "lease_reach L ok now table_new"
| reach_event: "lease_reach L ok now t \<Longrightarrow> env_for now t e \<Longrightarrow> ok e ev t \<Longrightarrow>
     lease_reach L ok (env_now e) (snd (lease_actor_event L e ev t))"

inductive_cases lease_reachE: "lease_reach L ok now t"

lemma lease_reach_mono:
  assumes "lease_reach L ok now t" "\<And>e ev t. ok e ev t \<Longrightarrow> ok' e ev t"
  shows "lease_reach L ok' now t"
  using assms(1) by (induction) (auto intro: lease_reach.intros assms(2))

text \<open>A property that every event keeps holds in every reachable table.\<close>

lemma lease_reach_invariant:
  assumes "lease_reach L ok now t"
    and "\<And>now. P now table_new"
    and "\<And>now t e ev. P now t \<Longrightarrow> env_for now t e \<Longrightarrow> ok e ev t \<Longrightarrow>
           P (env_now e) (snd (lease_actor_event L e ev t))"
  shows "P now t"
  using assms(1) by (induction) (auto intro: assms(2,3))

subsection \<open>The table invariant\<close>

lemma table_ok_allocate:
  "table_ok t \<Longrightarrow> table_ok (snd (allocate_candidate L now ks client net server_ip t))"
  by (auto simp: allocate_candidate_def next_available_ip_def Let_def table_ok_insert table_ok_evict
      split: option.splits)

lemma table_ok_validate:
  "table_ok t \<Longrightarrow> table_ok (snd (validate_and_confirm L now ks client req server_ip net d h t))"
  by (auto simp: validate_and_confirm_def Let_def table_ok_insert split: option.splits)

lemma table_ok_neighbor: "table_ok t \<Longrightarrow> table_ok (update_from_neighbor L now m i t)"
  by (simp add: update_from_neighbor_def table_ok_insert)

lemma table_ok_conflict: "table_ok t \<Longrightarrow> table_ok (record_conflict now i d t)"
  by (simp add: table_ok_def record_conflict_def)

lemmas table_ok_preserved = table_ok_insert table_ok_remove table_ok_evict table_ok_allocate
  table_ok_validate table_ok_neighbor table_ok_conflict set_static_leases_facts(1)

lemma table_ok_command:
  "table_ok t \<Longrightarrow> table_ok (snd (handle_lease_command L e cmd t))"
  by (cases cmd) (simp_all add: case_prod_beta table_ok_preserved)

lemma table_ok_event: "table_ok t \<Longrightarrow> table_ok (snd (lease_actor_event L e ev t))"
  by (cases ev) (simp_all add: table_ok_evict table_ok_command)

lemma run_lease_actor_loop_invariant:
  assumes "P t" and "\<And>e ev t. P t \<Longrightarrow> P (snd (lease_actor_event L e ev t))"
  shows "P (snd (run_lease_actor_loop L evs t))"
  using assms(1)
proof (induction evs arbitrary: t)
  case (Cons a evs)
  obtain e ev where "a = (e, ev)" by (cases a)
  then show ?case using Cons assms(2)[OF Cons.prems, of e ev]
    by (simp add: Let_def case_prod_beta)
qed simp

text \<open>
  Whatever commands and timer ticks the lease actor serves, and in whatever order, the
  address index never lists an address that no entry has, every reserved address is in the
  reserved-address index, and every reservation is filed under its own MAC address.
\<close>

lemma actor_keeps_table_ok: "table_ok (snd (run_lease_actor_loop L evs table_new))"
  by (rule run_lease_actor_loop_invariant[where P = table_ok]) (simp_all add: table_ok_event)

subsection \<open>Exclusive bindings\<close>

text \<open>
  \<open>AllocateCandidate\<close> and \<open>ValidateAndConfirmRequest\<close> check that no other client actively holds
  the address. \<open>ConfirmLease\<close> and \<open>AddNeighbor\<close> insert without that check;
  \<open>exclusive_event\<close> says that, for these two, nobody else holds it when they are served.
\<close>

fun exclusive_event :: "lease_env \<Rightarrow> 'n actor_event \<Rightarrow> lease_table \<Rightarrow> bool" where
  "exclusive_event e (Recv (ConfirmLease client i d h)) t \<longleftrightarrow> \<not> held_by_other (env_now e) t i client"
| "exclusive_event e (Recv (AddNeighbor m i)) t \<longleftrightarrow> \<not> held_by_other (env_now e) t i m"
| "exclusive_event e ev t \<longleftrightarrow> True"

lemma unique_holders_new [simp]: "unique_holders now table_new"
  by (simp add: unique_holders_def bindings_def table_new_def)

lemma unique_holders_allocate:
  assumes "net_laws L" "iterates ks (by_mac t)" "unique_holders now t"
  shows "unique_holders now (snd (allocate_candidate L now ks client net server_ip t))"
proof -
  obtain r t' where eq: "allocate_candidate L now ks client net server_ip t = (r, t')"
    by (metis surj_pair)
  note props = allocate_candidate_props[OF assms(1,2) eq]
  show ?thesis
  proof (cases r)
    case None
    with props(2) assms(3) show ?thesis by (simp add: eq unique_holders_def)
  next
    case (Some i)
    with props(1,2) assms(3) show ?thesis
      by (auto simp: eq unique_holders_def held_by_other_def)
  qed
qed

lemma unique_holders_validate:
  assumes "iterates ks (by_mac t)" "unique_holders now t"
  shows "unique_holders now (snd (validate_and_confirm L now ks client req server_ip net d h t))"
  unfolding validate_and_confirm_eq[OF assms(1)]
  using assms(2) by (auto simp: grantable_def intro!: unique_holders_insert split: option.splits)

lemma unique_holders_event:
  assumes "net_laws L" "iterates (env_macs e) (by_mac t)"
    and "unique_holders (env_now e) t" "exclusive_event e ev t"
  shows "unique_holders (env_now e) (snd (lease_actor_event L e ev t))"
proof (cases ev)
  case CleanupTick
  with assms(3) show ?thesis by (simp add: unique_holders_def)
next
  case (Recv cmd)
  have sub: "unique_holders (env_now e) t'" if "\<And>m l. by_mac t' m = Some l \<Longrightarrow> by_mac t m = Some l" for t'
    by (rule unique_holders_submap[OF assms(3)]) (use that in \<open>auto simp: bindings_Some_iff\<close>)
  show ?thesis
  proof (cases cmd)
    case (SetStaticLeases ls)
    have "unique_holders (env_now e) (set_static_leases ls t)"
      by (rule sub) (rule set_static_leases_facts(3))
    then show ?thesis using Recv SetStaticLeases by simp
  next
    case (Release m)
    have "unique_holders (env_now e) (snd (table_remove m t))"
      by (rule sub) (simp split: if_splits)
    then show ?thesis using Recv Release by (simp add: case_prod_beta)
  next
    case (AddNeighbor m i)
    then show ?thesis using Recv assms(3,4)
      by (auto simp: update_from_neighbor_def intro!: unique_holders_insert)
  next
    case EvictExpired
    then show ?thesis using Recv assms(3) by (simp add: case_prod_beta unique_holders_def)
  next
    case (RecordConflict i d)
    then show ?thesis using Recv assms(3)
      by (simp add: record_conflict_def unique_holders_def bindings_def)
  qed (use Recv assms in \<open>auto simp: case_prod_beta intro!: unique_holders_allocate
        unique_holders_validate unique_holders_insert\<close>)
qed

text \<open>
  C3. No address is ever actively leased to two clients: this holds in every table the actor
  reaches from the empty one, as long as a \<open>ConfirmLease\<close> or \<open>AddNeighbor\<close> is never served for
  an address that another client actively holds at that moment. Allocation, validation,
  release, eviction, conflict holds and changes of the reservations need no such condition.
\<close>

theorem reachable_unique_holders:
  assumes "net_laws L" and "lease_reach L exclusive_event now t"
  shows "unique_holders now t"
proof (rule lease_reach_invariant[OF assms(2), where P = unique_holders])
  show "unique_holders (env_now e) (snd (lease_actor_event L e ev t))"
    if "unique_holders now t" "env_for now t e" "exclusive_event e ev t" for now t e ev
    using that unique_holders_later by (intro unique_holders_event[OF assms(1)]) (auto simp: env_for_def)
qed simp

theorem reachable_unique_holders_witness:
  "\<exists>t. lease_reach cidr_lib exclusive_event 1 t \<and> bindings 1 t mac_a = Some 3232235778
     \<and> bindings 1 t mac_b = Some 3232235779 \<and> unique_holders 1 t"
proof -
  let ?e = "\<lambda>now ks. \<lparr> env_now = now, env_macs = ks, env_statics = [] \<rparr>"
  let ?l = "\<lambda>i e. \<lparr> cl_ip = i, cl_expiry = e, cl_hostname = None \<rparr> :: client_lease"
  let ?t1 = "table_insert mac_a (?l 3232235778 100) table_new"
  let ?t2 = "table_insert mac_b (?l 3232235779 101) ?t1"
  have "lease_reach cidr_lib exclusive_event 0 ?t1"
    using reach_event[OF reach_init[of cidr_lib exclusive_event 0], of "?e 0 []"
        "Recv (ConfirmLease mac_a 3232235778 100 None)"]
    by (simp add: env_for_def iterates_def table_new_def held_by_other_def bindings_def)
  then have "lease_reach cidr_lib exclusive_event 1 ?t2"
    using reach_event[where L = cidr_lib and ok = exclusive_event and now = 0 and t = ?t1
        and e = "?e 1 [mac_a]" and ev = "Recv (ConfirmLease mac_b 3232235779 100 None)"]
    by (simp add: env_for_def iterates_def table_new_def held_by_other_def bindings_def)
  moreover have "bindings 1 ?t2 mac_a = Some 3232235778" "bindings 1 ?t2 mac_b = Some 3232235779"
    by (simp_all add: bindings_insert)
  ultimately show ?thesis
    using reachable_unique_holders[OF cidr.net_laws_axioms] by blast
qed

subsection \<open>Reservations\<close>

text \<open>\<open>ConfirmLease\<close> is the one command that does not look at the client's reservation.\<close>

fun reservation_event :: "lease_env \<Rightarrow> 'n actor_event \<Rightarrow> lease_table \<Rightarrow> bool" where
  "reservation_event e (Recv (ConfirmLease client i d h)) t \<longleftrightarrow>
     (case static_leases t client of Some s \<Rightarrow> i = sl_ip s | None \<Rightarrow> True)"
| "reservation_event e ev t \<longleftrightarrow> True"

lemma reservations_kept_new [simp]: "reservations_kept table_new"
  by (simp add: reservations_kept_def table_new_def)

lemma reservations_kept_insert:
  assumes "reservations_kept t" "\<And>s. static_leases t m = Some s \<Longrightarrow> cl_ip l = sl_ip s"
  shows "reservations_kept (table_insert m l t)"
  using assms by (auto simp: reservations_kept_def)

lemma reservations_kept_evict:
  "reservations_kept t \<Longrightarrow> reservations_kept (snd (evict_expired now ks t))"
  by (auto simp: reservations_kept_def)

lemma reservations_kept_remove: "reservations_kept t \<Longrightarrow> reservations_kept (snd (table_remove m t))"
  by (auto simp: reservations_kept_def)

lemma reservations_kept_allocate:
  assumes "reservations_kept t"
  shows "reservations_kept (snd (allocate_candidate L now ks client net server_ip t))"
proof (cases "static_leases t client")
  case None
  then show ?thesis using assms
    by (auto simp: allocate_candidate_dynamic_eq intro!: reservations_kept_insert reservations_kept_evict
        split: option.splits)
next
  case (Some s)
  then show ?thesis using assms by (auto simp: allocate_candidate_def intro!: reservations_kept_insert)
qed

lemma reservations_kept_validate:
  "reservations_kept t \<Longrightarrow>
     reservations_kept (snd (validate_and_confirm L now ks client req server_ip net d h t))"
  by (auto simp: validate_and_confirm_def target_rejected_def Let_def intro!: reservations_kept_insert
      split: option.splits)

lemma reservations_kept_neighbor:
  "reservations_kept t \<Longrightarrow> reservations_kept (update_from_neighbor L now m i t)"
  by (auto simp: update_from_neighbor_def intro!: reservations_kept_insert)

lemma reservations_kept_event:
  assumes "reservations_kept t" "reservation_event e ev t"
  shows "reservations_kept (snd (lease_actor_event L e ev t))"
proof (cases ev)
  case (Recv cmd)
  then show ?thesis using assms
    by (cases cmd) (auto simp: case_prod_beta set_static_leases_facts(4) reservations_kept_allocate
        reservations_kept_validate reservations_kept_neighbor reservations_kept_evict
        reservations_kept_remove record_conflict_def reservations_kept_def[of "_\<lparr>conflicts := _\<rparr>"]
        reservations_kept_def[of t] intro!: reservations_kept_insert)
qed (use assms in \<open>simp add: reservations_kept_evict\<close>)

text \<open>
  A client with a reservation is only ever entered with its reserved address: this holds
  in every table the actor reaches, across any change of the reservations at run time, as
  long as a \<open>ConfirmLease\<close> is never served with an address other than the client's reservation.
\<close>

lemma reachable_reservations_kept:
  assumes "lease_reach L reservation_event now t"
    and "static_leases t m = Some s" "by_mac t m = Some l"
  shows "cl_ip l = sl_ip s"
proof -
  have "reservations_kept t"
    by (rule lease_reach_invariant[OF assms(1), where P = "\<lambda>_. reservations_kept"])
      (simp_all add: reservations_kept_event)
  with assms(2,3) show ?thesis by (simp add: reservations_kept_def)
qed

lemma reachable_reservations_kept_example:
  "\<exists>t s l. lease_reach cidr_lib reservation_event 1 t \<and> static_leases t mac_a = Some s
     \<and> by_mac t mac_a = Some l \<and> cl_ip l = sl_ip s"
proof -
  let ?s = "\<lparr> sl_mac = mac_a, sl_ip = 3232235780, sl_hostname = None \<rparr>"
  let ?t1 = "set_static_leases [?s] table_new"
  let ?t2 = "update_from_neighbor cidr_lib 1 mac_a 3232235780 ?t1"
  have sel: "by_mac ?t1 = Map.empty" "static_leases ?t1 = [mac_a \<mapsto> ?s]"
    by (simp_all add: set_static_leases_def set_static_step_def table_new_def)
  have "lease_reach cidr_lib reservation_event 0 ?t1"
    using reach_event[OF reach_init[of cidr_lib reservation_event 0],
        of "\<lparr> env_now = 0, env_macs = [], env_statics = [] \<rparr>" "Recv (SetStaticLeases [?s])"]
    by (simp add: env_for_def iterates_def table_new_def)
  then have "lease_reach cidr_lib reservation_event 1 ?t2"
    using reach_event[where L = cidr_lib and ok = reservation_event and now = 0 and t = ?t1
        and e = "\<lparr> env_now = 1, env_macs = [], env_statics = [mac_a] \<rparr>"
        and ev = "Recv (AddNeighbor mac_a 3232235780)"]
    by (simp add: env_for_def iterates_def sel)
  moreover have "static_leases ?t2 mac_a = Some ?s" "by_mac ?t2 mac_a \<noteq> None"
    by (simp_all add: update_from_neighbor_def sel)
  ultimately show ?thesis using reachable_reservations_kept by blast
qed

subsection \<open>Conflict checks\<close>

lemma check_conflict_answer:
  assumes "iterates (env_macs e) (by_mac t)"
  shows "fst (handle_lease_command L e (CheckConflict i client) t) = BoolReply True \<Longrightarrow>
      held_by_other (env_now e) t i client"
    and "\<not> held_by_other (env_now e) t i client \<Longrightarrow>
      handle_lease_command L e (CheckConflict i client) t = (BoolReply False, t)"
    and "bindings (env_now e) t client \<noteq> Some i \<Longrightarrow>
      fst (handle_lease_command L e (CheckConflict i client) t) = BoolReply (held_by_other (env_now e) t i client)"
proof -
  have none: "\<not> held_by_other (env_now e) t i client" if "get_mac_by_ip (env_now e) (env_macs e) t i = None"
    using find_entry_None[OF assms] that
    by (auto simp: get_mac_by_ip_def held_by_other_def bindings_Some_iff)
  have some: "bindings (env_now e) t m = Some i" if "get_mac_by_ip (env_now e) (env_macs e) t i = Some m" for m
    using that by (auto simp: get_mac_by_ip_def bindings_Some_iff dest!: find_entry_Some)
  show "held_by_other (env_now e) t i client"
    if "fst (handle_lease_command L e (CheckConflict i client) t) = BoolReply True"
    using that some by (cases "get_mac_by_ip (env_now e) (env_macs e) t i") (auto simp: held_by_other_def)
  then show "handle_lease_command L e (CheckConflict i client) t = (BoolReply False, t)"
    if "\<not> held_by_other (env_now e) t i client"
    using that by (cases "get_mac_by_ip (env_now e) (env_macs e) t i") auto
  show "fst (handle_lease_command L e (CheckConflict i client) t) = BoolReply (held_by_other (env_now e) t i client)"
    if "bindings (env_now e) t client \<noteq> Some i"
    using that some none
    by (cases "get_mac_by_ip (env_now e) (env_macs e) t i") (auto simp: held_by_other_def)
qed

text \<open>
  The conflict check never reports a conflict that is not there, and while the asking
  client does not itself hold the address, its answer is exactly whether another client
  actively holds it.
\<close>

lemma check_conflict_correct:
  assumes "iterates (env_macs e) (by_mac t)"
  shows "(fst (handle_lease_command L e (CheckConflict i client) t) = BoolReply True \<longrightarrow>
            held_by_other (env_now e) t i client)
    \<and> (bindings (env_now e) t client \<noteq> Some i \<longrightarrow>
         fst (handle_lease_command L e (CheckConflict i client) t)
           = BoolReply (held_by_other (env_now e) t i client))"
  using check_conflict_answer(1,3)[OF assms] by blast

lemma check_conflict_correct_example:
  "iterates [mac_a] (by_mac witness_table) \<and>
   fst (handle_lease_command cidr_lib \<lparr> env_now = 0, env_macs = [mac_a], env_statics = [] \<rparr>
     (CheckConflict 3232235778 mac_b) witness_table) = BoolReply True
   \<and> held_by_other 0 witness_table 3232235778 mac_b"
  using check_conflict_correct[of "\<lparr> env_now = 0, env_macs = [mac_a], env_statics = [] \<rparr>" witness_table
      cidr_lib 3232235778 mac_b]
  by (simp add: witness_table_iterates get_mac_by_ip_def find_entry_def iterates_def)

text \<open>
  The condition of the previous property is not idle: after a client was given a
  candidate address and another device was then seen using that address, the client holds
  the address too, and the check answers with whichever of the two entries the hash map
  yields first. With the order \<open>a, b\<close> the conflict is missed, with the order \<open>b, a\<close> it is found.
\<close>

lemma check_conflict_depends_on_hash_order:
  "let t = snd (run_lease_actor_loop cidr_lib
         [(\<lparr> env_now = 0, env_macs = [], env_statics = [] \<rparr>, Recv (AllocateCandidate mac_a lan29 3232235777)),
          (\<lparr> env_now = 1, env_macs = [mac_a], env_statics = [] \<rparr>, Recv (AddNeighbor mac_b 3232235778))]
         table_new);
       check = \<lambda>ks. fst (handle_lease_command cidr_lib
         \<lparr> env_now = 2, env_macs = ks, env_statics = [] \<rparr> (CheckConflict 3232235778 mac_a) t)
   in iterates [mac_a, mac_b] (by_mac t) \<and> iterates [mac_b, mac_a] (by_mac t)
      \<and> held_by_other 2 t 3232235778 mac_a
      \<and> check [mac_a, mac_b] = BoolReply False \<and> check [mac_b, mac_a] = BoolReply True"
proof -
  let ?l = "\<lambda>e. \<lparr> cl_ip = 3232235778, cl_expiry = e, cl_hostname = None \<rparr> :: client_lease"
  define t where "t = snd (run_lease_actor_loop cidr_lib
         [(\<lparr> env_now = 0, env_macs = [], env_statics = [] \<rparr>, Recv (AllocateCandidate mac_a lan29 3232235777)),
          (\<lparr> env_now = 1, env_macs = [mac_a], env_statics = [] \<rparr>, Recv (AddNeighbor mac_b 3232235778))]
         table_new)"
  have t: "by_mac t = [mac_a \<mapsto> ?l CANDIDATE_HOLD_DURATION, mac_b \<mapsto> ?l (Suc NEIGHBOR_HOLD_DURATION)]"
    by (simp add: t_def allocate_candidate_def next_available_ip_def is_ip_available_for_dynamic_def
        is_ip_available_def is_conflict_active_def evict_expired_def values_along_def map_filter_def
        retain_def table_new_def table_insert_def update_from_neighbor_def Let_def)
  have "held_by_other 2 t 3232235778 mac_a"
    unfolding held_by_other_def
    by (rule exI[of _ mac_b]) (simp add: t bindings_def NEIGHBOR_HOLD_DURATION_def from_secs_def)
  then show ?thesis
    unfolding Let_def t_def[symmetric]
    by (simp add: t get_mac_by_ip_def find_entry_def iterates_def insert_commute
        CANDIDATE_HOLD_DURATION_def NEIGHBOR_HOLD_DURATION_def from_secs_def)
qed

text \<open>
  The address index can miss an address that is in use: two devices seen with one
  address share its index entry, and releasing one of them removes it although the other
  still actively holds the address.
\<close>

lemma index_can_miss_held_address:
  "let e = \<lambda>ks. \<lparr> env_now = 0, env_macs = ks, env_statics = [] \<rparr>;
       t = snd (run_lease_actor_loop cidr_lib
         [(e [], Recv (AddNeighbor mac_a 3232235778)), (e [mac_a], Recv (AddNeighbor mac_b 3232235778)),
          (e [mac_a, mac_b], Recv (Release mac_a))] table_new)
   in bindings 0 t mac_b = Some 3232235778 \<and> is_ip_available 0 t 3232235778 \<and> \<not> index_exact t"
  by (simp add: Let_def update_from_neighbor_def table_insert_def table_remove_def table_new_def
      bindings_def is_ip_available_def is_conflict_active_def index_exact_def NEIGHBOR_HOLD_DURATION_def)

end
