(* ===== verification/Utils.thy ===== *)
theory Utils
  imports Ipc
begin

text \<open>
  The pure helpers of \<open>services/utils.rs\<close> and the error type of \<open>error.rs\<close>: resolver
  filters, host-name sanitizing, the WAN lease record, subnet masks, hardware addresses and
  the restart back-off. Error texts are not modelled.
\<close>

datatype router_error =
    Netlink
  | Io
  | AddrParse
  | InterfaceNotFound string
  | ParseInt
  | Generic

definition LOCAL_DOMAIN :: string where "LOCAL_DOMAIN = ''lan''"
definition MDNS_DOMAIN :: string where "MDNS_DOMAIN = ''local''"
definition ROUTER_HOSTNAME :: string where "ROUTER_HOSTNAME = ''router''"

record wan_lease =
  wl_ip :: "ip option"
  wl_mask :: "ip option"
  wl_gateway :: "ip option"
  wl_dns_servers :: "ip list"

definition default_wan_lease :: wan_lease where
  "default_wan_lease = \<lparr> wl_ip = None, wl_mask = None, wl_gateway = None, wl_dns_servers = [] \<rparr>"

section \<open>Address filters\<close>

definition is_link_local :: "ip \<Rightarrow> bool" where
  "is_link_local a \<longleftrightarrow> octet 0 a = 169 \<and> octet 1 a = 254"

definition is_documentation :: "ip \<Rightarrow> bool" where
  "is_documentation a \<longleftrightarrow> (octet 0 a, octet 1 a, octet 2 a) \<in> {(192, 0, 2), (198, 51, 100), (203, 0, 113)}"

definition is_valid_upstream_resolver :: "ip \<Rightarrow> bool" where
  "is_valid_upstream_resolver a \<longleftrightarrow> \<not> is_unspecified a \<and> \<not> is_broadcast a \<and> \<not> is_loopback a
     \<and> \<not> is_multicast a \<and> \<not> is_link_local a \<and> \<not> is_documentation a"

definition is_valid_ntp_server_ip :: "ip \<Rightarrow> bool" where
  "is_valid_ntp_server_ip a \<longleftrightarrow> \<not> is_unspecified a \<and> \<not> is_broadcast a \<and> \<not> is_loopback a
     \<and> \<not> is_multicast a \<and> \<not> is_link_local a \<and> \<not> is_documentation a"

section \<open>Host names\<close>

definition host_char :: "char \<Rightarrow> bool" where
  "host_char c \<longleftrightarrow> is_ascii_alphanumeric c \<or> c = CHR ''-''"

definition sanitize_hostname :: "string \<Rightarrow> string option" where
  "sanitize_hostname raw =
     (let label = trim (hd (split_char CHR ''.'' raw)) in
      if label = [] \<or> 63 < length label then None
      else if hd label = CHR ''-'' \<or> last label = CHR ''-'' then None
      else if \<not> list_all host_char label then None
      else Some (to_ascii_lowercase label))"

text \<open>What a host label is allowed to look like after sanitizing.\<close>

definition clean_char :: "char \<Rightarrow> bool" where
  "clean_char c \<longleftrightarrow> is_ascii_digit c \<or> is_ascii_lowercase c \<or> c = CHR ''-''"

definition clean_label :: "string \<Rightarrow> bool" where
  "clean_label s \<longleftrightarrow> s \<noteq> [] \<and> length s \<le> 63 \<and> list_all clean_char s
     \<and> hd s \<noteq> CHR ''-'' \<and> last s \<noteq> CHR ''-''"

lemma ascii_code_char_of: "n < 256 \<Longrightarrow> ascii_code (char_of n) = n"
  by (simp add: ascii_code_def)

lemma ascii_code_lt [simp]: "ascii_code c < 256"
  unfolding ascii_code_def by (rule nat_of_char_less_256)

lemma ascii_code_dash [simp]: "ascii_code CHR ''-'' = 45"
  by (simp add: ascii_code_def)

lemma char_lower_code:
  "ascii_code (char_lower c) = (if is_ascii_uppercase c then ascii_code c + 32 else ascii_code c)"
  by (auto simp: char_lower_def is_ascii_uppercase_def ascii_code_char_of)

lemma ascii_code_inject: "ascii_code c = ascii_code d \<longleftrightarrow> c = d"
  by (simp add: ascii_code_def)

lemma clean_char_lower: "host_char c \<Longrightarrow> clean_char (char_lower c)"
  by (auto simp: host_char_def clean_char_def is_ascii_alphanumeric_def is_ascii_digit_def
      is_ascii_lowercase_def char_lower_def is_ascii_uppercase_def
      ascii_code_char_of)

lemma char_lower_dash: "char_lower c = CHR ''-'' \<longleftrightarrow> c = CHR ''-''"
  by (simp add: ascii_code_inject[symmetric] char_lower_code) (auto simp: is_ascii_uppercase_def)

lemma clean_char_facts:
  assumes "clean_char c"
  shows "char_lower c = c" "host_char c" "\<not> is_whitespace c" "c \<noteq> CHR ''.''"
  using assms
  by (auto simp: clean_char_def char_lower_def is_ascii_uppercase_def is_ascii_digit_def is_whitespace_def
      is_ascii_lowercase_def host_char_def is_ascii_alphanumeric_def ascii_code_def)

lemma sanitize_hostname_clean: "sanitize_hostname raw = Some h \<Longrightarrow> clean_label h"
proof -
  assume "sanitize_hostname raw = Some h"
  then obtain l where l: "l \<noteq> []" "length l \<le> 63" "hd l \<noteq> CHR ''-''" "last l \<noteq> CHR ''-''"
    "list_all host_char l" "h = to_ascii_lowercase l"
    by (auto simp: sanitize_hostname_def Let_def split: if_splits)
  then show ?thesis
    by (auto simp: clean_label_def to_ascii_lowercase_def list_all_iff clean_char_lower hd_map last_map
        char_lower_dash)
qed

lemma trim_id: "list_all (\<lambda>c. \<not> is_whitespace c) s \<Longrightarrow> trim s = s"
proof -
  assume a: "list_all (\<lambda>c. \<not> is_whitespace c) s"
  have "dropWhile is_whitespace xs = xs" if "list_all (\<lambda>c. \<not> is_whitespace c) xs" for xs
    using that by (cases xs) auto
  from this[OF a] this[of "rev s"] a show ?thesis
    by (simp add: trim_def trim_start_def trim_end_def)
qed

lemma sanitize_hostname_fixed:
  assumes "clean_label s"
  shows "sanitize_hostname s = Some s"
proof -
  have c: "\<And>c. c \<in> set s \<Longrightarrow> clean_char c" using assms by (simp add: clean_label_def list_all_iff)
  have "CHR ''.'' \<notin> set s" using c clean_char_facts(4) by blast
  then have split: "split_char CHR ''.'' s = [s]" by (rule split_char_noc)
  have trim: "trim s = s" by (rule trim_id) (use c clean_char_facts(3) in \<open>simp add: list_all_iff\<close>)
  have lower: "to_ascii_lowercase s = s"
    unfolding to_ascii_lowercase_def by (rule map_idI) (use c clean_char_facts(1) in blast)
  have "list_all host_char s" using c clean_char_facts(2) by (simp add: list_all_iff)
  with assms show ?thesis
    by (simp add: sanitize_hostname_def split trim lower clean_label_def)
qed

text \<open>
  Host names taken from clients are always safe DNS labels: a sanitized name is non-empty,
  at most 63 characters long, made of lower-case letters, digits and hyphens only, and
  neither starts nor ends with a hyphen; and sanitizing accepts every such label unchanged,
  so the accepted labels are exactly these and sanitizing twice is sanitizing once.
\<close>

lemma sanitize_hostname_exact:
  "(\<exists>raw. sanitize_hostname raw = Some h) \<longleftrightarrow> clean_label h"
  using sanitize_hostname_clean sanitize_hostname_fixed by blast

section \<open>Subnet masks\<close>

definition leading_ones :: "ip \<Rightarrow> nat" where
  "leading_ones w = length (takeWhile (bit w) (rev [0..<32]))"

definition trailing_zeros :: "ip \<Rightarrow> nat" where
  "trailing_zeros w = length (takeWhile (\<lambda>i. \<not> bit w i) [0..<32])"

definition mask_to_prefix_len :: "ip \<Rightarrow> router_error + u8" where
  "mask_to_prefix_len m =
     (if leading_ones m + trailing_zeros m \<noteq> 32 then Inl Generic
      else Inr (of_nat (leading_ones m)))"

definition prefix_len_to_mask :: "u8 \<Rightarrow> ip" where
  "prefix_len_to_mask p = (if p = 0 \<or> 32 < p then 0 else push_bit (unat (32 - p)) (- 1))"

lemma length_takeWhile_eqI:
  assumes "k \<le> length xs" "\<And>i. i < k \<Longrightarrow> P (xs ! i)" "k < length xs \<Longrightarrow> \<not> P (xs ! k)"
  shows "length (takeWhile P xs) = k"
proof -
  have "takeWhile P xs = take k xs"
    using assms by (intro takeWhile_eq_take_P_nth) (auto simp: not_le)
  with assms(1) show ?thesis by simp
qed

lemma takeWhile_prefix_holds: "i < length (takeWhile P xs) \<Longrightarrow> P (xs ! i)"
  by (metis nth_mem set_takeWhileD takeWhile_nth)

lemma bit_prefix_mask:
  assumes "p \<le> 32"
  shows "bit (prefix_len_to_mask p) i \<longleftrightarrow> 32 - unat p \<le> i \<and> i < 32"
proof -
  have "unat p \<le> 32" using assms by (simp add: word_le_nat_alt)
  moreover have "unat (32 - p) = 32 - unat p" using assms by (simp add: unat_sub)
  ultimately show ?thesis using assms
    by (auto simp: prefix_len_to_mask_def bit_not_iff bit_mask_iff push_bit_minus_one_eq_not_mask not_less)
qed

lemma leading_ones_prefix_mask:
  assumes "p \<le> 32"
  shows "leading_ones (prefix_len_to_mask p) = unat p"
proof -
  have "unat p \<le> 32" using assms by (simp add: word_le_nat_alt)
  then show ?thesis
    unfolding leading_ones_def
    by (intro length_takeWhile_eqI) (auto simp: bit_prefix_mask[OF assms] rev_nth)
qed

lemma trailing_zeros_prefix_mask:
  assumes "p \<le> 32"
  shows "trailing_zeros (prefix_len_to_mask p) = 32 - unat p"
  unfolding trailing_zeros_def
  by (intro length_takeWhile_eqI) (auto simp: bit_prefix_mask[OF assms])

lemma prefix_mask_is_netmask: "p \<le> 32 \<Longrightarrow> prefix_len_to_mask p = netmask_of p"
  by (rule bit_word_eqI)
    (auto simp: bit_prefix_mask netmask_of_def push_bit_minus_one_eq_not_mask bit_not_iff bit_mask_iff)

lemma mask_roundtrip: "p \<le> 32 \<Longrightarrow> mask_to_prefix_len (prefix_len_to_mask p) = Inr p"
  by (auto simp: mask_to_prefix_len_def leading_ones_prefix_mask trailing_zeros_prefix_mask word_le_nat_alt)

lemma contiguous_mask:
  assumes "leading_ones m + trailing_zeros m = 32" "i < 32"
  shows "bit m i \<longleftrightarrow> 32 - leading_ones m \<le> i"
proof
  assume "bit m i"
  show "32 - leading_ones m \<le> i"
  proof (rule ccontr)
    assume "\<not> 32 - leading_ones m \<le> i"
    with assms(1) have "i < trailing_zeros m" by simp
    then have "\<not> bit m ([0..<32] ! i)" unfolding trailing_zeros_def by (rule takeWhile_prefix_holds)
    with \<open>bit m i\<close> assms(2) show False by simp
  qed
next
  assume "32 - leading_ones m \<le> i"
  with assms(2) have "31 - i < leading_ones m" by simp
  then have "bit m (rev [0..<32] ! (31 - i))" unfolding leading_ones_def by (rule takeWhile_prefix_holds)
  with assms(2) show "bit m i" by (simp add: rev_nth)
qed

text \<open>
  Masks and prefix lengths correspond one to one: \<open>mask_to_prefix_len\<close> accepts exactly the
  masks of the prefix lengths 0 to 32, and on them it is the inverse of \<open>prefix_len_to_mask\<close>.
\<close>

lemma mask_to_prefix_len_exact:
  "mask_to_prefix_len m = Inr p \<longleftrightarrow> p \<le> 32 \<and> m = prefix_len_to_mask p"
proof
  assume a: "mask_to_prefix_len m = Inr p"
  then have sum: "leading_ones m + trailing_zeros m = 32" and p: "p = of_nat (leading_ones m)"
    by (auto simp: mask_to_prefix_len_def split: if_splits)
  have "leading_ones m \<le> 32" using sum by simp
  then have up: "unat p = leading_ones m" and "p \<le> 32"
    unfolding p using unat_of_nat_le[of "leading_ones m" "32 :: u8"] by (simp_all add: word_le_nat_alt)
  have "m = prefix_len_to_mask p"
    by (rule bit_word_eqI)
      (use contiguous_mask[OF sum] bit_prefix_mask[OF \<open>p \<le> 32\<close>] in \<open>simp add: up\<close>)
  with \<open>p \<le> 32\<close> show "p \<le> 32 \<and> m = prefix_len_to_mask p" by simp
qed (use mask_roundtrip in blast)

section \<open>Hardware addresses\<close>

fun mac_from_slice :: "bytes \<Rightarrow> router_error + mac" where
  "mac_from_slice [a, b, c, d, e, f] = Inr (MacAddr a b c d e f)"
| "mac_from_slice _ = Inl Generic"

lemma mac_from_slice_octets [simp]: "mac_from_slice (octets m) = Inr m"
  by (cases m) simp

lemma mac_from_slice_Inr: "mac_from_slice b = Inr m \<longleftrightarrow> b = octets m"
  by (cases b rule: mac_from_slice.cases; cases m) auto

section \<open>Restart back-off\<close>

definition MAX_SUPERVISOR_RESTART_DELAY_SECS :: nat where
  "MAX_SUPERVISOR_RESTART_DELAY_SECS = 60"

definition calculate_supervisor_restart_delay :: "u32 \<Rightarrow> duration" where
  "calculate_supervisor_restart_delay attempt =
     (if attempt = 0 then 0
      else from_secs (min (2 ^ unat (min attempt 6)) MAX_SUPERVISOR_RESTART_DELAY_SECS))"

text \<open>What ends the wait: the timer, or a change on the shutdown channel (with its value, or
  an error because the sender is gone).\<close>

datatype wait_end = TimerFired | ShutdownChanged bool | ShutdownSenderGone

definition saturating_inc :: "u32 \<Rightarrow> u32" where
  "saturating_inc a = (if a = - 1 then a else a + 1)"

definition handle_supervisor_restart_delay :: "wait_end \<Rightarrow> u32 \<Rightarrow> bool \<times> u32" where
  "handle_supervisor_restart_delay w attempt =
     (if 0 < attempt \<and> (w = ShutdownSenderGone \<or> w = ShutdownChanged True) then (False, attempt)
      else (True, saturating_inc attempt))"

text \<open>
  The wait before a worker is restarted doubles from two seconds with every attempt and
  never exceeds a minute, however many attempts there were; only the very first start does
  not wait; and the attempt counter never wraps around to start over.
\<close>

lemma restart_delay_bounds:
  "(calculate_supervisor_restart_delay n = 0 \<longleftrightarrow> n = 0)
   \<and> calculate_supervisor_restart_delay n \<le> from_secs 60
   \<and> (n \<le> m \<longrightarrow> calculate_supervisor_restart_delay n \<le> calculate_supervisor_restart_delay m)
   \<and> n \<le> snd (handle_supervisor_restart_delay w n)"
proof -
  have "n \<le> saturating_inc n"
  proof (cases "n = - 1")
    case False
    then have "unat n \<noteq> 2 ^ 32 - 1" by (simp add: word_unat_eq_iff unsigned_minus_1_eq_mask mask_eq_exp_minus_1)
    moreover have "unat n < 2 ^ 32" using unsigned_less[of n] by simp
    ultimately have "unat (n + 1) = unat n + 1" by (simp add: unat_word_ariths)
    then show ?thesis by (simp add: saturating_inc_def word_le_nat_alt)
  qed (simp add: saturating_inc_def)
  moreover have "calculate_supervisor_restart_delay n \<le> calculate_supervisor_restart_delay m" if "n \<le> m"
  proof (cases "n = 0")
    case False
    with that have "m \<noteq> 0" by auto
    moreover have "unat (min n 6) \<le> unat (min m 6)"
      using that by (auto simp: min_def word_le_nat_alt)
    then have "(2::nat) ^ unat (min n 6) \<le> 2 ^ unat (min m 6)" by (rule power_increasing) simp
    ultimately show ?thesis using False
      by (simp add: calculate_supervisor_restart_delay_def del: min.bounded_iff) (simp add: min.coboundedI1)
  qed (simp add: calculate_supervisor_restart_delay_def)
  ultimately show ?thesis
    by (auto simp: calculate_supervisor_restart_delay_def handle_supervisor_restart_delay_def
        MAX_SUPERVISOR_RESTART_DELAY_SECS_def from_secs_def)
qed

lemma restart_delay_bounds_example:
  "(1 :: u32) \<le> 3 \<and> calculate_supervisor_restart_delay 1 \<le> calculate_supervisor_restart_delay 3
   \<and> calculate_supervisor_restart_delay 3 = from_secs 8"
  using restart_delay_bounds[of 1 3 TimerFired]
  by (simp add: calculate_supervisor_restart_delay_def MAX_SUPERVISOR_RESTART_DELAY_SECS_def min_def)

end
