(* ===== verification/Packet.thy ===== *)
theory Packet
  imports Utils
begin

text \<open>
  Frames: \<open>packet.rs\<close> builds a raw Ethernet/IPv4/UDP frame in place, and
  \<open>parse_dhcp_payload\<close> of \<open>services/utils.rs\<close> takes one apart again. The packet views are
  the crate \<open>pnet\<close> and the DHCP codec the crate \<open>dhcproto\<close>; their functions are the fields
  of \<open>pnet_lib\<close> and \<open>dhcp_lib\<close>. A view's mutable payload is a function that rewrites the
  payload bytes inside the surrounding buffer.
\<close>

section \<open>Packet views\<close>

record pnet_lib =
  eth_min :: nat
  ip_min :: nat
  udp_min :: nat
  eth_ok :: "bytes \<Rightarrow> bool"
  eth_source :: "bytes \<Rightarrow> mac"
  eth_destination :: "bytes \<Rightarrow> mac"
  eth_ethertype :: "bytes \<Rightarrow> u16"
  eth_payload :: "bytes \<Rightarrow> bytes"
  eth_set_source :: "mac \<Rightarrow> bytes \<Rightarrow> bytes"
  eth_set_destination :: "mac \<Rightarrow> bytes \<Rightarrow> bytes"
  eth_set_ethertype :: "u16 \<Rightarrow> bytes \<Rightarrow> bytes"
  eth_put_payload :: "bytes \<Rightarrow> bytes \<Rightarrow> bytes"
  ip_ok :: "bytes \<Rightarrow> bool"
  ip_source :: "bytes \<Rightarrow> ip"
  ip_destination :: "bytes \<Rightarrow> ip"
  ip_protocol :: "bytes \<Rightarrow> u8"
  ip_header_length :: "bytes \<Rightarrow> u8"
  ip_total_length :: "bytes \<Rightarrow> u16"
  ip_payload :: "bytes \<Rightarrow> bytes"
  ip_checksum_of :: "bytes \<Rightarrow> u16"
  ip_set_version :: "u8 \<Rightarrow> bytes \<Rightarrow> bytes"
  ip_set_header_length :: "u8 \<Rightarrow> bytes \<Rightarrow> bytes"
  ip_set_total_length :: "u16 \<Rightarrow> bytes \<Rightarrow> bytes"
  ip_set_ttl :: "u8 \<Rightarrow> bytes \<Rightarrow> bytes"
  ip_set_protocol :: "u8 \<Rightarrow> bytes \<Rightarrow> bytes"
  ip_set_source :: "ip \<Rightarrow> bytes \<Rightarrow> bytes"
  ip_set_destination :: "ip \<Rightarrow> bytes \<Rightarrow> bytes"
  ip_set_checksum :: "u16 \<Rightarrow> bytes \<Rightarrow> bytes"
  ip_put_payload :: "bytes \<Rightarrow> bytes \<Rightarrow> bytes"
  udp_ok :: "bytes \<Rightarrow> bool"
  udp_source :: "bytes \<Rightarrow> u16"
  udp_destination :: "bytes \<Rightarrow> u16"
  udp_payload :: "bytes \<Rightarrow> bytes"
  udp_set_source :: "u16 \<Rightarrow> bytes \<Rightarrow> bytes"
  udp_set_destination :: "u16 \<Rightarrow> bytes \<Rightarrow> bytes"
  udp_set_length :: "u16 \<Rightarrow> bytes \<Rightarrow> bytes"
  udp_set_payload :: "bytes \<Rightarrow> bytes \<Rightarrow> bytes"

text \<open>Assigned numbers of the protocols (IPv4 in Ethernet, UDP in IPv4, the two DHCP ports).\<close>

definition ETHERTYPE_IPV4 :: u16 where "ETHERTYPE_IPV4 = 0x0800"
definition PROTO_UDP :: u8 where "PROTO_UDP = 17"
definition SERVER_PORT :: u16 where "SERVER_PORT = 67"
definition CLIENT_PORT :: u16 where "CLIENT_PORT = 68"

section \<open>Building a frame\<close>

record raw_packet_endpoints =
  src_mac :: mac
  dest_mac :: mac
  src_ip :: ip
  dest_ip :: ip
  src_port :: u16
  dest_port :: u16

definition write_packet_headers :: "pnet_lib \<Rightarrow> bytes \<Rightarrow> raw_packet_endpoints \<Rightarrow> bytes \<Rightarrow> bytes option" where
  "write_packet_headers P buf ep payload =
     (if \<not> eth_ok P buf then None
      else
        let eth = eth_set_ethertype P ETHERTYPE_IPV4
                    (eth_set_source P (src_mac ep) (eth_set_destination P (dest_mac ep) buf));
            ip0 = eth_payload P eth
        in if \<not> ip_ok P ip0 then None
           else
             let ip1 = ip_set_destination P (dest_ip ep)
                        (ip_set_source P (src_ip ep)
                        (ip_set_protocol P PROTO_UDP
                        (ip_set_ttl P 64
                        (ip_set_total_length P (of_nat (ip_min P + udp_min P + length payload))
                        (ip_set_header_length P (of_nat (ip_min P div 4))
                        (ip_set_version P 4 ip0))))));
                 udp0 = ip_payload P ip1
             in if \<not> udp_ok P udp0 then None
                else
                  let udp1 = udp_set_payload P payload
                              (udp_set_length P (of_nat (udp_min P + length payload))
                              (udp_set_destination P (dest_port ep)
                              (udp_set_source P (src_port ep) udp0)))
                  in Some (eth_put_payload P (ip_put_payload P udp1 ip1) eth))"

definition set_ip_checksum :: "pnet_lib \<Rightarrow> bytes \<Rightarrow> bytes option" where
  "set_ip_checksum P buf =
     (if \<not> eth_ok P buf then None
      else let i = eth_payload P buf in
           if \<not> ip_ok P i then None
           else Some (eth_put_payload P (ip_set_checksum P (ip_checksum_of P i) i) buf))"

definition MAX_RAW_PACKET_PAYLOAD :: nat where
  "MAX_RAW_PACKET_PAYLOAD = 65507"

definition build_raw_packet ::
  "pnet_lib \<Rightarrow> mac \<Rightarrow> mac \<Rightarrow> ip \<Rightarrow> ip \<Rightarrow> u16 \<Rightarrow> u16 \<Rightarrow> bytes \<Rightarrow> router_error + bytes" where
  "build_raw_packet P smac dmac sip dip sport dport payload =
     (if MAX_RAW_PACKET_PAYLOAD < length payload then Inl Generic
      else
        let buf = replicate (eth_min P + ip_min P + udp_min P + length payload) 0;
            ep = \<lparr> src_mac = smac, dest_mac = dmac, src_ip = sip, dest_ip = dip,
                   src_port = sport, dest_port = dport \<rparr>
        in and_then (ok_or (write_packet_headers P buf ep payload) Generic)
             (\<lambda>b. ok_or (set_ip_checksum P b) Generic))"

section \<open>DHCP messages\<close>

text \<open>
  The view of a DHCPv4 message that \<open>dhcproto\<close> gives through its accessors and setters:
  the header fields, and the options as a map from option code to option.
\<close>

datatype opcode = BootRequest | BootReply | OpcodeUnknown u8

datatype message_type =
    MtDiscover | MtOffer | MtRequest | MtDecline | MtAck | MtNak | MtRelease | MtInform
  | MtUnknown u8

datatype option_code =
    CodeMessageType | CodeServerIdentifier | CodeSubnetMask | CodeRouter | CodeDomainNameServer
  | CodeAddressLeaseTime | CodeRequestedIpAddress | CodeHostname | CodeParameterRequestList
  | CodeUnknown u8

datatype dhcp_option =
    OptMessageType message_type
  | OptServerIdentifier ip
  | OptSubnetMask ip
  | OptRouter "ip list"
  | OptDomainNameServer "ip list"
  | OptAddressLeaseTime u32
  | OptRequestedIpAddress ip
  | OptHostname string
  | OptParameterRequestList "option_code list"
  | OptUnknown u8 bytes

fun option_code_of :: "dhcp_option \<Rightarrow> option_code" where
  "option_code_of (OptMessageType _) = CodeMessageType"
| "option_code_of (OptServerIdentifier _) = CodeServerIdentifier"
| "option_code_of (OptSubnetMask _) = CodeSubnetMask"
| "option_code_of (OptRouter _) = CodeRouter"
| "option_code_of (OptDomainNameServer _) = CodeDomainNameServer"
| "option_code_of (OptAddressLeaseTime _) = CodeAddressLeaseTime"
| "option_code_of (OptRequestedIpAddress _) = CodeRequestedIpAddress"
| "option_code_of (OptHostname _) = CodeHostname"
| "option_code_of (OptParameterRequestList _) = CodeParameterRequestList"
| "option_code_of (OptUnknown c _) = CodeUnknown c"

record dhcp_message =
  msg_opcode :: opcode
  msg_xid :: u32
  msg_broadcast :: bool
  msg_ciaddr :: ip
  msg_yiaddr :: ip
  msg_siaddr :: ip
  msg_giaddr :: ip
  msg_hlen :: u8
  msg_chaddr :: bytes
  msg_opts :: "option_code \<rightharpoonup> dhcp_option"

definition insert_option :: "dhcp_option \<Rightarrow> dhcp_message \<Rightarrow> dhcp_message" where
  "insert_option opt m = m\<lparr> msg_opts := (msg_opts m)(option_code_of opt \<mapsto> opt) \<rparr>"

definition set_chaddr :: "bytes \<Rightarrow> dhcp_message \<Rightarrow> dhcp_message" where
  "set_chaddr c m = m\<lparr> msg_chaddr := c, msg_hlen := of_nat (length c) \<rparr>"

record dhcp_lib =
  message_default :: dhcp_message
  message_encode :: "dhcp_message \<Rightarrow> bytes option"
  message_decode :: "bytes \<Rightarrow> dhcp_message option"

section \<open>Taking a frame apart\<close>

definition parse_dhcp_payload :: "pnet_lib \<Rightarrow> dhcp_lib \<Rightarrow> bytes \<Rightarrow> u16 \<Rightarrow> dhcp_message option" where
  "parse_dhcp_payload P D buf expected_port =
     (if \<not> eth_ok P buf then None
      else if eth_ethertype P buf \<noteq> ETHERTYPE_IPV4 then None
      else if \<not> ip_ok P (eth_payload P buf) then None
      else if ip_protocol P (eth_payload P buf) \<noteq> PROTO_UDP then None
      else let u = ip_payload P (eth_payload P buf) in
        if \<not> udp_ok P u then None
        else if udp_destination P u \<noteq> expected_port then None
        else message_decode D (udp_payload P u))"

end
