(* ===== verification/Packet_Wire.thy ===== *)
theory Packet_Wire
  imports Packet
begin

text \<open>
  What \<open>pnet\<close> documents of its packet views, as the locale \<open>pnet_laws\<close>: a view exists when the
  buffer is long enough, a getter reads what the setter of the same field wrote, and setters
  of other fields and of the payload leave it alone. \<open>wire_pnet\<close> is the byte layout of
  Ethernet II, IPv4 without options and UDP, at which all laws are proved.
\<close>

section \<open>Byte layout\<close>

definition put :: "nat \<Rightarrow> bytes \<Rightarrow> bytes \<Rightarrow> bytes" where
  "put off xs b = take off b @ xs @ drop (off + length xs) b"

definition get :: "nat \<Rightarrow> nat \<Rightarrow> bytes \<Rightarrow> bytes" where
  "get off n b = take n (drop off b)"

definition be32 :: "ip \<Rightarrow> bytes" where
  "be32 w = [of_nat (octet 0 w), of_nat (octet 1 w), of_nat (octet 2 w), of_nat (octet 3 w)]"

definition de32 :: "bytes \<Rightarrow> ip" where
  "de32 b = ipv4 (unat (b ! 0)) (unat (b ! 1)) (unat (b ! 2)) (unat (b ! 3))"

definition de_mac :: "bytes \<Rightarrow> mac" where
  "de_mac b = MacAddr (b ! 0) (b ! 1) (b ! 2) (b ! 3) (b ! 4) (b ! 5)"

lemma length_put [simp]: "off + length xs \<le> length b \<Longrightarrow> length (put off xs b) = length b"
  by (simp add: put_def)

lemma get_put_same: "off + length xs \<le> length b \<Longrightarrow> n = length xs \<Longrightarrow> get off n (put off xs b) = xs"
  by (simp add: put_def get_def)

lemma get_put_before: "off' + n \<le> off \<Longrightarrow> off + length xs \<le> length b \<Longrightarrow> get off' n (put off xs b) = get off' n b"
  by (simp add: put_def get_def take_drop min_def)

lemma get_put_after: "off + length xs \<le> off' \<Longrightarrow> off + length xs \<le> length b \<Longrightarrow> get off' n (put off xs b) = get off' n b"
  by (simp add: put_def get_def min_def)

lemma drop_put: "off + length xs \<le> n \<Longrightarrow> off + length xs \<le> length b \<Longrightarrow> drop n (put off xs b) = drop n b"
  by (simp add: put_def min_def)

lemma de32_be32 [simp]: "de32 (be32 w) = w"
proof -
  have o: "unat (of_nat (octet i w) :: u8) = octet i w" for i
    by (simp add: octet_def unsigned_of_nat take_bit_nat_eq_self)
  show ?thesis by (simp add: de32_def be32_def o ipv4_octets[unfolded One_nat_def])
qed

lemma de_mac_octets [simp]: "de_mac (octets m) = m"
  by (cases m) (simp add: de_mac_def)

lemma lengths [simp]: "length (be32 a) = 4" "length (octets m) = 6"
  by (simp_all add: be32_def, cases m, simp)

section \<open>Laws of the packet views\<close>

locale pnet_laws =
  fixes P :: pnet_lib
  assumes sizes: "eth_min P = 14" "ip_min P = 20" "udp_min P = 8"
    and views: "eth_ok P b \<longleftrightarrow> 14 \<le> length b" "ip_ok P b \<longleftrightarrow> 20 \<le> length b" "udp_ok P b \<longleftrightarrow> 8 \<le> length b"
    and eth_lengths: "14 \<le> length b \<Longrightarrow> length (eth_set_source P m b) = length b"
      "14 \<le> length b \<Longrightarrow> length (eth_set_destination P m b) = length b"
      "14 \<le> length b \<Longrightarrow> length (eth_set_ethertype P t b) = length b"
      "14 \<le> length b \<Longrightarrow> length (eth_payload P b) = length b - 14"
      "14 + length q = length b \<Longrightarrow> length (eth_put_payload P q b) = length b"
    and eth_fields: "14 \<le> length b \<Longrightarrow> eth_source P (eth_set_source P m b) = m"
      "14 \<le> length b \<Longrightarrow> eth_source P (eth_set_ethertype P t b) = eth_source P b"
      "14 + length q = length b \<Longrightarrow> eth_source P (eth_put_payload P q b) = eth_source P b"
      "14 \<le> length b \<Longrightarrow> eth_destination P (eth_set_destination P m b) = m"
      "14 \<le> length b \<Longrightarrow> eth_destination P (eth_set_source P m b) = eth_destination P b"
      "14 \<le> length b \<Longrightarrow> eth_destination P (eth_set_ethertype P t b) = eth_destination P b"
      "14 + length q = length b \<Longrightarrow> eth_destination P (eth_put_payload P q b) = eth_destination P b"
      "14 \<le> length b \<Longrightarrow> eth_ethertype P (eth_set_ethertype P t b) = t"
      "14 + length q = length b \<Longrightarrow> eth_ethertype P (eth_put_payload P q b) = eth_ethertype P b"
      "14 + length q = length b \<Longrightarrow> eth_payload P (eth_put_payload P q b) = q"
    and ip_lengths: "20 \<le> length b \<Longrightarrow> length (ip_set_version P v b) = length b"
      "20 \<le> length b \<Longrightarrow> length (ip_set_header_length P v b) = length b"
      "20 \<le> length b \<Longrightarrow> length (ip_set_total_length P w b) = length b"
      "20 \<le> length b \<Longrightarrow> length (ip_set_ttl P v b) = length b"
      "20 \<le> length b \<Longrightarrow> length (ip_set_protocol P v b) = length b"
      "20 \<le> length b \<Longrightarrow> length (ip_set_source P a b) = length b"
      "20 \<le> length b \<Longrightarrow> length (ip_set_destination P a b) = length b"
      "20 \<le> length b \<Longrightarrow> length (ip_set_checksum P w b) = length b"
    and ip_header: "20 \<le> length b \<Longrightarrow> v < 16 \<Longrightarrow> ip_header_length P (ip_set_header_length P v b) = v"
      "20 \<le> length b \<Longrightarrow> ip_header_length P (ip_set_total_length P w b) = ip_header_length P b"
      "20 \<le> length b \<Longrightarrow> ip_header_length P (ip_set_ttl P v b) = ip_header_length P b"
      "20 \<le> length b \<Longrightarrow> ip_header_length P (ip_set_protocol P v b) = ip_header_length P b"
      "20 \<le> length b \<Longrightarrow> ip_header_length P (ip_set_source P a b) = ip_header_length P b"
      "20 \<le> length b \<Longrightarrow> ip_header_length P (ip_set_destination P a b) = ip_header_length P b"
      "20 \<le> length b \<Longrightarrow> ip_header_length P (ip_set_checksum P w b) = ip_header_length P b"
    and ip_total: "20 \<le> length b \<Longrightarrow> ip_total_length P (ip_set_total_length P w b) = w"
      "20 \<le> length b \<Longrightarrow> ip_total_length P (ip_set_ttl P v b) = ip_total_length P b"
      "20 \<le> length b \<Longrightarrow> ip_total_length P (ip_set_protocol P v b) = ip_total_length P b"
      "20 \<le> length b \<Longrightarrow> ip_total_length P (ip_set_source P a b) = ip_total_length P b"
      "20 \<le> length b \<Longrightarrow> ip_total_length P (ip_set_destination P a b) = ip_total_length P b"
      "20 \<le> length b \<Longrightarrow> ip_total_length P (ip_set_checksum P w b) = ip_total_length P b"
    and ip_fields: "20 \<le> length b \<Longrightarrow> ip_protocol P (ip_set_protocol P v b) = v"
      "20 \<le> length b \<Longrightarrow> ip_protocol P (ip_set_source P a b) = ip_protocol P b"
      "20 \<le> length b \<Longrightarrow> ip_protocol P (ip_set_destination P a b) = ip_protocol P b"
      "20 \<le> length b \<Longrightarrow> ip_protocol P (ip_set_checksum P w b) = ip_protocol P b"
      "20 \<le> length b \<Longrightarrow> ip_source P (ip_set_source P a b) = a"
      "20 \<le> length b \<Longrightarrow> ip_source P (ip_set_destination P a b) = ip_source P b"
      "20 \<le> length b \<Longrightarrow> ip_source P (ip_set_checksum P w b) = ip_source P b"
      "20 \<le> length b \<Longrightarrow> ip_destination P (ip_set_destination P a b) = a"
      "20 \<le> length b \<Longrightarrow> ip_destination P (ip_set_checksum P w b) = ip_destination P b"
    and ip_body: "20 \<le> length b \<Longrightarrow> ip_payload P b =
        take (unat (ip_total_length P b) - 4 * unat (ip_header_length P b)) (drop (4 * unat (ip_header_length P b)) b)"
    and ip_put: "ip_header_length P b = 5 \<Longrightarrow> unat (ip_total_length P b) = length b \<Longrightarrow> 20 + length q = length b \<Longrightarrow>
        length (ip_put_payload P q b) = length b \<and> ip_header_length P (ip_put_payload P q b) = 5
        \<and> ip_total_length P (ip_put_payload P q b) = ip_total_length P b
        \<and> ip_protocol P (ip_put_payload P q b) = ip_protocol P b
        \<and> ip_source P (ip_put_payload P q b) = ip_source P b
        \<and> ip_destination P (ip_put_payload P q b) = ip_destination P b
        \<and> drop 20 (ip_put_payload P q b) = q"
    and ip_checksum_body: "20 \<le> length b \<Longrightarrow> drop 20 (ip_set_checksum P w b) = drop 20 b"
    and udp_lengths: "8 \<le> length b \<Longrightarrow> length (udp_set_source P w b) = length b"
      "8 \<le> length b \<Longrightarrow> length (udp_set_destination P w b) = length b"
      "8 \<le> length b \<Longrightarrow> length (udp_set_length P w b) = length b"
      "8 + length q = length b \<Longrightarrow> length (udp_set_payload P q b) = length b"
    and udp_fields: "8 \<le> length b \<Longrightarrow> udp_source P (udp_set_source P w b) = w"
      "8 \<le> length b \<Longrightarrow> udp_source P (udp_set_destination P w b) = udp_source P b"
      "8 \<le> length b \<Longrightarrow> udp_source P (udp_set_length P w b) = udp_source P b"
      "8 + length q = length b \<Longrightarrow> udp_source P (udp_set_payload P q b) = udp_source P b"
      "8 \<le> length b \<Longrightarrow> udp_destination P (udp_set_destination P w b) = w"
      "8 \<le> length b \<Longrightarrow> udp_destination P (udp_set_length P w b) = udp_destination P b"
      "8 + length q = length b \<Longrightarrow> udp_destination P (udp_set_payload P q b) = udp_destination P b"
      "8 + length q = length b \<Longrightarrow> udp_payload P (udp_set_payload P q b) = q"
begin

lemmas pnet_simps = sizes views eth_lengths eth_fields ip_lengths ip_header ip_total ip_fields
  ip_checksum_body udp_lengths udp_fields

text \<open>The two layers above Ethernet that \<open>write_packet_headers\<close> fills in.\<close>

lemma ip_layer:
  assumes "length b = 28 + n" "28 + n < 2 ^ 16"
    and h_def: "h = ip_set_destination P dip (ip_set_source P sip (ip_set_protocol P v
      (ip_set_ttl P 64 (ip_set_total_length P (of_nat (28 + n)) (ip_set_header_length P 5 (ip_set_version P 4 b))))))"
  shows "length h = 28 + n" "ip_header_length P h = 5" "unat (ip_total_length P h) = 28 + n"
    "ip_protocol P h = v" "ip_source P h = sip" "ip_destination P h = dip" "length (ip_payload P h) = 8 + n"
proof -
  show l: "length h = 28 + n" and hl: "ip_header_length P h = 5" and "ip_protocol P h = v"
    "ip_source P h = sip" "ip_destination P h = dip"
    using assms(1) by (simp_all add: h_def pnet_simps)
  have "ip_total_length P h = of_nat (28 + n)" using assms(1) by (simp add: h_def pnet_simps)
  then show t: "unat (ip_total_length P h) = 28 + n"
    using assms(2) by (simp add: unsigned_of_nat take_bit_nat_eq_self del: of_nat_add)
  show "length (ip_payload P h) = 8 + n" using l by (simp add: ip_body hl t)
qed

lemma frame_layers:
  fixes payload :: bytes
  assumes len: "length payload \<le> MAX_RAW_PACKET_PAYLOAD"
  shows "\<exists>f. build_raw_packet P smac dmac sip dip sport dport payload = Inr f
    \<and> length f = 42 + length payload
    \<and> eth_source P f = smac \<and> eth_destination P f = dmac \<and> eth_ethertype P f = ETHERTYPE_IPV4
    \<and> ip_ok P (eth_payload P f) \<and> ip_protocol P (eth_payload P f) = PROTO_UDP
    \<and> ip_source P (eth_payload P f) = sip \<and> ip_destination P (eth_payload P f) = dip
    \<and> udp_ok P (ip_payload P (eth_payload P f))
    \<and> udp_source P (ip_payload P (eth_payload P f)) = sport
    \<and> udp_destination P (ip_payload P (eth_payload P f)) = dport
    \<and> udp_payload P (ip_payload P (eth_payload P f)) = payload"
proof -
  define n where "n = length payload"
  define buf :: bytes where "buf = replicate (42 + n) 0"
  define e where "e = eth_set_ethertype P ETHERTYPE_IPV4 (eth_set_source P smac (eth_set_destination P dmac buf))"
  define h where "h = ip_set_destination P dip (ip_set_source P sip (ip_set_protocol P PROTO_UDP
      (ip_set_ttl P 64 (ip_set_total_length P (of_nat (28 + n))
        (ip_set_header_length P 5 (ip_set_version P 4 (eth_payload P e)))))))"
  define u where "u = udp_set_payload P payload (udp_set_length P (of_nat (8 + n))
      (udp_set_destination P dport (udp_set_source P sport (ip_payload P h))))"
  define i where "i = ip_put_payload P u h"
  define f where "f = eth_put_payload P i e"
  have small: "28 + n < 2 ^ 16" using len by (simp add: n_def MAX_RAW_PACKET_PAYLOAD_def)
  have e: "length e = 42 + n" "eth_source P e = smac" "eth_destination P e = dmac"
    "eth_ethertype P e = ETHERTYPE_IPV4" "length (eth_payload P e) = 28 + n"
    by (simp_all add: e_def buf_def pnet_simps)
  note h = ip_layer[OF e(5) small h_def]
  have u: "length u = 8 + n" "udp_source P u = sport" "udp_destination P u = dport" "udp_payload P u = payload"
    using h(7) by (simp_all add: u_def pnet_simps n_def)
  have i: "length i = 28 + n" "ip_header_length P i = 5" "ip_total_length P i = ip_total_length P h"
    "ip_protocol P i = PROTO_UDP" "ip_source P i = sip" "ip_destination P i = dip" "drop 20 i = u"
    using ip_put[of h u] h u(1) by (simp_all add: i_def)
  have written: "write_packet_headers P buf \<lparr> src_mac = smac, dest_mac = dmac, src_ip = sip, dest_ip = dip,
      src_port = sport, dest_port = dport \<rparr> payload = Some f"
    using e(5) h(7)
    by (simp add: write_packet_headers_def views sizes e_def[symmetric] h_def[symmetric] n_def[symmetric]
        u_def[symmetric] i_def[symmetric] f_def[symmetric] Let_def del: of_nat_add) (simp add: buf_def)
  have f: "length f = 42 + n" "eth_source P f = smac" "eth_destination P f = dmac"
    "eth_ethertype P f = ETHERTYPE_IPV4" "eth_payload P f = i"
    using e i(1) by (simp_all add: f_def pnet_simps)
  define j where "j = ip_set_checksum P (ip_checksum_of P i) i"
  define g where "g = eth_put_payload P j f"
  have check: "set_ip_checksum P f = Some g"
    using f i(1) by (simp add: set_ip_checksum_def views g_def j_def Let_def)
  have j: "length j = 28 + n" "ip_header_length P j = 5" "unat (ip_total_length P j) = 28 + n"
    "ip_protocol P j = PROTO_UDP" "ip_source P j = sip" "ip_destination P j = dip" "drop 20 j = u"
    using i h(3) by (simp_all add: j_def pnet_simps)
  have pay: "ip_payload P j = u" using j u(1) by (simp add: ip_body)
  have g: "length g = 42 + n" "eth_source P g = smac" "eth_destination P g = dmac"
    "eth_ethertype P g = ETHERTYPE_IPV4" "eth_payload P g = j"
    using f j(1) by (simp_all add: g_def pnet_simps)
  have "build_raw_packet P smac dmac sip dip sport dport payload = Inr g"
    using len written check by (simp add: build_raw_packet_def sizes n_def[symmetric] buf_def[symmetric] Let_def)
  with g j pay u show ?thesis by (auto simp: views n_def)
qed

end

section \<open>The byte layout obeys the laws\<close>

text \<open>The header checksum: ones' complement sum of the 16-bit words, the checksum field left out.\<close>

fun sum16 :: "bytes \<Rightarrow> nat" where
  "sum16 (a # b # r) = 256 * unat a + unat b + sum16 r"
| "sum16 [a] = 256 * unat a"
| "sum16 [] = 0"

definition fold16 :: "nat \<Rightarrow> nat" where
  "fold16 s = (let t = s mod 65536 + s div 65536 in t mod 65536 + t div 65536)"

definition wire_pnet :: pnet_lib where
  "wire_pnet = \<lparr>
     eth_min = 14, ip_min = 20, udp_min = 8,
     eth_ok = (\<lambda>b. 14 \<le> length b),
     eth_source = (\<lambda>b. de_mac (get 6 6 b)),
     eth_destination = (\<lambda>b. de_mac (get 0 6 b)),
     eth_ethertype = (\<lambda>b. de16 (get 12 2 b)),
     eth_payload = drop 14,
     eth_set_source = (\<lambda>m. put 6 (octets m)),
     eth_set_destination = (\<lambda>m. put 0 (octets m)),
     eth_set_ethertype = (\<lambda>t. put 12 (be16 t)),
     eth_put_payload = (\<lambda>q. put 14 q),
     ip_ok = (\<lambda>b. 20 \<le> length b),
     ip_source = (\<lambda>b. de32 (get 12 4 b)),
     ip_destination = (\<lambda>b. de32 (get 16 4 b)),
     ip_protocol = (\<lambda>b. hd (get 9 1 b)),
     ip_header_length = (\<lambda>b. hd (get 0 1 b) AND 15),
     ip_total_length = (\<lambda>b. de16 (get 2 2 b)),
     ip_payload = (\<lambda>b. let h = 4 * unat (hd (get 0 1 b) AND 15)
                        in take (unat (de16 (get 2 2 b)) - h) (drop h b)),
     ip_checksum_of = (\<lambda>b. NOT (of_nat (fold16 (sum16 (take 10 b) + sum16 (take 8 (drop 12 b)))))),
     ip_set_version = (\<lambda>v b. put 0 [push_bit 4 v OR (hd (get 0 1 b) AND 15)] b),
     ip_set_header_length = (\<lambda>v b. put 0 [(hd (get 0 1 b) AND 240) OR v] b),
     ip_set_total_length = (\<lambda>w. put 2 (be16 w)),
     ip_set_ttl = (\<lambda>v. put 8 [v]),
     ip_set_protocol = (\<lambda>v. put 9 [v]),
     ip_set_source = (\<lambda>a. put 12 (be32 a)),
     ip_set_destination = (\<lambda>a. put 16 (be32 a)),
     ip_set_checksum = (\<lambda>w. put 10 (be16 w)),
     ip_put_payload = (\<lambda>q b. put (4 * unat (hd (get 0 1 b) AND 15)) q b),
     udp_ok = (\<lambda>b. 8 \<le> length b),
     udp_source = (\<lambda>b. de16 (get 0 2 b)),
     udp_destination = (\<lambda>b. de16 (get 2 2 b)),
     udp_payload = drop 8,
     udp_set_source = (\<lambda>w. put 0 (be16 w)),
     udp_set_destination = (\<lambda>w. put 2 (be16 w)),
     udp_set_length = (\<lambda>w. put 4 (be16 w)),
     udp_set_payload = (\<lambda>q. put 8 q) \<rparr>"

lemma low_nibble: "(v :: u8) < 16 \<Longrightarrow> (x AND 240 OR v) AND 15 = v"
proof -
  assume "v < 16"
  then have "take_bit 4 (unat v) = unat v" by (simp add: word_less_nat_alt take_bit_nat_eq_self)
  then have "take_bit 4 v = v" by (simp add: word_unat_eq_iff unsigned_take_bit_eq)
  then have "v AND 15 = v" by (simp add: take_bit_eq_mask mask_eq_exp_minus_1)
  then show ?thesis by (simp add: bit.conj_disj_distrib2 and.assoc)
qed

lemma drop_put_same: "off + length q = length b \<Longrightarrow> drop off (put off q b) = q"
  by (simp add: put_def)

interpretation wire: pnet_laws wire_pnet
  by unfold_locales
    (simp_all add: wire_pnet_def get_put_same get_put_before get_put_after drop_put drop_put_same
      low_nibble Let_def)

text \<open>
  C22. A frame that \<open>build_raw_packet\<close> builds is read back as what it was built from: for
  every payload within the limit it succeeds, the frame carries the given hardware
  addresses, IP addresses and ports, and \<open>parse_dhcp_payload\<close> on the destination port
  decodes exactly the payload and on any other port rejects the frame. A longer payload is
  refused, so no length field overflows.
\<close>

theorem build_raw_packet_roundtrip:
  assumes "pnet_laws P"
  shows "(length payload \<le> MAX_RAW_PACKET_PAYLOAD \<longrightarrow>
      (\<exists>f. build_raw_packet P smac dmac sip dip sport dport payload = Inr f
         \<and> length f = 42 + length payload
         \<and> eth_source P f = smac \<and> eth_destination P f = dmac
         \<and> ip_source P (eth_payload P f) = sip \<and> ip_destination P (eth_payload P f) = dip
         \<and> (\<forall>port. parse_dhcp_payload P D f port =
               (if port = dport then message_decode D payload else None))))
    \<and> (MAX_RAW_PACKET_PAYLOAD < length payload \<longrightarrow>
         build_raw_packet P smac dmac sip dip sport dport payload = Inl Generic)"
proof (intro conjI impI)
  assume "length payload \<le> MAX_RAW_PACKET_PAYLOAD"
  from pnet_laws.frame_layers[OF assms this, of smac dmac sip dip sport dport]
  obtain f where f: "build_raw_packet P smac dmac sip dip sport dport payload = Inr f"
    "length f = 42 + length payload" "eth_source P f = smac" "eth_destination P f = dmac"
    "eth_ethertype P f = ETHERTYPE_IPV4" "ip_ok P (eth_payload P f)" "ip_protocol P (eth_payload P f) = PROTO_UDP"
    "ip_source P (eth_payload P f) = sip" "ip_destination P (eth_payload P f) = dip"
    "udp_ok P (ip_payload P (eth_payload P f))" "udp_destination P (ip_payload P (eth_payload P f)) = dport"
    "udp_payload P (ip_payload P (eth_payload P f)) = payload" by blast
  moreover have "eth_ok P f" using f(2) by (simp add: pnet_laws.views(1)[OF assms])
  ultimately show "\<exists>f. build_raw_packet P smac dmac sip dip sport dport payload = Inr f
         \<and> length f = 42 + length payload
         \<and> eth_source P f = smac \<and> eth_destination P f = dmac
         \<and> ip_source P (eth_payload P f) = sip \<and> ip_destination P (eth_payload P f) = dip
         \<and> (\<forall>port. parse_dhcp_payload P D f port = (if port = dport then message_decode D payload else None))"
    by (auto simp: parse_dhcp_payload_def Let_def)
qed (simp add: build_raw_packet_def)

theorem build_raw_packet_roundtrip_witness:
  "\<exists>f. build_raw_packet wire_pnet (MacAddr 2 0 0 0 0 1) (MacAddr 2 0 0 0 0 2) (ipv4 10 0 0 1) (ipv4 10 0 0 2)
         67 68 [1, 2, 3] = Inr f
     \<and> length f = 45 \<and> eth_source wire_pnet f = MacAddr 2 0 0 0 0 1"
  using build_raw_packet_roundtrip[OF wire.pnet_laws_axioms, of "[1, 2, 3]" "MacAddr 2 0 0 0 0 1"
      "MacAddr 2 0 0 0 0 2" "ipv4 10 0 0 1" "ipv4 10 0 0 2" 67 68]
  by (auto simp: MAX_RAW_PACKET_PAYLOAD_def)

section \<open>Codecs for the witnesses\<close>

text \<open>A codec that decodes every payload to the same DISCOVER, and one that knows one message.\<close>

definition demo_discover :: dhcp_message where
  "demo_discover = \<lparr> msg_opcode = BootRequest, msg_xid = 7, msg_broadcast = False, msg_ciaddr = 0, msg_yiaddr = 0,
     msg_siaddr = 0, msg_giaddr = 0, msg_hlen = 6, msg_chaddr = [2, 0, 0, 0, 0, 2],
     msg_opts = [CodeMessageType \<mapsto> OptMessageType MtDiscover] \<rparr>"

definition demo_codec :: dhcp_lib where
  "demo_codec = \<lparr> message_default = demo_discover, message_encode = (\<lambda>_. Some [1]),
     message_decode = (\<lambda>_. Some demo_discover) \<rparr>"

definition single_codec :: "dhcp_message \<Rightarrow> dhcp_lib" where
  "single_codec m = \<lparr> message_default = demo_discover, message_encode = (\<lambda>x. if x = m then Some [1] else None),
     message_decode = (\<lambda>b. if b = [1] then Some m else None) \<rparr>"

end
