(* ===== verification/Dhcp_Worker.thy ===== *)
theory Dhcp_Worker
  imports Lease_Actor Packet
begin

text \<open>
  The sandboxed DHCP server worker, \<open>services/dhcp_server/worker.rs\<close>, and the \<open>LeaseHandle\<close>
  of \<open>lease_table.rs\<close> through which its tasks talk to the lease actor.

  Every packet is handled by a task of its own, and tasks interleave at their \<open>await\<close>
  points. A task is therefore a tree: what it does up to its next interaction, and how it
  goes on for every answer. \<open>Ask\<close> sends a command to the actor (the answer is \<open>None\<close> when the
  actor is gone), \<open>Emit\<close> queues a message for the parent, \<open>Sleep\<close> lets time pass.
  \<open>NoFuel\<close> marks a loop cut off after the given number of rounds.
\<close>

section \<open>Tasks\<close>

datatype ('n, 'r) task =
    Return 'r
  | Ask "'n lease_command" "lease_reply option \<Rightarrow> ('n, 'r) task"
  | Emit dhcp_server_worker_to_parent "('n, 'r) task"
  | Sleep duration "('n, 'r) task"
  | NoFuel

primrec bind_task :: "('n, 'r) task \<Rightarrow> ('r \<Rightarrow> ('n, 's) task) \<Rightarrow> ('n, 's) task" where
  "bind_task (Return r) f = f r"
| "bind_task (Ask c k) f = Ask c (\<lambda>a. bind_task (k a) f)"
| "bind_task (Emit m p) f = Emit m (bind_task p f)"
| "bind_task (Sleep d p) f = Sleep d (bind_task p f)"
| "bind_task NoFuel f = NoFuel"

section \<open>Lease handle\<close>

definition handle_get_existing_ip :: "mac \<Rightarrow> ('n, ip option) task" where
  "handle_get_existing_ip client =
     Ask (GetExistingIp client) (\<lambda>a. case a of Some (IpReply r) \<Rightarrow> Return r | _ \<Rightarrow> Return None)"

definition handle_allocate_candidate :: "mac \<Rightarrow> 'n \<Rightarrow> ip \<Rightarrow> ('n, ip option) task" where
  "handle_allocate_candidate client net server_ip =
     Ask (AllocateCandidate client net server_ip)
       (\<lambda>a. case a of Some (IpReply r) \<Rightarrow> Return r | _ \<Rightarrow> Return None)"

definition handle_confirm_lease :: "mac \<Rightarrow> ip \<Rightarrow> duration \<Rightarrow> string option \<Rightarrow> ('n, unit) task" where
  "handle_confirm_lease client i d h = Ask (ConfirmLease client i d h) (\<lambda>_. Return ())"

definition handle_validate_and_confirm ::
  "mac \<Rightarrow> ip option \<Rightarrow> ip \<Rightarrow> 'n \<Rightarrow> duration \<Rightarrow> string option \<Rightarrow> ('n, lease_confirmation option) task" where
  "handle_validate_and_confirm client req server_ip net d h =
     Ask (ValidateAndConfirmRequest client req server_ip net d h)
       (\<lambda>a. case a of Some (ConfirmReply r) \<Rightarrow> Return r | _ \<Rightarrow> Return None)"

definition handle_check_conflict :: "ip \<Rightarrow> mac \<Rightarrow> ('n, bool) task" where
  "handle_check_conflict target client =
     Ask (CheckConflict target client) (\<lambda>a. case a of Some (BoolReply b) \<Rightarrow> Return b | _ \<Rightarrow> Return False)"

definition handle_record_conflict :: "ip \<Rightarrow> duration \<Rightarrow> ('n, unit) task" where
  "handle_record_conflict i d = Ask (RecordConflict i d) (\<lambda>_. Return ())"

definition handle_release :: "mac \<Rightarrow> ('n, (ip \<times> string option) option) task" where
  "handle_release client =
     Ask (Release client) (\<lambda>a. case a of Some (ReleaseReply r) \<Rightarrow> Return r | _ \<Rightarrow> Return None)"

definition handle_evict_expired :: "('n, string list) task" where
  "handle_evict_expired =
     Ask EvictExpired (\<lambda>a. case a of Some (NamesReply r) \<Rightarrow> Return r | _ \<Rightarrow> Return [])"

definition handle_get_active_leases :: "('n, dhcp_lease_info list) task" where
  "handle_get_active_leases =
     Ask GetActiveLeases (\<lambda>a. case a of Some (LeasesReply r) \<Rightarrow> Return r | _ \<Rightarrow> Return [])"

definition handle_add_neighbor :: "mac \<Rightarrow> ip \<Rightarrow> ('n, unit) task" where
  "handle_add_neighbor m i = Ask (AddNeighbor m i) (\<lambda>_. Return ())"

definition handle_set_static_leases :: "static_lease list \<Rightarrow> ('n, unit) task" where
  "handle_set_static_leases ls = Ask (SetStaticLeases ls) (\<lambda>_. Return ())"

section \<open>Packet handlers\<close>

definition LAN_LEASE_SECS :: u32 where "LAN_LEASE_SECS = 3600"
definition ARP_RESOLUTION_DELAY :: duration where "ARP_RESOLUTION_DELAY = from_millis 100"
definition CONFLICT_HOLD_DURATION :: duration where "CONFLICT_HOLD_DURATION = from_secs 300"
definition DISCARD_PORT :: u16 where "DISCARD_PORT = 9"

record 'n server_config =
  server_ip :: ip
  server_net :: 'n

definition extract_client_mac :: "'n net_lib \<Rightarrow> dhcp_message \<Rightarrow> mac option" where
  "extract_client_mac L dhcp =
     (if msg_hlen dhcp \<noteq> 6 then None
      else if length (msg_chaddr dhcp) < 6 then None
      else case take 6 (msg_chaddr dhcp) of
          [a, b, c, d, e, f] \<Rightarrow>
            let m = MacAddr a b c d e f
            in if mac_is_zero L m \<or> m = mac_broadcast L then None else Some m
        | _ \<Rightarrow> None)"

definition is_spoofed_l2_packet :: "mac \<Rightarrow> mac \<Rightarrow> ip \<Rightarrow> bool" where
  "is_spoofed_l2_packet eth_src client_mac giaddr \<longleftrightarrow> is_unspecified giaddr \<and> eth_src \<noteq> client_mac"

definition should_process_request_server_id :: "dhcp_message \<Rightarrow> ip \<Rightarrow> bool" where
  "should_process_request_server_id dhcp server =
     (case msg_opts dhcp CodeServerIdentifier of
        Some (OptServerIdentifier i) \<Rightarrow> i = server
      | _ \<Rightarrow> True)"

definition extract_sanitized_hostname :: "dhcp_message \<Rightarrow> string option" where
  "extract_sanitized_hostname dhcp =
     (case msg_opts dhcp CodeHostname of Some (OptHostname n) \<Rightarrow> sanitize_hostname n | _ \<Rightarrow> None)"

definition trigger_arp_resolution :: "ip \<Rightarrow> ('n, unit) task" where
  "trigger_arp_resolution target = Emit (ProbeArpConflict target) (Sleep ARP_RESOLUTION_DELAY (Return ()))"

fun probe_and_allocate_ip :: "nat \<Rightarrow> 'n server_config \<Rightarrow> mac \<Rightarrow> ('n, ip option) task" where
  "probe_and_allocate_ip 0 cfg client = NoFuel"
| "probe_and_allocate_ip (Suc fuel) cfg client =
     bind_task (handle_allocate_candidate client (server_net cfg) (server_ip cfg)) (\<lambda>r.
     case r of
       None \<Rightarrow> Return None
     | Some i \<Rightarrow>
         bind_task (trigger_arp_resolution i) (\<lambda>_.
         bind_task (handle_check_conflict i client) (\<lambda>c.
         if c then
           bind_task (handle_record_conflict i CONFLICT_HOLD_DURATION) (\<lambda>_.
           probe_and_allocate_ip fuel cfg client)
         else Return (Some i))))"

definition find_or_allocate_discover_ip :: "nat \<Rightarrow> 'n server_config \<Rightarrow> mac \<Rightarrow> ('n, ip option) task" where
  "find_or_allocate_discover_ip fuel cfg client =
     bind_task (handle_get_existing_ip client) (\<lambda>r.
     case r of Some i \<Rightarrow> Return (Some i) | None \<Rightarrow> probe_and_allocate_ip fuel cfg client)"

definition handle_dhcp_discover :: "nat \<Rightarrow> 'n server_config \<Rightarrow> dhcp_message \<Rightarrow> mac \<Rightarrow> ('n, unit) task" where
  "handle_dhcp_discover fuel cfg dhcp client =
     bind_task (find_or_allocate_discover_ip fuel cfg client) (\<lambda>r.
     case r of
       None \<Rightarrow> Return ()
     | Some leased \<Rightarrow>
         bind_task (handle_confirm_lease client leased (from_secs (unat LAN_LEASE_SECS))
                      (extract_sanitized_hostname dhcp)) (\<lambda>_.
         Emit (SendOffer client (msg_xid dhcp) leased (msg_broadcast dhcp)) (Return ())))"

definition verify_arp_conflict :: "ip \<Rightarrow> mac \<Rightarrow> ('n, bool) task" where
  "verify_arp_conflict leased client =
     bind_task (trigger_arp_resolution leased) (\<lambda>_.
     bind_task (handle_check_conflict leased client) (\<lambda>c.
     if c then bind_task (handle_record_conflict leased CONFLICT_HOLD_DURATION) (\<lambda>_. Return True)
     else Return False))"

definition requested_ip_of :: "dhcp_message \<Rightarrow> ip option" where
  "requested_ip_of dhcp =
     (case msg_opts dhcp CodeRequestedIpAddress of
        Some (OptRequestedIpAddress i) \<Rightarrow> Some i
      | _ \<Rightarrow> if \<not> is_unspecified (msg_ciaddr dhcp) then Some (msg_ciaddr dhcp) else None)"

definition handle_dhcp_request :: "'n server_config \<Rightarrow> dhcp_message \<Rightarrow> mac \<Rightarrow> ('n, unit) task" where
  "handle_dhcp_request cfg dhcp client =
     (if \<not> should_process_request_server_id dhcp (server_ip cfg) then Return ()
      else
        bind_task (handle_validate_and_confirm client (requested_ip_of dhcp) (server_ip cfg) (server_net cfg)
                     (from_secs (unat LAN_LEASE_SECS)) (extract_sanitized_hostname dhcp)) (\<lambda>r.
        case r of
          None \<Rightarrow> Emit (SendNak client (msg_xid dhcp)) (Return ())
        | Some confirmation \<Rightarrow>
            bind_task (verify_arp_conflict (lc_ip confirmation) client) (\<lambda>conflict.
            if conflict then Emit (SendNak client (msg_xid dhcp)) (Return ())
            else
              Emit (SendAck client (msg_xid dhcp) (lc_ip confirmation) (msg_broadcast dhcp))
                (bind_task (case lc_old_hostname confirmation of
                              Some old \<Rightarrow> Emit (DeregisterLocalHost old) (Return ())
                            | None \<Rightarrow> Return ()) (\<lambda>_.
                 case lc_hostname confirmation of
                   Some n \<Rightarrow> Emit (RegisterLocalHost n (lc_ip confirmation)) (Return ())
                 | None \<Rightarrow> Return ())))))"

definition handle_dhcp_release :: "mac \<Rightarrow> ('n, unit) task" where
  "handle_dhcp_release client =
     bind_task (handle_release client) (\<lambda>r.
     case r of
       Some (i, Some n) \<Rightarrow> Emit (DeregisterLocalHost n) (Return ())
     | _ \<Rightarrow> Return ())"

definition process_incoming_packet ::
  "'n net_lib \<Rightarrow> pnet_lib \<Rightarrow> dhcp_lib \<Rightarrow> nat \<Rightarrow> 'n server_config \<Rightarrow> bytes \<Rightarrow> ('n, unit) task" where
  "process_incoming_packet L P D fuel cfg buf =
     (case parse_dhcp_payload P D buf SERVER_PORT of
        None \<Rightarrow> Return ()
      | Some dhcp \<Rightarrow>
          if msg_opcode dhcp \<noteq> BootRequest then Return ()
          else case extract_client_mac L dhcp of
            None \<Rightarrow> Return ()
          | Some client \<Rightarrow>
              if \<not> eth_ok P buf then Return ()
              else if is_spoofed_l2_packet (eth_source P buf) client (msg_giaddr dhcp) then Return ()
              else case msg_opts dhcp CodeMessageType of
                Some (OptMessageType mt) \<Rightarrow>
                  (case mt of
                     MtDiscover \<Rightarrow> handle_dhcp_discover fuel cfg dhcp client
                   | MtRequest \<Rightarrow> handle_dhcp_request cfg dhcp client
                   | MtDecline \<Rightarrow> handle_dhcp_release client
                   | MtRelease \<Rightarrow> handle_dhcp_release client
                   | _ \<Rightarrow> Return ())
              | _ \<Rightarrow> Return ())"

section \<open>Server loop\<close>

fun emit_all :: "dhcp_server_worker_to_parent list \<Rightarrow> ('n, unit) task" where
  "emit_all [] = Return ()"
| "emit_all (m # ms) = Emit m (emit_all ms)"

definition heartbeat_tick :: "('n, unit) task" where
  "heartbeat_tick =
     bind_task handle_get_active_leases (\<lambda>ls.
     Emit (ServerHeartbeat ls)
       (bind_task handle_evict_expired (\<lambda>names. emit_all (map DeregisterLocalHost names))))"

text \<open>
  One message of the parent. \<open>None\<close> is end of file or an error and ends the loop. The result
  says whether the loop goes on, and what is done: packets in a task of their own, the other
  messages in the loop itself.
\<close>

datatype 'n loop_action =
    Shutdown
  | Spawn "('n, unit) task"
  | Inline "('n, unit) task"

definition on_parent_msg ::
  "'n net_lib \<Rightarrow> pnet_lib \<Rightarrow> dhcp_lib \<Rightarrow> nat \<Rightarrow> 'n server_config \<Rightarrow> dhcp_server_parent_to_worker option
     \<Rightarrow> 'n loop_action" where
  "on_parent_msg L P D fuel cfg m =
     (case m of
        None \<Rightarrow> Shutdown
      | Some (ServerRawPacket frame) \<Rightarrow> Spawn (process_incoming_packet L P D fuel cfg frame)
      | Some (AddNeighborMsg i m) \<Rightarrow>
          Inline (if net_contains L (server_net cfg) i \<and> i \<noteq> server_ip cfg then handle_add_neighbor m i
                  else Return ())
      | Some (SetStaticLeasesMsg ls) \<Rightarrow> Inline (handle_set_static_leases ls))"

text \<open>The first message is awaited before the loop starts; only reservations are used of it.\<close>

definition sync_initial_static_leases ::
  "io_error + dhcp_server_parent_to_worker option \<Rightarrow> io_error + ('n, unit) task" where
  "sync_initial_static_leases m =
     (case m of
        Inr (Some (SetStaticLeasesMsg ls)) \<Rightarrow> Inr (handle_set_static_leases ls)
      | Inr (Some _) \<Rightarrow> Inr (Return ())
      | Inr None \<Rightarrow> Inl UnexpectedEof
      | Inl e \<Rightarrow> Inl ConnectionAborted)"

text \<open>
  The start of the worker, up to its loop: the LAN text it was given is parsed and, in the sandbox,
  the first message is awaited. The result is the configuration of the loop and what is done first.
\<close>

definition run_dhcp_server_worker ::
  "'n net_lib \<Rightarrow> string \<Rightarrow> io_error + dhcp_server_parent_to_worker option \<Rightarrow> io_error + 'n server_config \<times> ('n, unit) task" where
  "run_dhcp_server_worker L lan_ip first =
     (case net_parse L lan_ip of
        None \<Rightarrow> Inl InvalidInput
      | Some net \<Rightarrow>
          (case sync_initial_static_leases first of
             Inl e \<Rightarrow> Inl e
           | Inr p \<Rightarrow> Inr (\<lparr> server_ip = net_addr L net, server_net = net \<rparr>, p)))"

end
