(* ===== verification/Dhcp_System.thy ===== *)
theory Dhcp_System
  imports Dhcp_Worker
begin

text \<open>
  The DHCP worker as a whole: packet tasks and the server loop interleave freely, all of
  them served by the one lease actor. \<open>lease_service\<close> is the contract the tasks rely on, and
  \<open>task_ok\<close> the assume/guarantee reading of a task: whatever the actor answers within the
  contract, the commands and messages the task produces are good. The contract is proved for
  \<open>handle_lease_command\<close>, and the two together give the properties of every reachable state.
\<close>

section \<open>Assume/guarantee for tasks\<close>

text \<open>
  \<open>R c a\<close>: answer \<open>a\<close> is possible for command \<open>c\<close>. \<open>G c\<close>: command \<open>c\<close> may be sent. \<open>E m\<close>:
  message \<open>m\<close> may be sent to the parent. \<open>Q r\<close>: the result is as expected.
\<close>

primrec task_ok ::
  "('n lease_command \<Rightarrow> lease_reply \<Rightarrow> bool) \<Rightarrow> ('n lease_command \<Rightarrow> bool) \<Rightarrow>
   (dhcp_server_worker_to_parent \<Rightarrow> bool) \<Rightarrow> ('r \<Rightarrow> bool) \<Rightarrow> ('n, 'r) task \<Rightarrow> bool" where
  "task_ok R G E Q (Return r) \<longleftrightarrow> Q r"
| "task_ok R G E Q (Ask c k) \<longleftrightarrow>
     G c \<and> task_ok R G E Q (k None) \<and> (\<forall>a. R c a \<longrightarrow> task_ok R G E Q (k (Some a)))"
| "task_ok R G E Q (Emit m p) \<longleftrightarrow> E m \<and> task_ok R G E Q p"
| "task_ok R G E Q (Sleep d p) \<longleftrightarrow> task_ok R G E Q p"
| "task_ok R G E Q NoFuel \<longleftrightarrow> True"

lemma task_ok_AskI:
  assumes "G c" "task_ok R G E Q (k None)" "\<And>a. R c a \<Longrightarrow> task_ok R G E Q (k (Some a))"
  shows "task_ok R G E Q (Ask c k)"
  using assms by simp

lemma task_ok_bind:
  assumes "task_ok R G E Q p" "\<And>r. Q r \<Longrightarrow> task_ok R G E Q' (f r)"
  shows "task_ok R G E Q' (bind_task p f)"
  using assms by (induction p) auto

lemma task_ok_emit_all: "(\<And>m. m \<in> set ms \<Longrightarrow> E m) \<Longrightarrow> Q () \<Longrightarrow> task_ok R G E Q (emit_all ms)"
  by (induction ms) auto

section \<open>The contract of the lease actor\<close>

text \<open>
  \<open>pool i\<close> says that \<open>i\<close> is an address the server may hand out, \<open>host\<close> that it is moreover
  neither network nor broadcast address, \<open>label\<close> that a name is a well-formed host label.
  A client of the service must respect \<open>command_ok\<close>; in return its answers satisfy
  \<open>reply_ok\<close>, and \<open>table_inv\<close> stays true.
\<close>

definition pool :: "'n net_lib \<Rightarrow> 'n server_config \<Rightarrow> ip \<Rightarrow> bool" where
  "pool L cfg i \<longleftrightarrow> net_contains L (server_net cfg) i \<and> i \<noteq> server_ip cfg"

definition host :: "'n net_lib \<Rightarrow> 'n server_config \<Rightarrow> ip \<Rightarrow> bool" where
  "host L cfg i \<longleftrightarrow> pool L cfg i \<and> i \<noteq> net_network L (server_net cfg) \<and> i \<noteq> net_broadcast L (server_net cfg)"

definition label_opt :: "string option \<Rightarrow> bool" where
  "label_opt h = (case h of Some n \<Rightarrow> clean_label n | None \<Rightarrow> True)"

definition static_ok :: "'n net_lib \<Rightarrow> 'n server_config \<Rightarrow> static_lease \<Rightarrow> bool" where
  "static_ok L cfg s \<longleftrightarrow> pool L cfg (sl_ip s) \<and> label_opt (sl_hostname s)"

definition table_inv :: "'n net_lib \<Rightarrow> 'n server_config \<Rightarrow> lease_table \<Rightarrow> bool" where
  "table_inv L cfg t \<longleftrightarrow> finite (dom (by_mac t)) \<and> finite (dom (static_leases t))
     \<and> (\<forall>m l. by_mac t m = Some l \<longrightarrow> pool L cfg (cl_ip l) \<and> label_opt (cl_hostname l))
     \<and> (\<forall>m s. static_leases t m = Some s \<longrightarrow> static_ok L cfg s)"

fun command_ok :: "'n net_lib \<Rightarrow> 'n server_config \<Rightarrow> 'n lease_command \<Rightarrow> bool" where
  "command_ok L cfg (AllocateCandidate m net s) \<longleftrightarrow> net = server_net cfg \<and> s = server_ip cfg"
| "command_ok L cfg (ConfirmLease m i d h) \<longleftrightarrow> pool L cfg i \<and> label_opt h"
| "command_ok L cfg (ValidateAndConfirmRequest m req s net d h) \<longleftrightarrow>
     net = server_net cfg \<and> s = server_ip cfg \<and> label_opt h"
| "command_ok L cfg (AddNeighbor m i) \<longleftrightarrow> pool L cfg i"
| "command_ok L cfg (SetStaticLeases ls) \<longleftrightarrow> (\<forall>s \<in> set ls. static_ok L cfg s)"
| "command_ok L cfg _ \<longleftrightarrow> True"

fun reply_ok :: "'n net_lib \<Rightarrow> 'n server_config \<Rightarrow> 'n lease_command \<Rightarrow> lease_reply \<Rightarrow> bool" where
  "reply_ok L cfg (GetExistingIp m) (IpReply (Some i)) \<longleftrightarrow> pool L cfg i"
| "reply_ok L cfg (AllocateCandidate m net s) (IpReply (Some i)) \<longleftrightarrow> pool L cfg i"
| "reply_ok L cfg (ValidateAndConfirmRequest m req s net d h) (ConfirmReply (Some c)) \<longleftrightarrow>
     host L cfg (lc_ip c) \<and> label_opt (lc_hostname c) \<and> label_opt (lc_old_hostname c)"
| "reply_ok L cfg (Release m) (ReleaseReply (Some (i, h))) \<longleftrightarrow> label_opt h"
| "reply_ok L cfg EvictExpired (NamesReply hs) \<longleftrightarrow> (\<forall>h \<in> set hs. clean_label h)"
| "reply_ok L cfg _ _ \<longleftrightarrow> True"

locale lease_service =
  fixes serve :: "lease_env \<Rightarrow> 'n lease_command \<Rightarrow> 's \<Rightarrow> lease_reply \<times> 's"
    and good_env :: "'s \<Rightarrow> lease_env \<Rightarrow> bool"
    and inv :: "'s \<Rightarrow> bool"
    and may_ask :: "'n lease_command \<Rightarrow> bool"
    and answer_ok :: "'n lease_command \<Rightarrow> lease_reply \<Rightarrow> bool"
  assumes serve_inv: "inv s \<Longrightarrow> good_env s e \<Longrightarrow> may_ask c \<Longrightarrow> inv (snd (serve e c s))"
    and serve_answer: "inv s \<Longrightarrow> good_env s e \<Longrightarrow> may_ask c \<Longrightarrow> answer_ok c (fst (serve e c s))"
begin

text \<open>One exchange of a good task with the service leaves a good task and a good state.\<close>

lemma exchange:
  assumes "inv s" "good_env s e" "task_ok answer_ok may_ask E Q (Ask c k)"
  shows "inv (snd (serve e c s)) \<and> task_ok answer_ok may_ask E Q (k (Some (fst (serve e c s))))"
  using assms serve_inv serve_answer by simp

end

subsection \<open>The lease actor meets it\<close>

lemma table_inv_insert:
  assumes "table_inv L cfg t" "pool L cfg (cl_ip l)" "label_opt (cl_hostname l)"
  shows "table_inv L cfg (table_insert m l t)"
  using assms by (auto simp: table_inv_def)

lemma table_inv_evict:
  "table_inv L cfg t \<Longrightarrow> table_inv L cfg (snd (evict_expired now ks t))"
  by (auto simp: table_inv_def intro: finite_subset[OF dom_retain])

lemma table_inv_remove: "table_inv L cfg t \<Longrightarrow> table_inv L cfg (snd (table_remove m t))"
  by (auto simp: table_inv_def)

lemma table_inv_set_static:
  assumes "table_inv L cfg t" "\<forall>s \<in> set ls. static_ok L cfg s"
  shows "table_inv L cfg (set_static_leases ls t)"
proof -
  obtain t' m' r' where f: "fold set_static_step ls (t, Map.empty, {}) = (t', m', r')"
    by (metis prod_cases3)
  have sub: "by_mac (set_static_leases ls t) \<subseteq>\<^sub>m by_mac t"
    unfolding map_le_def by (metis domD set_static_leases_facts(3))
  have st: "\<And>k s. m' k = Some s \<Longrightarrow> s \<in> set ls \<and> sl_mac s = k"
    using set_static_fold(2)[OF f] by auto
  then have "dom m' \<subseteq> sl_mac ` set ls" by (auto simp: dom_def image_iff)
  then have "finite (dom m')" by (rule finite_subset) simp
  with st assms sub show ?thesis
    by (auto simp: table_inv_def set_static_leases_def f intro: finite_subset[OF map_le_implies_dom_le]
        dest: map_le_implies_dom_le) (metis domI map_le_def)+
qed

lemma table_inv_static: "table_inv L cfg t \<Longrightarrow> static_leases t m = Some s \<Longrightarrow> static_ok L cfg s"
  by (simp add: table_inv_def)

lemma table_inv_entry:
  "table_inv L cfg t \<Longrightarrow> by_mac t m = Some l \<Longrightarrow> pool L cfg (cl_ip l) \<and> label_opt (cl_hostname l)"
  by (simp add: table_inv_def)

lemma label_opt_simps [simp]: "label_opt None" "label_opt (Some n) = clean_label n"
  by (simp_all add: label_opt_def)

lemma allocate_contract:
  assumes "net_laws L" "table_inv L cfg t" "iterates ks (by_mac t)"
  shows "table_inv L cfg (snd (allocate_candidate L now ks m (server_net cfg) (server_ip cfg) t))"
    and "fst (allocate_candidate L now ks m (server_net cfg) (server_ip cfg) t) = Some i \<Longrightarrow> pool L cfg i"
proof -
  obtain r t' where eq: "allocate_candidate L now ks m (server_net cfg) (server_ip cfg) t = (r, t')"
    by (metis surj_pair)
  note props = allocate_candidate_props[OF assms(1,3) eq]
  show "pool L cfg i" if "fst (allocate_candidate L now ks m (server_net cfg) (server_ip cfg) t) = Some i"
    using that props(1) by (simp add: eq pool_def)
  have pool: "\<And>i. r = Some i \<Longrightarrow> pool L cfg i" using props(1) by (simp add: pool_def)
  show "table_inv L cfg (snd (allocate_candidate L now ks m (server_net cfg) (server_ip cfg) t))"
  proof (cases "static_leases t m")
    case None
    show ?thesis
      using eq pool table_inv_evict[OF assms(2), of now ks]
      by (auto simp: allocate_candidate_dynamic_eq[OF None] intro!: table_inv_insert split: option.splits)
  next
    case (Some s)
    then show ?thesis
      using assms(2) table_inv_static[OF assms(2) Some]
      by (auto simp: allocate_candidate_def static_ok_def intro!: table_inv_insert)
  qed
qed

lemma granted_label:
  assumes "table_inv L cfg t" "label_opt h"
  shows "label_opt (granted_hostname now m h t)"
proof (cases "Option.bind (static_leases t m) sl_hostname")
  case None
  then show ?thesis using assms(2) by (auto simp: granted_hostname_def split: option.splits)
next
  case (Some n)
  then obtain s where "static_leases t m = Some s" "sl_hostname s = Some n"
    by (auto simp: bind_eq_Some_conv)
  with table_inv_static[OF assms(1)] have "clean_label n" by (fastforce simp: static_ok_def)
  with Some show ?thesis by (simp add: granted_hostname_def)
qed

lemma validate_contract:
  assumes "table_inv L cfg t" "iterates ks (by_mac t)" "label_opt h"
    and eq: "validate_and_confirm L now ks m req (server_ip cfg) (server_net cfg) d h t = (r, t')"
  shows "table_inv L cfg t'"
    and "r = Some c \<Longrightarrow> host L cfg (lc_ip c) \<and> label_opt (lc_hostname c) \<and> label_opt (lc_old_hostname c)"
proof -
  note names = granted_label[OF assms(1,3), of now m]
  have old: "label_opt (Option.bind (by_mac t m) cl_hostname)"
    using table_inv_entry[OF assms(1)] by (cases "by_mac t m") auto
  have host: "host L cfg i" if "grantable L now m (server_ip cfg) (server_net cfg) t i" for i
    using that by (simp add: grantable_def host_def pool_def)
  show "table_inv L cfg t'"
    using eq names host assms(1) unfolding validate_and_confirm_eq[OF assms(2)]
    by (auto simp: host_def intro!: table_inv_insert split: option.splits if_splits)
  show "host L cfg (lc_ip c) \<and> label_opt (lc_hostname c) \<and> label_opt (lc_old_hostname c)" if "r = Some c"
    using eq names host old that unfolding validate_and_confirm_eq[OF assms(2)]
    by (auto simp: old_hostname_to_deregister_def label_opt_def split: option.splits if_splits)
qed

lemma neighbor_contract:
  assumes "table_inv L cfg t" "pool L cfg i"
  shows "table_inv L cfg (update_from_neighbor L now m i t)"
proof -
  have "label_opt (Option.bind (static_leases t m) sl_hostname)"
    using table_inv_static[OF assms(1)] by (cases "static_leases t m") (auto simp: static_ok_def)
  with assms show ?thesis by (auto simp: update_from_neighbor_def intro!: table_inv_insert)
qed

lemma evict_names_clean:
  assumes "table_inv L cfg t" "iterates ks (by_mac t)" "h \<in> set (fst (evict_expired now ks t))"
  shows "clean_label h"
proof -
  from assms(3) obtain m l where "by_mac t m = Some l" "cl_hostname l = Some h"
    using set_expired_names[OF assms(2)] by auto
  with table_inv_entry[OF assms(1)] show ?thesis by fastforce
qed

definition env_of :: "lease_table \<Rightarrow> lease_env \<Rightarrow> bool" where
  "env_of t e \<longleftrightarrow> iterates (env_macs e) (by_mac t) \<and> iterates (env_statics e) (static_leases t)"

lemma command_keeps_inv:
  assumes "net_laws L" "table_inv L cfg t" "env_of t e" "command_ok L cfg c"
  shows "table_inv L cfg (snd (handle_lease_command L e c t))"
  using assms
proof (cases c)
  case (ValidateAndConfirmRequest m req s net d h)
  then show ?thesis
    using assms validate_contract(1)[OF assms(2)] by (auto simp: env_of_def split: prod.splits)
qed (auto simp: env_of_def case_prod_beta table_inv_insert table_inv_evict table_inv_remove
    table_inv_set_static allocate_contract(1) neighbor_contract record_conflict_def
    table_inv_def[of _ _ "_\<lparr>conflicts := _\<rparr>"] table_inv_def[of _ _ t])

lemma command_answers:
  assumes "net_laws L" "table_inv L cfg t" "env_of t e" "command_ok L cfg c"
  shows "reply_ok L cfg c (fst (handle_lease_command L e c t))"
proof (cases c)
  case (GetExistingIp m)
  then show ?thesis
    using table_inv_static[OF assms(2)] table_inv_entry[OF assms(2)]
    by (cases "static_leases t m"; cases "by_mac t m") (auto simp: static_ok_def)
next
  case (AllocateCandidate m net s)
  then show ?thesis
    using assms allocate_contract(2)[OF assms(1,2)]
    by (cases "fst (allocate_candidate L (env_now e) (env_macs e) m net s t)")
      (auto simp: env_of_def case_prod_beta)
next
  case (ValidateAndConfirmRequest m req s net d h)
  then show ?thesis
    using assms validate_contract(2)[OF assms(2)]
    by (cases "fst (validate_and_confirm L (env_now e) (env_macs e) m req s net d h t)")
      (auto simp: env_of_def case_prod_beta prod_eq_iff)
next
  case (Release m)
  then show ?thesis
    using table_inv_entry[OF assms(2)] by (cases "by_mac t m") (auto simp: case_prod_beta)
next
  case EvictExpired
  then show ?thesis
    using evict_names_clean[OF assms(2)] assms(3) by (auto simp: env_of_def case_prod_beta)
qed (auto simp: case_prod_beta)

text \<open>
  The lease actor is a lease service over every network library that obeys the laws, so the
  contract is available wherever those laws are.
\<close>

sublocale net_laws \<subseteq> lease_actor: lease_service "handle_lease_command L" env_of "table_inv L cfg"
    "command_ok L cfg" "reply_ok L cfg" for cfg
  using command_keeps_inv[OF net_laws_axioms] command_answers[OF net_laws_axioms]
  by unfold_locales auto

context net_laws
begin

lemma actor_exchange:
  assumes "table_inv L cfg t" "env_of t e"
    and "task_ok (reply_ok L cfg) (command_ok L cfg) E Q (Ask c k)"
  shows "table_inv L cfg (snd (handle_lease_command L e c t))
    \<and> task_ok (reply_ok L cfg) (command_ok L cfg) E Q (k (Some (fst (handle_lease_command L e c t))))"
  using lease_actor.exchange[OF assms] .

end

section \<open>Good tasks\<close>

fun message_ok :: "'n net_lib \<Rightarrow> 'n server_config \<Rightarrow> dhcp_server_worker_to_parent \<Rightarrow> bool" where
  "message_ok L cfg (SendOffer m x i b) \<longleftrightarrow> pool L cfg i"
| "message_ok L cfg (SendAck m x i b) \<longleftrightarrow> host L cfg i"
| "message_ok L cfg (ProbeArpConflict i) \<longleftrightarrow> pool L cfg i"
| "message_ok L cfg (RegisterLocalHost n i) \<longleftrightarrow> clean_label n \<and> host L cfg i"
| "message_ok L cfg (DeregisterLocalHost n) \<longleftrightarrow> clean_label n"
| "message_ok L cfg _ \<longleftrightarrow> True"

abbreviation good_task :: "'n net_lib \<Rightarrow> 'n server_config \<Rightarrow> ('r \<Rightarrow> bool) \<Rightarrow> ('n, 'r) task \<Rightarrow> bool" where
  "good_task L cfg \<equiv> task_ok (reply_ok L cfg) (command_ok L cfg) (message_ok L cfg)"

abbreviation pool_opt :: "'n net_lib \<Rightarrow> 'n server_config \<Rightarrow> ip option \<Rightarrow> bool" where
  "pool_opt L cfg r \<equiv> (\<forall>i. r = Some i \<longrightarrow> pool L cfg i)"

lemma label_opt_hostname: "label_opt (extract_sanitized_hostname dhcp)"
  by (auto simp: extract_sanitized_hostname_def label_opt_def sanitize_hostname_clean
      split: option.splits dhcp_option.splits)

lemma ip_reply_pool:
  assumes "\<And>i. a = IpReply (Some i) \<Longrightarrow> pool L cfg i"
  shows "task_ok R G E (pool_opt L cfg) (case a of IpReply r \<Rightarrow> Return r | _ \<Rightarrow> Return None)"
  using assms by (cases a) simp_all

lemma good_existing: "good_task L cfg (pool_opt L cfg) (handle_get_existing_ip m)"
  unfolding handle_get_existing_ip_def
  by (rule task_ok_AskI) (auto intro!: ip_reply_pool)

lemma good_allocate:
  "good_task L cfg (pool_opt L cfg) (handle_allocate_candidate m (server_net cfg) (server_ip cfg))"
  unfolding handle_allocate_candidate_def
  by (rule task_ok_AskI) (auto intro!: ip_reply_pool)

lemma good_probe: "pool L cfg i \<Longrightarrow> good_task L cfg (\<lambda>_. True) (trigger_arp_resolution i)"
  by (simp add: trigger_arp_resolution_def)

lemma good_check: "good_task L cfg (\<lambda>_. True) (handle_check_conflict i m)"
  by (simp add: handle_check_conflict_def split: lease_reply.splits)

lemma good_record: "good_task L cfg (\<lambda>_. True) (handle_record_conflict i d)"
  by (simp add: handle_record_conflict_def)

lemma good_probe_and_allocate: "good_task L cfg (pool_opt L cfg) (probe_and_allocate_ip fuel cfg m)"
proof (induction fuel)
  case (Suc fuel)
  show ?case
    unfolding probe_and_allocate_ip.simps
  proof (rule task_ok_bind[OF good_allocate])
    fix r assume r: "pool_opt L cfg r"
    show "good_task L cfg (pool_opt L cfg) (case r of None \<Rightarrow> Return None
        | Some i \<Rightarrow> bind_task (trigger_arp_resolution i) (\<lambda>_. bind_task (handle_check_conflict i m)
            (\<lambda>c. if c then bind_task (handle_record_conflict i CONFLICT_HOLD_DURATION)
                  (\<lambda>_. probe_and_allocate_ip fuel cfg m) else Return (Some i))))"
      using r Suc by (cases r) (auto intro!: task_ok_bind[OF good_probe] task_ok_bind[OF good_check]
          task_ok_bind[OF good_record])
  qed
qed simp

lemma good_discover: "good_task L cfg (\<lambda>_. True) (handle_dhcp_discover fuel cfg dhcp m)"
proof -
  have "good_task L cfg (pool_opt L cfg) (find_or_allocate_discover_ip fuel cfg m)"
    unfolding find_or_allocate_discover_ip_def
    by (rule task_ok_bind[OF good_existing]) (auto simp: good_probe_and_allocate split: option.splits)
  then show ?thesis
    unfolding handle_dhcp_discover_def
    by (rule task_ok_bind)
      (auto simp: handle_confirm_lease_def label_opt_hostname split: option.splits)
qed

lemma good_validate:
  assumes "label_opt h"
  shows "good_task L cfg
    (\<lambda>r. \<forall>c. r = Some c \<longrightarrow> host L cfg (lc_ip c) \<and> label_opt (lc_hostname c) \<and> label_opt (lc_old_hostname c))
    (handle_validate_and_confirm m req (server_ip cfg) (server_net cfg) d h)"
  unfolding handle_validate_and_confirm_def
proof (rule task_ok_AskI)
  fix a assume a: "reply_ok L cfg (ValidateAndConfirmRequest m req (server_ip cfg) (server_net cfg) d h) a"
  then show "good_task L cfg
    (\<lambda>r. \<forall>c. r = Some c \<longrightarrow> host L cfg (lc_ip c) \<and> label_opt (lc_hostname c) \<and> label_opt (lc_old_hostname c))
    (case Some a of Some (ConfirmReply r) \<Rightarrow> Return r | _ \<Rightarrow> Return None)"
    by (cases a) auto
qed (use assms in simp_all)

lemma host_pool: "host L cfg i \<Longrightarrow> pool L cfg i"
  by (simp add: host_def)

lemma good_verify: "pool L cfg i \<Longrightarrow> good_task L cfg (\<lambda>_. True) (verify_arp_conflict i m)"
  unfolding verify_arp_conflict_def
  by (auto intro!: task_ok_bind[OF good_probe] task_ok_bind[OF good_check] task_ok_bind[OF good_record])

lemma good_request: "good_task L cfg (\<lambda>_. True) (handle_dhcp_request cfg dhcp m)"
proof -
  have tail: "good_task L cfg (\<lambda>_. True) (case r of
      None \<Rightarrow> Emit (SendNak m x) (Return ())
    | Some c \<Rightarrow> bind_task (verify_arp_conflict (lc_ip c) m) (\<lambda>conflict.
        if conflict then Emit (SendNak m x) (Return ())
        else Emit (SendAck m x (lc_ip c) b)
          (bind_task (case lc_old_hostname c of Some old \<Rightarrow> Emit (DeregisterLocalHost old) (Return ()) | None \<Rightarrow> Return ())
            (\<lambda>_. case lc_hostname c of Some n \<Rightarrow> Emit (RegisterLocalHost n (lc_ip c)) (Return ()) | None \<Rightarrow> Return ()))))"
    if r: "\<forall>c. r = Some c \<longrightarrow> host L cfg (lc_ip c) \<and> label_opt (lc_hostname c) \<and> label_opt (lc_old_hostname c)"
    for r x b
  proof (cases r)
    case (Some c)
    with r have c: "host L cfg (lc_ip c)" "label_opt (lc_hostname c)" "label_opt (lc_old_hostname c)" by auto
    show ?thesis
      using c unfolding Some option.case
      by (intro task_ok_bind[OF good_verify[OF host_pool]])
        (auto intro!: task_ok_bind[where Q = "\<lambda>_. True"] split: option.splits)
  qed simp
  show ?thesis
    unfolding handle_dhcp_request_def
    by (auto intro!: task_ok_bind[OF good_validate[OF label_opt_hostname]] tail)
qed

lemma good_release: "good_task L cfg (\<lambda>_. True) (handle_dhcp_release m)"
proof -
  have "good_task L cfg (\<lambda>r. \<forall>i h. r = Some (i, h) \<longrightarrow> label_opt h) (handle_release m)"
    unfolding handle_release_def
  proof (rule task_ok_AskI)
    fix a assume "reply_ok L cfg (Release m) a"
    then show "good_task L cfg (\<lambda>r. \<forall>i h. r = Some (i, h) \<longrightarrow> label_opt h)
        (case Some a of Some (ReleaseReply r) \<Rightarrow> Return r | _ \<Rightarrow> Return None)"
      by (cases a) auto
  qed simp_all
  then show ?thesis
    unfolding handle_dhcp_release_def by (rule task_ok_bind) (auto split: option.splits)
qed

lemma good_heartbeat: "good_task L cfg (\<lambda>_. True) heartbeat_tick"
proof -
  have "good_task L cfg (\<lambda>_. True) handle_get_active_leases"
    by (simp add: handle_get_active_leases_def split: lease_reply.splits)
  moreover have "good_task L cfg (\<lambda>hs. \<forall>h \<in> set hs. clean_label h) handle_evict_expired"
    unfolding handle_evict_expired_def
  proof (rule task_ok_AskI)
    fix a assume "reply_ok L cfg EvictExpired a"
    then show "good_task L cfg (\<lambda>hs. \<forall>h \<in> set hs. clean_label h)
        (case Some a of Some (NamesReply r) \<Rightarrow> Return r | _ \<Rightarrow> Return [])"
      by (cases a) auto
  qed simp_all
  then have "good_task L cfg (\<lambda>_. True)
      (bind_task handle_evict_expired (\<lambda>names. emit_all (map DeregisterLocalHost names)))"
    by (rule task_ok_bind) (auto intro!: task_ok_emit_all)
  ultimately show ?thesis
    unfolding heartbeat_tick_def by (auto intro: task_ok_bind)
qed

lemma good_packet: "good_task L cfg (\<lambda>_. True) (process_incoming_packet L P D fuel cfg buf)"
  unfolding process_incoming_packet_def
  by (simp add: good_discover good_request good_release split: option.split dhcp_option.split message_type.split)

section \<open>The interleaved system\<close>

text \<open>
  Steps of the worker process. Any runnable task may move next. The parent's messages and
  the heartbeat start tasks; that the loop itself runs some of them to their end before it
  looks at the next message is one of the interleavings considered. A sleeping task may wake
  up at any time, and an \<open>Ask\<close> may also find the actor gone.
\<close>

record 'n dhcp_sys =
  sys_now :: instant
  sys_table :: lease_table
  sys_tasks :: "('n, unit) task list"
  sys_sent :: "dhcp_server_worker_to_parent list"

definition init_sys :: "instant \<Rightarrow> 'n dhcp_sys" where
  "init_sys now = \<lparr> sys_now = now, sys_table = table_new, sys_tasks = [], sys_sent = [] \<rparr>"

fun parent_msg_ok :: "'n net_lib \<Rightarrow> 'n server_config \<Rightarrow> dhcp_server_parent_to_worker \<Rightarrow> bool" where
  "parent_msg_ok L cfg (SetStaticLeasesMsg ls) \<longleftrightarrow> (\<forall>s \<in> set ls. static_ok L cfg s)"
| "parent_msg_ok L cfg _ \<longleftrightarrow> True"

inductive sys_step ::
  "'n net_lib \<Rightarrow> pnet_lib \<Rightarrow> dhcp_lib \<Rightarrow> nat \<Rightarrow> 'n server_config \<Rightarrow> 'n dhcp_sys \<Rightarrow> 'n dhcp_sys \<Rightarrow> bool"
  for L P D fuel cfg where
  step_time: "sys_now s \<le> now \<Longrightarrow> sys_step L P D fuel cfg s (s\<lparr> sys_now := now \<rparr>)"
| step_cleanup: "env_of (sys_table s) e \<Longrightarrow> env_now e = sys_now s \<Longrightarrow>
    sys_step L P D fuel cfg s (s\<lparr> sys_table := snd (lease_actor_event L e CleanupTick (sys_table s)) \<rparr>)"
| step_heartbeat: "sys_step L P D fuel cfg s (s\<lparr> sys_tasks := sys_tasks s @ [heartbeat_tick] \<rparr>)"
| step_message: "on_parent_msg L P D fuel cfg (Some m) = Spawn p \<or> on_parent_msg L P D fuel cfg (Some m) = Inline p \<Longrightarrow>
    parent_msg_ok L cfg m \<Longrightarrow> sys_step L P D fuel cfg s (s\<lparr> sys_tasks := sys_tasks s @ [p] \<rparr>)"
| step_ask: "i < length (sys_tasks s) \<Longrightarrow> sys_tasks s ! i = Ask c k \<Longrightarrow>
    env_of (sys_table s) e \<Longrightarrow> env_now e = sys_now s \<Longrightarrow>
    lease_actor_event L e (Recv c) (sys_table s) = (a, t') \<Longrightarrow>
    sys_step L P D fuel cfg s (s\<lparr> sys_table := t', sys_tasks := (sys_tasks s)[i := k (Some a)] \<rparr>)"
| step_gone: "i < length (sys_tasks s) \<Longrightarrow> sys_tasks s ! i = Ask c k \<Longrightarrow>
    sys_step L P D fuel cfg s (s\<lparr> sys_tasks := (sys_tasks s)[i := k None] \<rparr>)"
| step_emit: "i < length (sys_tasks s) \<Longrightarrow> sys_tasks s ! i = Emit m p \<Longrightarrow>
    sys_step L P D fuel cfg s (s\<lparr> sys_tasks := (sys_tasks s)[i := p], sys_sent := sys_sent s @ [m] \<rparr>)"
| step_wake: "i < length (sys_tasks s) \<Longrightarrow> sys_tasks s ! i = Sleep d p \<Longrightarrow>
    sys_step L P D fuel cfg s (s\<lparr> sys_tasks := (sys_tasks s)[i := p] \<rparr>)"

inductive_cases sys_stepE: "sys_step L P D fuel cfg s s'"

definition sys_inv :: "'n net_lib \<Rightarrow> 'n server_config \<Rightarrow> 'n dhcp_sys \<Rightarrow> bool" where
  "sys_inv L cfg s \<longleftrightarrow> table_inv L cfg (sys_table s)
     \<and> (\<forall>p \<in> set (sys_tasks s). good_task L cfg (\<lambda>_. True) p)
     \<and> (\<forall>m \<in> set (sys_sent s). message_ok L cfg m)"

lemma good_parent_msg:
  assumes "on_parent_msg L P D fuel cfg (Some m) = Spawn p \<or> on_parent_msg L P D fuel cfg (Some m) = Inline p"
    and "parent_msg_ok L cfg m"
  shows "good_task L cfg (\<lambda>_. True) p"
  using assms
  by (cases m) (auto simp: on_parent_msg_def good_packet handle_add_neighbor_def
      handle_set_static_leases_def pool_def split: if_splits)

lemma sys_inv_task:
  assumes "sys_inv L cfg s" "i < length (sys_tasks s)" "good_task L cfg (\<lambda>_. True) p"
  shows "\<forall>q \<in> set ((sys_tasks s)[i := p]). good_task L cfg (\<lambda>_. True) q"
proof
  fix q assume "q \<in> set ((sys_tasks s)[i := p])"
  then have "q \<in> insert p (set (sys_tasks s))" using set_update_subset_insert[of "sys_tasks s" i p] by blast
  with assms show "good_task L cfg (\<lambda>_. True) q" by (auto simp: sys_inv_def)
qed

lemma sys_inv_step:
  assumes "net_laws L" "sys_inv L cfg s" "sys_step L P D fuel cfg s s'"
  shows "sys_inv L cfg s'"
proof -
  have task: "good_task L cfg (\<lambda>_. True) (sys_tasks s ! i)" if "i < length (sys_tasks s)" for i
    using assms(2) that by (simp add: sys_inv_def)
  note upd = sys_inv_task[OF assms(2)]
  note inv = assms(2)[unfolded sys_inv_def]
  show ?thesis
    using assms(3)
  proof cases
    case (step_cleanup e)
    then show ?thesis using inv by (simp add: sys_inv_def table_inv_evict)
  next
    case (step_message m p)
    have "good_task L cfg (\<lambda>_. True) p" by (rule good_parent_msg[OF step_message(2,3)])
    then show ?thesis using step_message(1) inv by (auto simp: sys_inv_def)
  next
    case (step_ask i c k e a t')
    then have "table_inv L cfg t' \<and> good_task L cfg (\<lambda>_. True) (k (Some a))"
      using net_laws.actor_exchange[OF assms(1), of cfg "sys_table s" e "message_ok L cfg" "\<lambda>_. True" c k]
        inv task[of i] by simp
    with step_ask inv upd[of i "k (Some a)"] show ?thesis by (simp add: sys_inv_def)
  next
    case (step_gone i c k)
    then have "good_task L cfg (\<lambda>_. True) (k None)" using task[of i] by simp
    with upd[OF step_gone(2) this] inv show ?thesis unfolding step_gone(1) by (simp add: sys_inv_def)
  next
    case (step_emit i m p)
    then have "message_ok L cfg m" "good_task L cfg (\<lambda>_. True) p" using task[of i] by simp_all
    with upd[OF step_emit(2) this(2)] inv show ?thesis unfolding step_emit(1) by (auto simp: sys_inv_def)
  next
    case (step_wake i d p)
    then have "good_task L cfg (\<lambda>_. True) p" using task[of i] by simp
    with upd[OF step_wake(2) this] inv show ?thesis unfolding step_wake(1) by (simp add: sys_inv_def)
  qed (use inv good_heartbeat in \<open>auto simp: sys_inv_def\<close>)
qed

lemma sys_inv_init: "sys_inv L cfg (init_sys now)"
  by (simp add: sys_inv_def init_sys_def table_inv_def table_new_def)

lemma sys_inv_reachable:
  assumes "net_laws L" "(sys_step L P D fuel cfg)\<^sup>*\<^sup>* (init_sys now) s"
  shows "sys_inv L cfg s"
  using assms(2) by (induction rule: rtranclp_induct) (auto intro: sys_inv_init sys_inv_step[OF assms(1)])


section \<open>Replies belong to their requests\<close>

fun reply_for :: "mac \<Rightarrow> dhcp_message \<Rightarrow> dhcp_server_worker_to_parent \<Rightarrow> bool" where
  "reply_for client dhcp (SendOffer m x i b) \<longleftrightarrow> m = client \<and> x = msg_xid dhcp \<and> b = msg_broadcast dhcp
     \<and> msg_opts dhcp CodeMessageType = Some (OptMessageType MtDiscover)"
| "reply_for client dhcp (SendAck m x i b) \<longleftrightarrow> m = client \<and> x = msg_xid dhcp \<and> b = msg_broadcast dhcp
     \<and> msg_opts dhcp CodeMessageType = Some (OptMessageType MtRequest)"
| "reply_for client dhcp (SendNak m x) \<longleftrightarrow> m = client \<and> x = msg_xid dhcp
     \<and> msg_opts dhcp CodeMessageType = Some (OptMessageType MtRequest)"
| "reply_for client dhcp (ServerHeartbeat ls) \<longleftrightarrow> False"
| "reply_for client dhcp _ \<longleftrightarrow> True"

definition well_formed_request :: "'n net_lib \<Rightarrow> pnet_lib \<Rightarrow> dhcp_lib \<Rightarrow> bytes \<Rightarrow> mac \<Rightarrow> dhcp_message \<Rightarrow> bool" where
  "well_formed_request L P D buf client dhcp \<longleftrightarrow>
     parse_dhcp_payload P D buf SERVER_PORT = Some dhcp \<and> msg_opcode dhcp = BootRequest
     \<and> extract_client_mac L dhcp = Some client \<and> eth_ok P buf
     \<and> (eth_source P buf = client \<or> \<not> is_unspecified (msg_giaddr dhcp))"

text \<open>Messages of a task whatever it is answered.\<close>

abbreviation emits_only :: "(dhcp_server_worker_to_parent \<Rightarrow> bool) \<Rightarrow> ('n, 'r) task \<Rightarrow> bool" where
  "emits_only E \<equiv> task_ok (\<lambda>_ _. True) (\<lambda>_. True) E (\<lambda>_. True)"

lemma replies_helpers:
  assumes "\<And>i. E (ProbeArpConflict i)"
  shows "emits_only E (handle_get_existing_ip m)" "emits_only E (trigger_arp_resolution i)"
    "emits_only E (handle_check_conflict i m)" "emits_only E (handle_record_conflict i d)"
    "emits_only E (handle_allocate_candidate m n sip)" "emits_only E (handle_release m)"
    "emits_only E (handle_confirm_lease m i d h)"
    "emits_only E (handle_validate_and_confirm m req sip n d h)"
  using assms
  by (simp_all add: handle_get_existing_ip_def trigger_arp_resolution_def handle_check_conflict_def
      handle_record_conflict_def handle_allocate_candidate_def handle_release_def handle_confirm_lease_def
      handle_validate_and_confirm_def split: lease_reply.splits)

lemma replies_probe:
  assumes "\<And>i. E (ProbeArpConflict i)"
  shows "emits_only E (probe_and_allocate_ip fuel cfg m)"
proof (induction fuel)
  case (Suc fuel)
  then show ?case
    by (auto intro!: task_ok_bind[where Q = "\<lambda>_. True"] replies_helpers assms split: option.split)
qed simp

text \<open>
  C8. The worker reacts to a frame only if it is a well-formed DHCP request whose hardware
  address agrees with the Ethernet source (unless it came through a relay agent); every
  other frame is dropped without any command or message. Offers answer only DHCPDISCOVER,
  acknowledgements and refusals only DHCPREQUEST, and each carries the hardware address,
  the transaction id and the broadcast flag of the request it answers. This holds whatever
  the lease actor replies.
\<close>

theorem packet_replies_match:
  "((\<nexists>client dhcp. well_formed_request L P D buf client dhcp) \<longrightarrow>
      process_incoming_packet L P D fuel cfg buf = Return ())
   \<and> (\<forall>client dhcp. well_formed_request L P D buf client dhcp \<longrightarrow>
      emits_only (reply_for client dhcp)
        (process_incoming_packet L P D fuel cfg buf))"
proof (intro conjI impI allI)
  assume "\<nexists>client dhcp. well_formed_request L P D buf client dhcp"
  then show "process_incoming_packet L P D fuel cfg buf = Return ()"
    by (auto simp: process_incoming_packet_def well_formed_request_def is_spoofed_l2_packet_def
        split: option.splits)
next
  fix client dhcp assume wf: "well_formed_request L P D buf client dhcp"
  let ?ok = "emits_only (reply_for client dhcp)"
  note h = task_ok_bind[where Q = "\<lambda>_. True"] replies_helpers replies_probe
  have d: "?ok (handle_dhcp_discover fuel cfg dhcp client)"
    if "msg_opts dhcp CodeMessageType = Some (OptMessageType MtDiscover)"
    unfolding handle_dhcp_discover_def find_or_allocate_discover_ip_def
    using that by (auto intro!: h split: option.split)
  have r: "?ok (handle_dhcp_request cfg dhcp client)"
    if "msg_opts dhcp CodeMessageType = Some (OptMessageType MtRequest)"
    unfolding handle_dhcp_request_def verify_arp_conflict_def
    using that by (auto intro!: h split: option.split)
  have l: "?ok (handle_dhcp_release client)"
    unfolding handle_dhcp_release_def by (auto intro!: h split: option.split)
  show "?ok (process_incoming_packet L P D fuel cfg buf)"
    using wf d r l
    by (auto simp: process_incoming_packet_def well_formed_request_def
        split: option.split dhcp_option.split message_type.split)
qed

end
