(* ===== verification/Dhcp_Runs.thy ===== *)
theory Dhcp_Runs
  imports Dhcp_System Packet_Wire
begin

text \<open>
  Complete exchanges of the DHCP worker. \<open>run_task\<close> runs one task to its end without
  interference and collects its messages; such a run is one of the behaviours of the
  interleaved system. With it the DISCOVER and REQUEST handlers are characterized on every
  branch.
\<close>

section \<open>Undisturbed runs\<close>

primrec run_task ::
  "'n net_lib \<Rightarrow> ('n, 'r) task \<Rightarrow> lease_env list \<Rightarrow> lease_table
     \<Rightarrow> dhcp_server_worker_to_parent list \<times> lease_table \<times> 'r option" where
  "run_task L (Return r) = (\<lambda>es t. ([], t, Some r))"
| "run_task L (Ask c k) = (\<lambda>es t. case es of
     [] \<Rightarrow> ([], t, None)
   | e # es' \<Rightarrow> (case handle_lease_command L e c t of (a, t') \<Rightarrow> run_task L (k (Some a)) es' t'))"
| "run_task L (Emit m p) = (\<lambda>es t. case run_task L p es t of (ms, t', r) \<Rightarrow> (m # ms, t', r))"
| "run_task L (Sleep d p) = run_task L p"
| "run_task L NoFuel = (\<lambda>es t. ([], t, None))"

text \<open>The environments fit the tables they meet, and the clock does not go back.\<close>

primrec run_fits :: "'n net_lib \<Rightarrow> ('n, 'r) task \<Rightarrow> lease_env list \<Rightarrow> instant \<Rightarrow> lease_table \<Rightarrow> bool" where
  "run_fits L (Return r) = (\<lambda>es now t. True)"
| "run_fits L (Ask c k) = (\<lambda>es now t. case es of
     [] \<Rightarrow> False
   | e # es' \<Rightarrow> now \<le> env_now e \<and> env_of t e
       \<and> (case handle_lease_command L e c t of (a, t') \<Rightarrow> run_fits L (k (Some a)) es' (env_now e) t'))"
| "run_fits L (Emit m p) = run_fits L p"
| "run_fits L (Sleep d p) = run_fits L p"
| "run_fits L NoFuel = (\<lambda>es now t. False)"

lemma run_task_reaches:
  assumes "run_fits L p es now t" "run_task L p es t = (ms, t', r)"
  shows "\<exists>now'. (sys_step L P D fuel cfg)\<^sup>*\<^sup>* \<lparr> sys_now = now, sys_table = t, sys_tasks = [p], sys_sent = sent \<rparr>
    \<lparr> sys_now = now', sys_table = t', sys_tasks = [Return ()], sys_sent = sent @ ms \<rparr>"
  using assms
proof (induction p arbitrary: es now t ms sent)
  case (Return u)
  then show ?case by auto
next
  case (Ask c k)
  from Ask.prems(1) obtain e es' where es: "es = e # es'" "now \<le> env_now e" "env_of t e"
    by (auto split: list.splits)
  obtain a t1 where h: "handle_lease_command L e c t = (a, t1)" by (metis surj_pair)
  let ?s = "\<lambda>now t p. \<lparr> sys_now = now, sys_table = t, sys_tasks = [p], sys_sent = sent \<rparr>"
  have "sys_step L P D fuel cfg (?s now t (Ask c k)) (?s (env_now e) t (Ask c k))"
    using step_time[of "?s now t (Ask c k)" "env_now e"] es(2) by simp
  moreover have "sys_step L P D fuel cfg (?s (env_now e) t (Ask c k)) (?s (env_now e) t1 (k (Some a)))"
    using step_ask[of 0 "?s (env_now e) t (Ask c k)" c k e L a t1] es(3) h by simp
  moreover obtain now' where "(sys_step L P D fuel cfg)\<^sup>*\<^sup>* (?s (env_now e) t1 (k (Some a)))
      \<lparr> sys_now = now', sys_table = t', sys_tasks = [Return ()], sys_sent = sent @ ms \<rparr>"
    using Ask.IH[of "k (Some a)" es' "env_now e" t1 ms sent] Ask.prems es h by auto
  ultimately show ?case by (meson converse_rtranclp_into_rtranclp)
next
  case (Emit m p)
  obtain ms1 t1 r1 where r: "run_task L p es t = (ms1, t1, r1)" by (metis prod_cases3)
  with Emit.prems have eq: "ms = m # ms1" "t1 = t'" "r1 = r" by auto
  let ?s = "\<lambda>p sent. \<lparr> sys_now = now, sys_table = t, sys_tasks = [p], sys_sent = sent \<rparr>"
  have "sys_step L P D fuel cfg (?s (Emit m p) sent) (?s p (sent @ [m]))"
    using step_emit[of 0 "?s (Emit m p) sent" m p] by simp
  moreover obtain now' where "(sys_step L P D fuel cfg)\<^sup>*\<^sup>* (?s p (sent @ [m]))
      \<lparr> sys_now = now', sys_table = t', sys_tasks = [Return ()], sys_sent = (sent @ [m]) @ ms1 \<rparr>"
    using Emit.IH[of es now t ms1 "sent @ [m]"] Emit.prems r eq by auto
  ultimately show ?case using eq by (auto intro: converse_rtranclp_into_rtranclp)
next
  case (Sleep d p)
  let ?s = "\<lambda>p. \<lparr> sys_now = now, sys_table = t, sys_tasks = [p], sys_sent = sent \<rparr>"
  have "sys_step L P D fuel cfg (?s (Sleep d p)) (?s p)"
    using step_wake[of 0 "?s (Sleep d p)" d p] by simp
  moreover obtain now' where "(sys_step L P D fuel cfg)\<^sup>*\<^sup>* (?s p)
      \<lparr> sys_now = now', sys_table = t', sys_tasks = [Return ()], sys_sent = sent @ ms \<rparr>"
    using Sleep.IH[of es now t ms sent] Sleep.prems by auto
  ultimately show ?case by (auto intro: converse_rtranclp_into_rtranclp)
qed simp

section \<open>DISCOVER\<close>

lemmas handle_simps = handle_get_existing_ip_def handle_allocate_candidate_def handle_confirm_lease_def
  handle_validate_and_confirm_def handle_check_conflict_def handle_record_conflict_def handle_release_def
  handle_evict_expired_def handle_get_active_leases_def trigger_arp_resolution_def

definition lan_lease :: "lease_env \<Rightarrow> ip \<Rightarrow> string option \<Rightarrow> client_lease" where
  "lan_lease e i h = \<lparr> cl_ip = i, cl_expiry = env_now e + from_secs 3600, cl_hostname = h \<rparr>"

lemma lan_lease_secs [simp]: "unat LAN_LEASE_SECS = 3600"
  by (simp add: LAN_LEASE_SECS_def)

text \<open>
  A client that the table already has an address for, by reservation or by an entry of
  any age, is offered exactly that address, and its lease is confirmed for an hour; nothing
  is probed and neither expiry nor conflict holds nor other holders are looked at.
\<close>

lemma discover_known_client:
  assumes "(case static_leases t client of Some s \<Rightarrow> Some (sl_ip s) | None \<Rightarrow> map_option cl_ip (by_mac t client)) = Some i"
  shows "run_task L (handle_dhcp_discover fuel cfg dhcp client) [e1, e2] t =
    ([SendOffer client (msg_xid dhcp) i (msg_broadcast dhcp)],
     table_insert client (lan_lease e2 i (extract_sanitized_hostname dhcp)) t, Some ())"
  using assms
  by (simp add: handle_dhcp_discover_def find_or_allocate_discover_ip_def handle_simps lan_lease_def)

lemma discover_known_client_example:
  "run_task cidr_lib (handle_dhcp_discover 1 \<lparr> server_ip = 3232235777, server_net = lan29 \<rparr>
       \<lparr> msg_opcode = BootRequest, msg_xid = 7, msg_broadcast = False, msg_ciaddr = 0, msg_yiaddr = 0, msg_siaddr = 0,
         msg_giaddr = 0, msg_hlen = 6, msg_chaddr = octets mac_a, msg_opts = Map.empty \<rparr> mac_a)
     [\<lparr> env_now = 0, env_macs = [mac_a], env_statics = [] \<rparr>, \<lparr> env_now = 0, env_macs = [mac_a], env_statics = [] \<rparr>]
     witness_table
   = ([SendOffer mac_a 7 3232235778 False],
      table_insert mac_a \<lparr> cl_ip = 3232235778, cl_expiry = from_secs 3600, cl_hostname = None \<rparr> witness_table, Some ())"
  using discover_known_client[of witness_table mac_a 3232235778 cidr_lib]
  by (simp add: lan_lease_def extract_sanitized_hostname_def)

lemma not_held_later: "now \<le> now' \<Longrightarrow> \<not> held_by_other now t i m \<Longrightarrow> \<not> held_by_other now' t i m"
  unfolding held_by_other_def using bindings_later by blast

lemma not_held_insert_self:
  "held_by_other now (table_insert m l t) i m \<longleftrightarrow> held_by_other now t i m"
  by (auto simp: held_by_other_def bindings_insert)

lemma held_evict: "held_by_other now (snd (evict_expired now ks t)) i m = held_by_other now t i m"
  by (simp add: held_by_other_def)

text \<open>
  A new client that is not disturbed by others is offered the first free address of the
  pool after that address was probed, and the table then has it for an hour; when the pool
  is exhausted the client gets no answer and keeps no entry.
\<close>

lemma discover_new_client:
  assumes "static_leases t client = None" "by_mac t client = None"
    and "iterates (env_macs e2) (by_mac t)" "env_now e2 \<le> env_now e3"
    and "iterates (env_macs e3) (by_mac (snd (allocate_candidate L (env_now e2) (env_macs e2) client
           (server_net cfg) (server_ip cfg) t)))"
  shows "case List.find (free_for_dynamic L (env_now e2) (server_net cfg) (server_ip cfg) t)
            (net_hosts L (server_net cfg)) of
      Some i \<Rightarrow> run_task L (handle_dhcp_discover (Suc fuel) cfg dhcp client) [e1, e2, e3, e4] t =
        ([ProbeArpConflict i, SendOffer client (msg_xid dhcp) i (msg_broadcast dhcp)],
         table_insert client (lan_lease e4 i (extract_sanitized_hostname dhcp))
           (snd (allocate_candidate L (env_now e2) (env_macs e2) client (server_net cfg) (server_ip cfg) t)), Some ())
    | None \<Rightarrow> run_task L (handle_dhcp_discover (Suc fuel) cfg dhcp client) [e1, e2, e3, e4] t =
        ([], snd (evict_expired (env_now e2) (env_macs e2) t), Some ())"
proof (cases "List.find (free_for_dynamic L (env_now e2) (server_net cfg) (server_ip cfg) t)
    (net_hosts L (server_net cfg))")
  case None
  then have "allocate_candidate L (env_now e2) (env_macs e2) client (server_net cfg) (server_ip cfg) t
      = (None, snd (evict_expired (env_now e2) (env_macs e2) t))"
    by (simp add: allocate_candidate_dynamic_eq[OF assms(1)] next_available_ip_eq[OF assms(3)])
  with None assms(1,2) show ?thesis
    by (simp add: handle_dhcp_discover_def find_or_allocate_discover_ip_def handle_get_existing_ip_def
        handle_allocate_candidate_def)
next
  case (Some i)
  let ?t1 = "table_insert client \<lparr> cl_ip = i, cl_expiry = env_now e2 + CANDIDATE_HOLD_DURATION,
      cl_hostname = None \<rparr> (snd (evict_expired (env_now e2) (env_macs e2) t))"
  have alloc: "allocate_candidate L (env_now e2) (env_macs e2) client (server_net cfg) (server_ip cfg) t = (Some i, ?t1)"
    using Some by (simp add: allocate_candidate_dynamic_eq[OF assms(1)] next_available_ip_eq[OF assms(3)])
  have "\<not> held_by_other (env_now e2) t i client"
    using Some by (auto simp: find_Some_iff free_for_dynamic_def held_by_other_def ran_def)
  then have "\<not> held_by_other (env_now e2) ?t1 i client" by (simp add: not_held_insert_self held_evict)
  then have "\<not> held_by_other (env_now e3) ?t1 i client" using assms(4) not_held_later by blast
  moreover have "iterates (env_macs e3) (by_mac ?t1)" using assms(5) by (simp add: alloc)
  ultimately show ?thesis using Some assms(1,2)
    by (simp add: handle_dhcp_discover_def find_or_allocate_discover_ip_def handle_get_existing_ip_def
        handle_allocate_candidate_def trigger_arp_resolution_def alloc handle_confirm_lease_def lan_lease_def
        handle_check_conflict_def check_conflict_answer(2) del: handle_lease_command.simps(6))
qed

lemma discover_new_client_example:
  "let cfg = \<lparr> server_ip = 3232235777, server_net = lan29 \<rparr>;
       dhcp = \<lparr> msg_opcode = BootRequest, msg_xid = 7, msg_broadcast = True, msg_ciaddr = 0, msg_yiaddr = 0,
                msg_siaddr = 0, msg_giaddr = 0, msg_hlen = 6, msg_chaddr = octets mac_b, msg_opts = Map.empty \<rparr>;
       e = \<lambda>ks. \<lparr> env_now = 0, env_macs = ks, env_statics = [] \<rparr>
   in fst (run_task cidr_lib (handle_dhcp_discover 1 cfg dhcp mac_b)
        [e [mac_a], e [mac_a], e [mac_a, mac_b], e [mac_a, mac_b]] witness_table)
      = [ProbeArpConflict 3232235779, SendOffer mac_b 7 3232235779 True]"
proof -
  let ?cfg = "\<lparr> server_ip = 3232235777, server_net = lan29 \<rparr>"
  let ?e = "\<lambda>ks. \<lparr> env_now = 0, env_macs = ks, env_statics = [] \<rparr>"
  have f: "List.find (free_for_dynamic cidr_lib 0 lan29 3232235777 witness_table) (net_hosts cidr_lib lan29)
      = Some 3232235779"
    by (auto simp: free_for_dynamic_def ran_def bindings_def is_conflict_active_def split: if_splits)
  have "by_mac (snd (allocate_candidate cidr_lib 0 [mac_a] mac_b lan29 3232235777 witness_table))
      = (retain (\<lambda>l. 0 < cl_expiry l) (by_mac witness_table))(mac_b \<mapsto>
          \<lparr> cl_ip = 3232235779, cl_expiry = CANDIDATE_HOLD_DURATION, cl_hostname = None \<rparr>)"
    using f by (simp add: allocate_candidate_dynamic_eq next_available_ip_eq[OF witness_table_iterates])
  then have "iterates [mac_a, mac_b]
      (by_mac (snd (allocate_candidate cidr_lib 0 [mac_a] mac_b lan29 3232235777 witness_table)))"
    by (auto simp: iterates_def dom_def retain_def split: if_splits)
  then show ?thesis
    using discover_new_client[of witness_table mac_b "?e [mac_a]" "?e [mac_a, mac_b]" cidr_lib ?cfg 0] f
    by (simp add: witness_table_iterates[simplified] Let_def)
qed

section \<open>REQUEST\<close>

definition name_messages :: "ip \<Rightarrow> string option \<Rightarrow> string option \<Rightarrow> dhcp_server_worker_to_parent list" where
  "name_messages i old new =
     (case old of Some n \<Rightarrow> [DeregisterLocalHost n] | None \<Rightarrow> [])
     @ (case new of Some n \<Rightarrow> [RegisterLocalHost n i] | None \<Rightarrow> [])"

text \<open>
  An undisturbed DHCPREQUEST addressed to this server is acknowledged exactly when its
  target may be granted, and otherwise refused. On success the address is probed first, then
  acknowledged, then a name the client gives up is deregistered and the granted name
  registered for the leased address; the table has the lease for an hour. A request for
  another server has no effect at all.
\<close>

lemma request_outcome:
  assumes "iterates (env_macs e1) (by_mac t)" "env_now e1 \<le> env_now e2"
    and "iterates (env_macs e2) (by_mac t1)"
    and t1: "t1 = snd (validate_and_confirm L (env_now e1) (env_macs e1) client (requested_ip_of dhcp) (server_ip cfg)
           (server_net cfg) (from_secs 3600) (extract_sanitized_hostname dhcp) t)"
  shows "run_task L (handle_dhcp_request cfg dhcp client) [e1, e2] t =
    (if \<not> should_process_request_server_id dhcp (server_ip cfg) then ([], t, Some ())
     else case request_target client (requested_ip_of dhcp) t of
       None \<Rightarrow> ([SendNak client (msg_xid dhcp)], t, Some ())
     | Some i \<Rightarrow>
         if grantable L (env_now e1) client (server_ip cfg) (server_net cfg) t i
         then ([ProbeArpConflict i, SendAck client (msg_xid dhcp) i (msg_broadcast dhcp)]
                 @ name_messages i
                     (old_hostname_to_deregister (Option.bind (by_mac t client) cl_hostname)
                       (granted_hostname (env_now e1) client (extract_sanitized_hostname dhcp) t))
                     (granted_hostname (env_now e1) client (extract_sanitized_hostname dhcp) t),
               table_insert client (lan_lease e1 i
                 (granted_hostname (env_now e1) client (extract_sanitized_hostname dhcp) t)) t, Some ())
         else ([SendNak client (msg_xid dhcp)], t, Some ()))"
proof (cases "should_process_request_server_id dhcp (server_ip cfg)")
  case False
  then show ?thesis by (simp add: handle_dhcp_request_def)
next
  case True
  note eq = validate_and_confirm_eq[OF assms(1)]
  show ?thesis
  proof (cases "\<exists>i. request_target client (requested_ip_of dhcp) t = Some i
      \<and> grantable L (env_now e1) client (server_ip cfg) (server_net cfg) t i")
    case False
    with True show ?thesis
      by (auto simp: handle_dhcp_request_def handle_validate_and_confirm_def eq split: option.splits)
  next
    case g: True
    then obtain i where i: "request_target client (requested_ip_of dhcp) t = Some i"
      "grantable L (env_now e1) client (server_ip cfg) (server_net cfg) t i" by blast
    have "\<not> held_by_other (env_now e1) t1 i client"
      using i by (simp add: t1 eq not_held_insert_self) (simp add: grantable_def)
    then have "\<not> held_by_other (env_now e2) t1 i client" using assms(2) not_held_later by blast
    then have c: "handle_lease_command L e2 (CheckConflict i client) t1 = (BoolReply False, t1)"
      by (rule check_conflict_answer(2)[OF assms(3)])
    have t1': "t1 = table_insert client (lan_lease e1 i
        (granted_hostname (env_now e1) client (extract_sanitized_hostname dhcp) t)) t"
      using i by (simp add: t1 eq lan_lease_def)
    show ?thesis
      using True i c[unfolded t1'] by (simp add: handle_dhcp_request_def handle_validate_and_confirm_def eq
          verify_arp_conflict_def trigger_arp_resolution_def handle_check_conflict_def name_messages_def
          lan_lease_def del: handle_lease_command.simps(6) split: option.split)
  qed
qed

lemma request_outcome_example:
  "\<exists>e1 e2 t1. iterates (env_macs e1) (by_mac witness_table) \<and> iterates (env_macs e2) (by_mac t1) \<and>
     run_task cidr_lib (handle_dhcp_request \<lparr> server_ip = 3232235777, server_net = lan29 \<rparr>
       \<lparr> msg_opcode = BootRequest, msg_xid = 9, msg_broadcast = False, msg_ciaddr = 0, msg_yiaddr = 0, msg_siaddr = 0,
         msg_giaddr = 0, msg_hlen = 6, msg_chaddr = [2, 0, 0, 0, 0, 2],
         msg_opts = [CodeRequestedIpAddress \<mapsto> OptRequestedIpAddress 3232235780] \<rparr> mac_b) [e1, e2] witness_table
     = ([ProbeArpConflict 3232235780, SendAck mac_b 9 3232235780 False], t1, Some ())"
proof -
  let ?e = "\<lambda>ks. \<lparr> env_now = 0, env_macs = ks, env_statics = [] \<rparr>"
  let ?dhcp = "\<lparr> msg_opcode = BootRequest, msg_xid = 9, msg_broadcast = False, msg_ciaddr = 0, msg_yiaddr = 0,
      msg_siaddr = 0, msg_giaddr = 0, msg_hlen = 6, msg_chaddr = [2, 0, 0, 0, 0, 2],
      msg_opts = [CodeRequestedIpAddress \<mapsto> OptRequestedIpAddress 3232235780] \<rparr>"
  let ?t1 = "table_insert mac_b (lan_lease (?e [mac_a]) 3232235780 None) witness_table"
  have g: "grantable cidr_lib 0 mac_b 3232235777 lan29 witness_table 3232235780"
    by (auto simp: grantable_def held_by_other_def bindings_def split: if_splits)
  have r: "requested_ip_of ?dhcp = Some 3232235780" "extract_sanitized_hostname ?dhcp = None"
    "should_process_request_server_id ?dhcp 3232235777"
    by (simp_all add: requested_ip_of_def extract_sanitized_hostname_def should_process_request_server_id_def)
  have n: "granted_hostname 0 mac_b None witness_table = None" by (simp add: granted_hostname_def)
  have v: "?t1 = snd (validate_and_confirm cidr_lib 0 [mac_a] mac_b (Some 3232235780) 3232235777 lan29
      (from_secs 3600) None witness_table)"
    using g by (simp add: validate_and_confirm_eq[OF witness_table_iterates] request_target_def n lan_lease_def)
  have "run_task cidr_lib (handle_dhcp_request \<lparr> server_ip = 3232235777, server_net = lan29 \<rparr> ?dhcp mac_b)
      [?e [mac_a], ?e [mac_a, mac_b]] witness_table
    = ([ProbeArpConflict 3232235780, SendAck mac_b 9 3232235780 False], ?t1, Some ())"
    by (subst request_outcome[of _ _ _ ?t1])
      (use g in \<open>simp_all add: r v[symmetric] witness_table_iterates[simplified] iterates_def request_target_def n
        name_messages_def old_hostname_to_deregister_def insert_commute\<close>)
  then show ?thesis
    by (intro exI[of _ "?e [mac_a]"] exI[of _ "?e [mac_a, mac_b]"] exI[of _ ?t1])
      (auto simp: iterates_def)
qed

section \<open>A conflict is forgotten\<close>

text \<open>
  Refusing a request because of an address conflict does not release the lease that the
  same request had just confirmed. After client \<open>a\<close> asked for an address, another device \<open>b\<close>
  was seen using it and the conflict was found and recorded, \<open>a\<close>'s next DHCPDISCOVER is
  answered with an offer of the very same address, although \<open>b\<close> holds it and it is under a
  conflict hold.
\<close>

lemma conflicting_address_offered_again:
  "let e = \<lambda>ks. \<lparr> env_now = 0, env_macs = ks, env_statics = [] \<rparr>;
       (rs, t) = run_lease_actor_loop cidr_lib
         [(e [], Recv (ValidateAndConfirmRequest mac_a (Some 3232235778) 3232235777 lan29 (from_secs 3600) None)),
          (e [mac_a], Recv (AddNeighbor mac_b 3232235778)),
          (e [mac_b, mac_a], Recv (CheckConflict 3232235778 mac_a)),
          (e [mac_b, mac_a], Recv (RecordConflict 3232235778 CONFLICT_HOLD_DURATION))] table_new
   in rs ! 2 = BoolReply True \<and> is_conflict_active 0 t 3232235778 \<and> held_by_other 0 t 3232235778 mac_a
      \<and> fst (run_task cidr_lib (handle_dhcp_discover 1 \<lparr> server_ip = 3232235777, server_net = lan29 \<rparr>
          \<lparr> msg_opcode = BootRequest, msg_xid = 7, msg_broadcast = False, msg_ciaddr = 0, msg_yiaddr = 0,
            msg_siaddr = 0, msg_giaddr = 0, msg_hlen = 6, msg_chaddr = octets mac_a, msg_opts = Map.empty \<rparr> mac_a)
          [e [mac_a, mac_b], e [mac_a, mac_b]] t) = [SendOffer mac_a 7 3232235778 False]"
proof -
  have p: "0 < CONFLICT_HOLD_DURATION" "0 < NEIGHBOR_HOLD_DURATION" "0 < from_secs 3600"
    by (simp_all add: CONFLICT_HOLD_DURATION_def NEIGHBOR_HOLD_DURATION_def)
  show ?thesis
    using p
    by (simp add: Let_def validate_and_confirm_def target_rejected_def is_ip_taken_by_other_def any_entry_def
        table_new_def update_from_neighbor_def table_insert_def get_mac_by_ip_def find_entry_def record_conflict_def
        is_conflict_active_def held_by_other_def bindings_def handle_dhcp_discover_def
        find_or_allocate_discover_ip_def handle_simps) (rule exI[of _ mac_b], simp)
qed

section \<open>A packet on the wire\<close>

text \<open>
  The frame that carries the DISCOVER of \<open>demo_codec\<close>. With it the system of \<open>Dhcp_System\<close>
  is run from its initial state.
\<close>

abbreviation demo_config :: "cidr server_config" where
  "demo_config \<equiv> \<lparr> server_ip = 3232235777, server_net = lan29 \<rparr>"

lemma demo_frame:
  "\<exists>f. well_formed_request cidr_lib wire_pnet demo_codec f mac_b demo_discover
     \<and> process_incoming_packet cidr_lib wire_pnet demo_codec fuel demo_config f
       = handle_dhcp_discover fuel demo_config demo_discover mac_b"
proof -
  have "length [1 :: u8] \<le> MAX_RAW_PACKET_PAYLOAD" by (simp add: MAX_RAW_PACKET_PAYLOAD_def)
  from wire.frame_layers[OF this, of mac_b "MacAddr 255 255 255 255 255 255" 0 "- 1" CLIENT_PORT SERVER_PORT]
  obtain f where f: "length f = 43" "eth_source wire_pnet f = mac_b" "eth_ethertype wire_pnet f = ETHERTYPE_IPV4"
    "ip_ok wire_pnet (eth_payload wire_pnet f)" "ip_protocol wire_pnet (eth_payload wire_pnet f) = PROTO_UDP"
    "udp_ok wire_pnet (ip_payload wire_pnet (eth_payload wire_pnet f))"
    "udp_destination wire_pnet (ip_payload wire_pnet (eth_payload wire_pnet f)) = SERVER_PORT" by auto
  have ok: "eth_ok wire_pnet f" using f(1) by (simp add: wire.views(1))
  have parse: "parse_dhcp_payload wire_pnet demo_codec f SERVER_PORT = Some demo_discover"
    using f ok by (simp add: parse_dhcp_payload_def demo_codec_def Let_def)
  have mac: "extract_client_mac cidr_lib demo_discover = Some mac_b"
    by (simp add: extract_client_mac_def demo_discover_def)
  show ?thesis
    using parse mac ok f(2)
    by (intro exI[of _ f]) (simp add: well_formed_request_def process_incoming_packet_def is_spoofed_l2_packet_def
        demo_discover_def)
qed

theorem packet_replies_match_witness:
  "\<exists>f. well_formed_request cidr_lib wire_pnet demo_codec f mac_b demo_discover
     \<and> emits_only (reply_for mac_b demo_discover)
         (process_incoming_packet cidr_lib wire_pnet demo_codec 1 demo_config f)"
proof -
  obtain f where "well_formed_request cidr_lib wire_pnet demo_codec f mac_b demo_discover"
    using demo_frame[of 1] by blast
  with packet_replies_match[of cidr_lib wire_pnet demo_codec f 1 demo_config] show ?thesis by blast
qed

definition demo_envs :: "lease_env list" where
  "demo_envs = [\<lparr> env_now = 0, env_macs = [], env_statics = [] \<rparr>, \<lparr> env_now = 0, env_macs = [], env_statics = [] \<rparr>,
     \<lparr> env_now = 0, env_macs = [mac_b], env_statics = [] \<rparr>, \<lparr> env_now = 0, env_macs = [mac_b], env_statics = [] \<rparr>]"

lemma demo_allocate:
  "allocate_candidate cidr_lib 0 [] mac_b lan29 3232235777 table_new = (Some 3232235778,
     table_insert mac_b \<lparr> cl_ip = 3232235778, cl_expiry = CANDIDATE_HOLD_DURATION, cl_hostname = None \<rparr>
       (snd (evict_expired 0 [] table_new)))"
  by (simp add: allocate_candidate_def next_available_ip_def is_ip_available_for_dynamic_def
      is_ip_available_def is_conflict_active_def evict_expired_def values_along_def map_filter_def
      retain_def table_new_def Let_def)

lemma demo_run:
  "run_fits cidr_lib (handle_dhcp_discover 1 demo_config demo_discover mac_b) demo_envs 0 table_new"
  "fst (run_task cidr_lib (handle_dhcp_discover 1 demo_config demo_discover mac_b) demo_envs table_new)
     = [ProbeArpConflict 3232235778, SendOffer mac_b 7 3232235778 False]"
  by (simp_all add: demo_envs_def handle_dhcp_discover_def find_or_allocate_discover_ip_def handle_simps demo_allocate
      env_of_def iterates_def get_mac_by_ip_def find_entry_def retain_def table_new_def[THEN arg_cong, of by_mac]
      table_new_def[THEN arg_cong, of static_leases] demo_discover_def)


end
