(* ===== verification/Dhcp_Probe.thy ===== *)
theory Dhcp_Probe
  imports Dhcp_System
begin

text \<open>
  The probe loop of \<open>probe_and_allocate_ip\<close> has no bound in the source: it allocates a
  candidate, probes it, and starts over when the address turns out to be in use. Here it is
  shown to end, with any other activity of the server interleaved: every round that starts
  over leaves a conflict hold on another address of the pool, and the holds outlive the
  loop, so there are at most as many rounds as the network has host addresses.
\<close>

section \<open>Interference\<close>

text \<open>A conflict hold on \<open>i\<close> that lasts beyond the time \<open>T\<close>, and changes of the table that keep
  all such holds and do not give the client a reservation.\<close>

definition held_beyond :: "instant \<Rightarrow> lease_table \<Rightarrow> ip \<Rightarrow> bool" where
  "held_beyond T t i \<longleftrightarrow> (\<exists>e. conflicts t i = Some e \<and> T < e)"

definition keeps_holds :: "instant \<Rightarrow> mac \<Rightarrow> lease_table \<Rightarrow> lease_table \<Rightarrow> bool" where
  "keeps_holds T client t t' \<longleftrightarrow>
     (\<forall>i. held_beyond T t i \<longrightarrow> held_beyond T t' i) \<and> static_leases t' client = static_leases t client"

inductive task_step ::
  "'n net_lib \<Rightarrow> instant \<Rightarrow> mac \<Rightarrow> instant \<times> lease_table \<times> ('n, 'r) task \<Rightarrow> instant \<times> lease_table \<times> ('n, 'r) task \<Rightarrow> bool"
  for L T client where
  own_ask: "env_of t e \<Longrightarrow> env_now e = now \<Longrightarrow> handle_lease_command L e c t = (a, t') \<Longrightarrow>
    task_step L T client (now, t, Ask c k) (now, t', k (Some a))"
| own_emit: "task_step L T client (now, t, Emit m p) (now, t, p)"
| own_wake: "task_step L T client (now, t, Sleep d p) (now, t, p)"
| others: "now \<le> now' \<Longrightarrow> now' \<le> T \<Longrightarrow> keeps_holds T client t t' \<Longrightarrow>
    task_step L T client (now, t, p) (now', t', p)"

text \<open>What the server's other tasks and timers do is such interference, up to time \<open>T\<close>.\<close>

lemma event_keeps_holds:
  assumes "env_now e \<le> T"
    and "\<And>ls. ev \<noteq> Recv (SetStaticLeases ls)"
    and "\<And>i d. ev = Recv (RecordConflict i d) \<Longrightarrow> T < env_now e + d"
  shows "keeps_holds T client t (snd (lease_actor_event L e ev t))"
proof -
  have evict: "keeps_holds T client t (snd (evict_expired (env_now e) ks t))" for ks
    using assms(1) by (fastforce simp: keeps_holds_def held_beyond_def)
  have ins: "keeps_holds T client t (table_insert m l t')" if "keeps_holds T client t t'" for m l t'
    using that by (simp add: keeps_holds_def held_beyond_def)
  have refl: "keeps_holds T client t t" by (simp add: keeps_holds_def)
  show ?thesis
  proof (cases ev)
    case CleanupTick
    then show ?thesis by (simp add: evict)
  next
    case (Recv cmd)
    show ?thesis
    proof (cases cmd)
      case (AllocateCandidate m n s)
      then show ?thesis using Recv
        by (cases "static_leases t m")
          (auto simp: case_prod_beta allocate_candidate_def next_available_ip_def Let_def refl ins evict split: option.split)
    next
      case (ValidateAndConfirmRequest m req s n d h)
      then show ?thesis using Recv
        by (auto simp: case_prod_beta validate_and_confirm_def Let_def refl ins split: option.split)
    next
      case (RecordConflict i d)
      then show ?thesis using Recv assms(3)[of i d]
        by (auto simp: record_conflict_def keeps_holds_def held_beyond_def)
    next
      case (Release m)
      then show ?thesis using Recv by (simp add: case_prod_beta keeps_holds_def held_beyond_def)
    qed (use Recv assms(2) in \<open>auto simp: case_prod_beta refl ins evict update_from_neighbor_def\<close>)
  qed
qed

section \<open>The loop\<close>

text \<open>Where the loop can be: about to allocate with \<open>n\<close> rounds left, or in the round of \<open>i\<close>.\<close>

definition after_check :: "nat \<Rightarrow> 'n server_config \<Rightarrow> mac \<Rightarrow> ip \<Rightarrow> bool \<Rightarrow> ('n, ip option) task" where
  "after_check n cfg client i c =
     (if c then bind_task (handle_record_conflict i CONFLICT_HOLD_DURATION) (\<lambda>_. probe_and_allocate_ip n cfg client)
      else Return (Some i))"

definition check_then :: "nat \<Rightarrow> 'n server_config \<Rightarrow> mac \<Rightarrow> ip \<Rightarrow> ('n, ip option) task" where
  "check_then n cfg client i = bind_task (handle_check_conflict i client) (after_check n cfg client i)"

lemma probe_unfold:
  "probe_and_allocate_ip (Suc n) cfg client =
     Ask (AllocateCandidate client (server_net cfg) (server_ip cfg)) (\<lambda>a.
       case a of
         Some (IpReply (Some i)) \<Rightarrow> Emit (ProbeArpConflict i) (Sleep ARP_RESOLUTION_DELAY (check_then n cfg client i))
       | _ \<Rightarrow> Return None)"
  by (auto simp: handle_allocate_candidate_def trigger_arp_resolution_def check_then_def after_check_def[abs_def]
      fun_eq_iff split: option.split lease_reply.split)

inductive loop_point ::
  "'n net_lib \<Rightarrow> instant \<Rightarrow> 'n server_config \<Rightarrow> mac \<Rightarrow> lease_table \<Rightarrow> ('n, ip option) task \<Rightarrow> bool"
  for L T cfg client t where
  at_loop: "C \<subseteq> set (net_hosts L (server_net cfg)) \<Longrightarrow> \<forall>i \<in> C. held_beyond T t i \<Longrightarrow>
    card C + n = Suc (card (set (net_hosts L (server_net cfg)))) \<Longrightarrow>
    loop_point L T cfg client t (probe_and_allocate_ip n cfg client)"
| in_round: "C \<subseteq> set (net_hosts L (server_net cfg)) \<Longrightarrow> \<forall>j \<in> C. held_beyond T t j \<Longrightarrow>
    card C + n = card (set (net_hosts L (server_net cfg))) \<Longrightarrow>
    i \<in> set (net_hosts L (server_net cfg)) \<Longrightarrow> i \<notin> C \<Longrightarrow>
    p \<in> {Emit (ProbeArpConflict i) (Sleep ARP_RESOLUTION_DELAY (check_then n cfg client i)),
         Sleep ARP_RESOLUTION_DELAY (check_then n cfg client i), check_then n cfg client i,
         after_check n cfg client i True} \<Longrightarrow>
    loop_point L T cfg client t p"
| finished: "loop_point L T cfg client t (Return r)"

lemma loop_point_not_NoFuel: "\<not> loop_point L T cfg client t NoFuel"
proof
  assume "loop_point L T cfg client t NoFuel"
  then show False
  proof cases
    case (at_loop C n)
    have "card C \<le> card (set (net_hosts L (server_net cfg)))"
      using at_loop(2) by (rule card_mono[rotated]) simp
    with at_loop(4) obtain n' where "n = Suc n'" by (cases n) auto
    with at_loop(1) show False by (simp add: probe_unfold del: probe_and_allocate_ip.simps)
  next
    case (in_round C n i)
    then show False by (auto simp: check_then_def after_check_def handle_check_conflict_def handle_record_conflict_def)
  qed
qed

lemma loop_point_interference:
  assumes "loop_point L T cfg client t p" "\<And>i. held_beyond T t i \<Longrightarrow> held_beyond T t' i"
  shows "loop_point L T cfg client t' p"
  using assms(1)
proof cases
  case (at_loop C n)
  then show ?thesis using assms(2) by (auto intro: loop_point.at_loop[of C])
next
  case (in_round C n i)
  then show ?thesis using assms(2) by (intro loop_point.in_round[of C _ _ _ _ n i]) auto
next
  case finished
  then show ?thesis by (auto intro: loop_point.finished)
qed

lemma allocate_step:
  assumes "loop_point L T cfg client t (Ask c k)" "c = AllocateCandidate client (server_net cfg) (server_ip cfg)"
  shows "\<exists>C n. C \<subseteq> set (net_hosts L (server_net cfg)) \<and> (\<forall>i \<in> C. held_beyond T t i)
    \<and> card C + Suc n = Suc (card (set (net_hosts L (server_net cfg))))
    \<and> k = (\<lambda>a. case a of
         Some (IpReply (Some i)) \<Rightarrow> Emit (ProbeArpConflict i) (Sleep ARP_RESOLUTION_DELAY (check_then n cfg client i))
       | _ \<Rightarrow> Return None)"
  using assms(1)
proof cases
  case (at_loop C n)
  have "card C \<le> card (set (net_hosts L (server_net cfg)))"
    using at_loop(2) by (rule card_mono[rotated]) simp
  with at_loop(4) obtain n' where n: "n = Suc n'" by (cases n) auto
  with at_loop show ?thesis
    by (intro exI[of _ C] exI[of _ n']) (simp add: probe_unfold del: probe_and_allocate_ip.simps)
next
  case (in_round C n i)
  with assms(2) show ?thesis
    by (auto simp: check_then_def after_check_def handle_check_conflict_def handle_record_conflict_def)
qed

lemma loop_point_ask:
  assumes lp: "loop_point L T cfg client t (Ask c k)" and "static_leases t client = None"
    and e: "env_of t e" "env_now e \<le> T" "T < env_now e + CONFLICT_HOLD_DURATION"
    and h: "handle_lease_command L e c t = (a, t')"
  shows "loop_point L T cfg client t' (k (Some a)) \<and> static_leases t' client = None"
  using lp
proof cases
  case (at_loop C n)
  then obtain n' where "n = Suc n'" by (cases n) auto
  with at_loop have c: "c = AllocateCandidate client (server_net cfg) (server_ip cfg)"
    by (simp add: probe_unfold del: probe_and_allocate_ip.simps)
  from allocate_step[OF lp c] obtain C n where C: "C \<subseteq> set (net_hosts L (server_net cfg))"
    "\<forall>i \<in> C. held_beyond T t i" "card C + n = card (set (net_hosts L (server_net cfg)))"
    and k: "k = (\<lambda>a. case a of
         Some (IpReply (Some i)) \<Rightarrow> Emit (ProbeArpConflict i) (Sleep ARP_RESOLUTION_DELAY (check_then n cfg client i))
       | _ \<Rightarrow> Return None)" by auto
  have it: "iterates (env_macs e) (by_mac t)" using e(1) by (simp add: env_of_def)
  have keep: "keeps_holds T client t t'"
    using event_keeps_holds[of e T "Recv c" client t L] e(2) h c by simp
  obtain r where r: "a = IpReply r" "r = List.find (free_for_dynamic L (env_now e) (server_net cfg) (server_ip cfg) t)
      (net_hosts L (server_net cfg))"
    using h c assms(2)
    by (auto simp: allocate_candidate_dynamic_eq next_available_ip_eq[OF it] split: option.splits)
  show ?thesis
  proof (cases r)
    case None
    then show ?thesis using r(1) keep assms(2) by (auto simp: k keeps_holds_def intro: loop_point.finished)
  next
    case (Some i)
    then have i: "i \<in> set (net_hosts L (server_net cfg))" "\<not> is_conflict_active (env_now e) t i"
      using r(2) by (auto simp: find_Some_iff free_for_dynamic_def)
    have "\<not> held_beyond T t i" using i(2) e(2) by (auto simp: held_beyond_def is_conflict_active_def)
    then have "i \<notin> C" using C(2) by blast
    with C i keep have "loop_point L T cfg client t'
        (Emit (ProbeArpConflict i) (Sleep ARP_RESOLUTION_DELAY (check_then n cfg client i)))"
      by (intro loop_point.in_round[of C _ _ _ _ n i]) (auto simp: keeps_holds_def)
    then show ?thesis using r(1) Some keep assms(2) by (simp add: k keeps_holds_def)
  qed
next
  case (in_round C n i)
  note r = in_round
  from in_round(6) consider (check) "Ask c k = check_then n cfg client i"
    | (conf) "Ask c k = after_check n cfg client i True" by auto
  then show ?thesis
  proof cases
    case check
    then have c: "c = CheckConflict i client"
      and k: "k (Some a) = after_check n cfg client i (case a of BoolReply b \<Rightarrow> b | _ \<Rightarrow> False)" for a
      by (auto simp: check_then_def handle_check_conflict_def split: lease_reply.split)
    have "t' = t" using h c by simp
    moreover have "loop_point L T cfg client t (after_check n cfg client i b)" for b
      using r by (cases b) (auto simp: after_check_def[of _ _ _ _ False]
          intro: loop_point.finished loop_point.in_round[of C _ _ _ _ n i])
    ultimately show ?thesis using assms(2) by (simp add: k)
  next
    case conf
    then have c: "c = RecordConflict i CONFLICT_HOLD_DURATION" and k: "k (Some a) = probe_and_allocate_ip n cfg client"
      by (simp_all add: after_check_def handle_record_conflict_def)
    have keep: "keeps_holds T client t t'"
      using event_keeps_holds[of e T "Recv c" client t L] e(2,3) h c by simp
    have "held_beyond T t' i" using h c e(3) by (auto simp: held_beyond_def record_conflict_def)
    with keep r have "\<forall>j \<in> insert i C. held_beyond T t' j" by (auto simp: keeps_holds_def)
    moreover have "card (insert i C) = Suc (card C)"
      using r finite_subset[OF r(1)] by simp
    ultimately have "loop_point L T cfg client t' (probe_and_allocate_ip n cfg client)"
      using r by (intro loop_point.at_loop[of "insert i C"]) auto
    then show ?thesis using keep assms(2) by (simp add: k keeps_holds_def)
  qed
qed

lemma loop_point_step:
  assumes "task_step L T client (now, t, p) (now', t', p')"
    and "loop_point L T cfg client t p" "static_leases t client = None"
    and "now \<le> T" "T < now + CONFLICT_HOLD_DURATION"
  shows "loop_point L T cfg client t' p' \<and> static_leases t' client = None \<and> now \<le> now' \<and> now' \<le> T"
  using assms(1)
proof cases
  case (own_ask e c a k)
  with assms loop_point_ask[of L T cfg client t c k e a t'] show ?thesis by auto
next
  case (own_emit m)
  then have p: "p = Emit m p'" by simp
  from assms(2)[unfolded p] have "loop_point L T cfg client t p'"
  proof cases
    case (at_loop C n)
    then show ?thesis by (cases n) (simp_all add: probe_unfold del: probe_and_allocate_ip.simps(2))
  next
    case (in_round C n i)
    then show ?thesis
      by (intro loop_point.in_round[of C _ _ _ _ n i])
        (auto simp: check_then_def after_check_def handle_check_conflict_def handle_record_conflict_def)
  qed
  with own_emit assms show ?thesis by simp
next
  case (own_wake d)
  then have p: "p = Sleep d p'" by simp
  from assms(2)[unfolded p] have "loop_point L T cfg client t p'"
  proof cases
    case (at_loop C n)
    then show ?thesis by (cases n) (simp_all add: probe_unfold del: probe_and_allocate_ip.simps(2))
  next
    case (in_round C n i)
    then show ?thesis
      by (intro loop_point.in_round[of C _ _ _ _ n i])
        (auto simp: check_then_def after_check_def handle_check_conflict_def handle_record_conflict_def)
  qed
  with own_wake assms show ?thesis by simp
next
  case others
  with assms loop_point_interference[of L T cfg client t p t'] show ?thesis
    by (auto simp: keeps_holds_def)
qed



end
