(* ===== verification/Dhcp_Parent.thy ===== *)
theory Dhcp_Parent
  imports Dhcp_Worker Packet_Wire
begin

text \<open>
  The privileged side of the DHCP server, \<open>services/dhcp_server/manager.rs\<close>: it forwards
  frames and neighbour updates to the worker and turns the worker's messages into frames,
  host-name events and heartbeats. The worker is not trusted; what the parent checks before
  it sends anything is the last line of defence. The payload builders are in
  \<open>services/dhcp_server/worker.rs\<close>.
\<close>

section \<open>Reply payloads\<close>

definition dhcp_reply_message ::
  "dhcp_message \<Rightarrow> message_type \<Rightarrow> mac \<Rightarrow> u32 \<Rightarrow> bool \<Rightarrow> ip \<Rightarrow> ip \<Rightarrow> ip \<Rightarrow> dhcp_message" where
  "dhcp_reply_message dflt mt client xid bcast leased server smask =
     (let m0 = dflt\<lparr> msg_opcode := BootReply, msg_xid := xid \<rparr>;
          m1 = (if bcast then m0\<lparr> msg_broadcast := True \<rparr> else m0);
          m2 = set_chaddr (octets client) (m1\<lparr> msg_yiaddr := leased, msg_siaddr := server \<rparr>)
      in insert_option (OptAddressLeaseTime LAN_LEASE_SECS)
           (insert_option (OptDomainNameServer [server])
           (insert_option (OptRouter [server])
           (insert_option (OptSubnetMask smask)
           (insert_option (OptServerIdentifier server)
           (insert_option (OptMessageType mt) m2))))))"

definition build_dhcp_reply_payload ::
  "dhcp_lib \<Rightarrow> message_type \<Rightarrow> mac \<Rightarrow> u32 \<Rightarrow> bool \<Rightarrow> ip \<Rightarrow> ip \<Rightarrow> ip \<Rightarrow> bytes option" where
  "build_dhcp_reply_payload D mt client xid bcast leased server smask =
     message_encode D (dhcp_reply_message (message_default D) mt client xid bcast leased server smask)"

definition build_dhcp_nak_payload :: "dhcp_lib \<Rightarrow> mac \<Rightarrow> u32 \<Rightarrow> ip \<Rightarrow> bytes option" where
  "build_dhcp_nak_payload D client xid server =
     message_encode D
       (insert_option (OptServerIdentifier server)
         (insert_option (OptMessageType MtNak)
           (set_chaddr (octets client) ((message_default D)\<lparr> msg_opcode := BootReply, msg_xid := xid \<rparr>))))"

section \<open>Worker messages\<close>

record 'n server_network_config =
  snc_server_mac :: mac
  snc_server_ip :: ip
  snc_subnet_mask :: ip
  snc_lan_net :: 'n

datatype parent_effect =
    SendFrame bytes
  | LanHeartbeat
  | PublishLeases "dhcp_lease_info list"
  | LocalHost local_host_event

definition get_dest_mac_ip :: "'n net_lib \<Rightarrow> bool \<Rightarrow> mac \<Rightarrow> ip \<Rightarrow> mac \<times> ip" where
  "get_dest_mac_ip L bcast client target = (if bcast then (mac_broadcast L, - 1) else (client, target))"

definition frame_effect :: "router_error + bytes \<Rightarrow> parent_effect list" where
  "frame_effect r = (case r of Inr f \<Rightarrow> [SendFrame f] | Inl _ \<Rightarrow> [])"

definition send_reply ::
  "'n net_lib \<Rightarrow> pnet_lib \<Rightarrow> dhcp_lib \<Rightarrow> 'n server_network_config \<Rightarrow> message_type \<Rightarrow> mac \<Rightarrow> u32 \<Rightarrow> ip \<Rightarrow> bool
     \<Rightarrow> parent_effect list" where
  "send_reply L P D c mt client xid i bcast =
     (if \<not> net_contains L (snc_lan_net c) i \<or> i = snc_server_ip c then []
      else case build_dhcp_reply_payload D mt client xid bcast i (snc_server_ip c) (snc_subnet_mask c) of
        None \<Rightarrow> []
      | Some payload \<Rightarrow>
          (case get_dest_mac_ip L bcast client i of (dmac, dip) \<Rightarrow>
             frame_effect (build_raw_packet P (snc_server_mac c) dmac (snc_server_ip c) dip SERVER_PORT CLIENT_PORT payload)))"

definition handle_send_offer where
  "handle_send_offer L P D c client xid i bcast = send_reply L P D c MtOffer client xid i bcast"

definition handle_send_ack where
  "handle_send_ack L P D c client xid i bcast = send_reply L P D c MtAck client xid i bcast"

definition handle_send_nak ::
  "'n net_lib \<Rightarrow> pnet_lib \<Rightarrow> dhcp_lib \<Rightarrow> mac \<Rightarrow> ip \<Rightarrow> mac \<Rightarrow> u32 \<Rightarrow> parent_effect list" where
  "handle_send_nak L P D smac sip client xid =
     (case build_dhcp_nak_payload D client xid sip of
        None \<Rightarrow> []
      | Some payload \<Rightarrow>
          frame_effect (build_raw_packet P smac (mac_broadcast L) sip (- 1) SERVER_PORT CLIENT_PORT payload))"

definition handle_probe_arp :: "'n net_lib \<Rightarrow> pnet_lib \<Rightarrow> mac \<Rightarrow> ip \<Rightarrow> 'n \<Rightarrow> ip \<Rightarrow> parent_effect list" where
  "handle_probe_arp L P smac sip net target =
     (if \<not> net_contains L net target \<or> target = sip then []
      else frame_effect (build_raw_packet P smac (mac_broadcast L) sip target DISCARD_PORT DISCARD_PORT [0]))"

definition handle_worker_ipc_msg ::
  "'n net_lib \<Rightarrow> pnet_lib \<Rightarrow> dhcp_lib \<Rightarrow> bool \<Rightarrow> mac \<Rightarrow> 'n \<Rightarrow> dhcp_server_worker_to_parent \<Rightarrow> parent_effect list" where
  "handle_worker_ipc_msg L P D has_hosts_tx smac net msg =
     (let sip = net_addr L net;
          c = \<lparr> snc_server_mac = smac, snc_server_ip = sip, snc_subnet_mask = net_netmask L net, snc_lan_net = net \<rparr>
      in case msg of
        ServerHeartbeat leases \<Rightarrow> [LanHeartbeat, PublishLeases leases]
      | RegisterLocalHost n i \<Rightarrow> if has_hosts_tx then [LocalHost (LhRegister n i)] else []
      | DeregisterLocalHost n \<Rightarrow> if has_hosts_tx then [LocalHost (LhDeregister n)] else []
      | SendOffer client xid i b \<Rightarrow> handle_send_offer L P D c client xid i b
      | SendAck client xid i b \<Rightarrow> handle_send_ack L P D c client xid i b
      | SendNak client xid \<Rightarrow> handle_send_nak L P D smac sip client xid
      | ProbeArpConflict i \<Rightarrow> handle_probe_arp L P smac sip net i)"

section \<open>Neighbour updates\<close>

text \<open>The parts of a netlink neighbour message that the parent looks at.\<close>

datatype neighbour_attribute =
    NeighDestination ip
  | NeighLinkLayerAddress bytes
  | NeighOther

datatype netlink_payload =
    NewNeighbour u32 "neighbour_attribute list"
  | OtherPayload

fun scan_neighbour_attributes ::
  "neighbour_attribute list \<Rightarrow> ip option \<times> mac option \<Rightarrow> ip option \<times> mac option" where
  "scan_neighbour_attributes [] acc = acc"
| "scan_neighbour_attributes (NeighDestination i # as) (_, m) = scan_neighbour_attributes as (Some i, m)"
| "scan_neighbour_attributes (NeighLinkLayerAddress b # as) (i, m) =
     scan_neighbour_attributes as (i, case mac_from_slice b of Inr m' \<Rightarrow> Some m' | Inl _ \<Rightarrow> m)"
| "scan_neighbour_attributes (NeighOther # as) acc = scan_neighbour_attributes as acc"

definition parse_neighbor_update ::
  "'n net_lib \<Rightarrow> netlink_payload \<Rightarrow> u32 option \<Rightarrow> 'n option \<Rightarrow> ip option \<Rightarrow> (ip \<times> mac) option" where
  "parse_neighbor_update L payload ifindex net gw =
     (case payload of
        OtherPayload \<Rightarrow> None
      | NewNeighbour idx attrs \<Rightarrow>
          if (case ifindex of Some target \<Rightarrow> idx \<noteq> target | None \<Rightarrow> False) then None
          else case scan_neighbour_attributes attrs (None, None) of
            (Some i, Some m) \<Rightarrow>
              (case (net, gw) of
                 (Some n, Some g) \<Rightarrow> if \<not> net_contains L n i \<or> i = g then None else Some (i, m)
               | _ \<Rightarrow> Some (i, m))
          | _ \<Rightarrow> None)"

section \<open>Monitor loop\<close>

text \<open>
  One round of the supervising loop: what it saw, and what it does. \<open>ToWorker\<close> is a message
  for the worker; the loop ends when that cannot be sent.
\<close>

datatype monitor_event =
    MonShutdown
  | MonFrame "bytes option"
  | MonWorker "io_error + dhcp_server_worker_to_parent option"
  | MonNeighbour netlink_payload

datatype monitor_action =
    Stop
  | Continue
  | ToWorker dhcp_server_parent_to_worker
  | Effects "parent_effect list"

definition monitor_step ::
  "'n net_lib \<Rightarrow> pnet_lib \<Rightarrow> dhcp_lib \<Rightarrow> bool \<Rightarrow> mac \<Rightarrow> 'n \<Rightarrow> u32 option \<Rightarrow> monitor_event \<Rightarrow> monitor_action" where
  "monitor_step L P D has_hosts_tx smac net ifindex ev =
     (case ev of
        MonShutdown \<Rightarrow> Stop
      | MonFrame (Some frame) \<Rightarrow> ToWorker (ServerRawPacket frame)
      | MonFrame None \<Rightarrow> Continue
      | MonWorker (Inr (Some msg)) \<Rightarrow> Effects (handle_worker_ipc_msg L P D has_hosts_tx smac net msg)
      | MonWorker (Inr None) \<Rightarrow> Stop
      | MonWorker (Inl _) \<Rightarrow> Stop
      | MonNeighbour p \<Rightarrow>
          (case parse_neighbor_update L p ifindex (Some net) (Some (net_addr L net)) of
             Some (i, m) \<Rightarrow> ToWorker (AddNeighborMsg i m)
           | None \<Rightarrow> Continue))"

text \<open>
  The whole monitor. An event comes with the answer of the channel to the message it may cause; the
  loop goes on after failed reads and ends with a failed send, and the worker is terminated
  wherever the monitor ends. \<open>smac\<close> and \<open>listening\<close> are the answers to the queries made
  before the loop.
\<close>

record dhcp_monitor_params =
  mp_child_pid :: u32
  mp_has_hosts :: bool
  mp_static_leases :: "static_lease list"
  mp_lan_ip :: string

datatype monitor_output =
    MonSent dhcp_server_parent_to_worker
  | MonEffect parent_effect
  | MonTerminated u32

fun monitor_loop ::
  "'n net_lib \<Rightarrow> pnet_lib \<Rightarrow> dhcp_lib \<Rightarrow> bool \<Rightarrow> mac \<Rightarrow> 'n \<Rightarrow> u32 option \<Rightarrow> (monitor_event \<times> bool) list
     \<Rightarrow> monitor_output list \<times> bool" where
  "monitor_loop L P D hosts smac net ifindex [] = ([], False)"
| "monitor_loop L P D hosts smac net ifindex ((ev, sent) # evs) =
     (case monitor_step L P D hosts smac net ifindex ev of
        Stop \<Rightarrow> ([], True)
      | Continue \<Rightarrow> monitor_loop L P D hosts smac net ifindex evs
      | ToWorker m \<Rightarrow>
          if sent then map_prod ((#) (MonSent m)) id (monitor_loop L P D hosts smac net ifindex evs) else ([], True)
      | Effects es \<Rightarrow> map_prod ((@) (map MonEffect es)) id (monitor_loop L P D hosts smac net ifindex evs))"

definition run_parent_dhcp_server_monitor ::
  "'n net_lib \<Rightarrow> pnet_lib \<Rightarrow> dhcp_lib \<Rightarrow> dhcp_monitor_params \<Rightarrow> bool \<Rightarrow> mac option \<Rightarrow> bool \<Rightarrow> u32 option
     \<Rightarrow> (monitor_event \<times> bool) list \<Rightarrow> monitor_output list" where
  "run_parent_dhcp_server_monitor L P D params sent smac listening ifindex evs =
     (if sent then [MonSent (SetStaticLeasesMsg (mp_static_leases params))] else [])
     @ (case (net_parse L (mp_lan_ip params), smac, listening) of
          (Some net, Some m, True) \<Rightarrow>
            (case monitor_loop L P D (mp_has_hosts params) m net ifindex evs of
               (out, ended) \<Rightarrow> out @ (if ended then [MonTerminated (mp_child_pid params)] else []))
        | _ \<Rightarrow> [MonTerminated (mp_child_pid params)])"

lemma monitor_step_sends: "monitor_step L P D hosts smac net ifindex ev = ToWorker m \<Longrightarrow> m \<noteq> SetStaticLeasesMsg ls"
  by (auto simp: monitor_step_def split: monitor_event.splits sum.splits option.splits)

lemma monitor_loop_sends: "MonSent (SetStaticLeasesMsg ls) \<notin> set (fst (monitor_loop L P D hosts smac net ifindex evs))"
  by (induction L P D hosts smac net ifindex evs rule: monitor_loop.induct)
    (auto split: monitor_action.splits simp: fst_map_prod dest: monitor_step_sends)

lemma monitor_loop_out: "monitor_loop L P D hosts smac net ifindex evs = (out, ended) \<Longrightarrow> MonSent (SetStaticLeasesMsg ls) \<notin> set out"
  using monitor_loop_sends[of ls L P D hosts smac net ifindex evs] by simp

lemma monitor_sends:
  assumes "MonSent m \<in> set (run_parent_dhcp_server_monitor L P D params sent smac listening ifindex evs)"
  shows "(case m of SetStaticLeasesMsg ls \<Rightarrow> ls = mp_static_leases params | _ \<Rightarrow> True)"
  using assms
  by (cases m)
    (auto simp: run_parent_dhcp_server_monitor_def dest: monitor_loop_out split: if_splits option.splits prod.splits bool.splits)

text \<open>A monitor that is told to stop, or whose worker has closed the channel, terminates the worker as its last action.\<close>

lemma monitor_loop_ends:
  "(MonShutdown, sent) \<in> set evs \<or> (MonWorker (Inr None), sent) \<in> set evs
     \<Longrightarrow> snd (monitor_loop L P D hosts smac net ifindex evs)"
  by (induction L P D hosts smac net ifindex evs rule: monitor_loop.induct)
    (auto split: monitor_action.splits simp: snd_map_prod monitor_step_def)

section \<open>What the parent lets through\<close>

definition reply_message ::
  "dhcp_lib \<Rightarrow> message_type \<Rightarrow> mac \<Rightarrow> u32 \<Rightarrow> bool \<Rightarrow> ip \<Rightarrow> ip \<Rightarrow> ip \<Rightarrow> dhcp_message \<Rightarrow> bool" where
  "reply_message D mt client xid bcast leased server smask m \<longleftrightarrow>
     msg_opcode m = BootReply \<and> msg_xid m = xid \<and> msg_chaddr m = octets client \<and> msg_yiaddr m = leased
     \<and> msg_siaddr m = server \<and> (bcast \<longrightarrow> msg_broadcast m)
     \<and> msg_opts m CodeMessageType = Some (OptMessageType mt)
     \<and> msg_opts m CodeServerIdentifier = Some (OptServerIdentifier server)
     \<and> msg_opts m CodeSubnetMask = Some (OptSubnetMask smask)
     \<and> msg_opts m CodeRouter = Some (OptRouter [server])
     \<and> msg_opts m CodeDomainNameServer = Some (OptDomainNameServer [server])
     \<and> msg_opts m CodeAddressLeaseTime = Some (OptAddressLeaseTime LAN_LEASE_SECS)"

text \<open>The DHCP codec reads back what it wrote.\<close>

definition codec_roundtrip :: "dhcp_lib \<Rightarrow> bool" where
  "codec_roundtrip D \<longleftrightarrow> (\<forall>m b. message_encode D m = Some b \<longrightarrow> message_decode D b = Some m)"

lemma reply_payload_decodes:
  assumes "codec_roundtrip D" "build_dhcp_reply_payload D mt client xid bcast leased server smask = Some b"
  shows "\<exists>m. message_decode D b = Some m \<and> reply_message D mt client xid bcast leased server smask m"
  using assms unfolding codec_roundtrip_def build_dhcp_reply_payload_def dhcp_reply_message_def Let_def
  by (fastforce simp: reply_message_def insert_option_def set_chaddr_def)

lemma frame_effect_sent:
  assumes "pnet_laws P" "SendFrame f \<in> set (frame_effect (build_raw_packet P smac dmac sip dip sport dport payload))"
  shows "eth_source P f = smac \<and> eth_destination P f = dmac \<and> ip_source P (eth_payload P f) = sip
    \<and> ip_destination P (eth_payload P f) = dip
    \<and> (\<forall>port. parse_dhcp_payload P D f port = (if port = dport then message_decode D payload else None))"
proof -
  have b: "build_raw_packet P smac dmac sip dip sport dport payload = Inr f"
    using assms(2) by (auto simp: frame_effect_def split: sum.splits)
  then have "length payload \<le> MAX_RAW_PACKET_PAYLOAD"
    by (auto simp: build_raw_packet_def split: if_splits)
  from pnet_laws.frame_layers[OF assms(1) this, of smac dmac sip dip sport dport] b
  have f: "length f = 42 + length payload" "eth_source P f = smac" "eth_destination P f = dmac"
    "eth_ethertype P f = ETHERTYPE_IPV4" "ip_ok P (eth_payload P f)" "ip_protocol P (eth_payload P f) = PROTO_UDP"
    "ip_source P (eth_payload P f) = sip" "ip_destination P (eth_payload P f) = dip"
    "udp_ok P (ip_payload P (eth_payload P f))" "udp_destination P (ip_payload P (eth_payload P f)) = dport"
    "udp_payload P (ip_payload P (eth_payload P f)) = payload" by auto
  moreover have "eth_ok P f" using f(1) by (simp add: pnet_laws.views(1)[OF assms(1)])
  ultimately show ?thesis by (auto simp: parse_dhcp_payload_def Let_def)
qed

text \<open>
  C37. Offers and acknowledgements reach the client as intended: for an address of the LAN
  other than the router's own, every frame the parent sends for the worker's message comes
  from the router's addresses, goes to the client (or to everybody if the client asked for
  broadcast), and decodes on the DHCP client port to a reply that carries the client's
  hardware address and transaction id, the address, the LAN mask, the router as gateway, DNS
  server and server identifier, and the lease time of one hour. For any other address
  nothing is sent.
\<close>

theorem reply_frames_correct:
  assumes "pnet_laws P" "codec_roundtrip D"
    and "msg = SendOffer client xid i b \<and> mt = MtOffer \<or> msg = SendAck client xid i b \<and> mt = MtAck"
  shows "if net_contains L net i \<and> i \<noteq> net_addr L net
    then (\<forall>eff \<in> set (handle_worker_ipc_msg L P D tx smac net msg). \<exists>f m. eff = SendFrame f
        \<and> eth_source P f = smac \<and> ip_source P (eth_payload P f) = net_addr L net
        \<and> (eth_destination P f, ip_destination P (eth_payload P f)) = (if b then (mac_broadcast L, - 1) else (client, i))
        \<and> parse_dhcp_payload P D f CLIENT_PORT = Some m
        \<and> reply_message D mt client xid b i (net_addr L net) (net_netmask L net) m)
    else handle_worker_ipc_msg L P D tx smac net msg = []"
proof -
  let ?c = "\<lparr> snc_server_mac = smac, snc_server_ip = net_addr L net, snc_subnet_mask = net_netmask L net,
      snc_lan_net = net \<rparr>"
  have eq: "handle_worker_ipc_msg L P D tx smac net msg = send_reply L P D ?c mt client xid i b"
    using assms(3) by (auto simp: handle_worker_ipc_msg_def handle_send_offer_def handle_send_ack_def)
  show ?thesis
  proof (cases "net_contains L net i \<and> i \<noteq> net_addr L net")
    case True
    have "\<exists>f m. eff = SendFrame f \<and> eth_source P f = smac \<and> ip_source P (eth_payload P f) = net_addr L net
        \<and> (eth_destination P f, ip_destination P (eth_payload P f)) = (if b then (mac_broadcast L, - 1) else (client, i))
        \<and> parse_dhcp_payload P D f CLIENT_PORT = Some m
        \<and> reply_message D mt client xid b i (net_addr L net) (net_netmask L net) m"
      if eff: "eff \<in> set (send_reply L P D ?c mt client xid i b)" for eff
    proof -
      from eff True obtain payload where p:
        "build_dhcp_reply_payload D mt client xid b i (net_addr L net) (net_netmask L net) = Some payload"
        and e: "eff \<in> set (frame_effect (build_raw_packet P smac (fst (get_dest_mac_ip L b client i)) (net_addr L net)
            (snd (get_dest_mac_ip L b client i)) SERVER_PORT CLIENT_PORT payload))"
        by (cases "build_dhcp_reply_payload D mt client xid b i (net_addr L net) (net_netmask L net)")
          (auto simp: send_reply_def split_beta)
      from e obtain f where f: "eff = SendFrame f" by (auto simp: frame_effect_def split: sum.splits)
      from reply_payload_decodes[OF assms(2) p] frame_effect_sent[OF assms(1) e[unfolded f], of D] f
      show ?thesis by (auto simp: get_dest_mac_ip_def split: if_splits)
    qed
    with True show ?thesis by (simp add: eq)
  qed (auto simp: eq send_reply_def)
qed

theorem reply_frames_correct_witness:
  "let D = single_codec (dhcp_reply_message demo_discover MtOffer (MacAddr 2 0 0 0 0 1) 7 False 3232235778
             3232235777 (net_netmask cidr_lib lan29));
       effs = handle_worker_ipc_msg cidr_lib wire_pnet D True (MacAddr 2 0 0 0 0 9) lan29
             (SendOffer (MacAddr 2 0 0 0 0 1) 7 3232235778 False)
   in \<exists>f m. effs = [SendFrame f] \<and> parse_dhcp_payload wire_pnet D f CLIENT_PORT = Some m \<and> msg_yiaddr m = 3232235778"
proof -
  define D where "D = single_codec (dhcp_reply_message demo_discover MtOffer (MacAddr 2 0 0 0 0 1) 7 False 3232235778
             3232235777 (net_netmask cidr_lib lan29))"
  define effs where "effs = handle_worker_ipc_msg cidr_lib wire_pnet D True (MacAddr 2 0 0 0 0 9) lan29
             (SendOffer (MacAddr 2 0 0 0 0 1) 7 3232235778 False)"
  have rt: "codec_roundtrip D" by (simp add: codec_roundtrip_def D_def single_codec_def)
  have "length [1 :: u8] \<le> MAX_RAW_PACKET_PAYLOAD" by (simp add: MAX_RAW_PACKET_PAYLOAD_def)
  from wire.frame_layers[OF this, of "MacAddr 2 0 0 0 0 9" "MacAddr 2 0 0 0 0 1" 3232235777 3232235778
      SERVER_PORT CLIENT_PORT]
  obtain f where "build_raw_packet wire_pnet (MacAddr 2 0 0 0 0 9) (MacAddr 2 0 0 0 0 1) 3232235777 3232235778
      SERVER_PORT CLIENT_PORT [1] = Inr f" by blast
  then have "effs = [SendFrame f]"
    by (simp add: effs_def handle_worker_ipc_msg_def handle_send_offer_def send_reply_def D_def single_codec_def
        build_dhcp_reply_payload_def get_dest_mac_ip_def frame_effect_def)
  with reply_frames_correct[OF wire.pnet_laws_axioms rt, of "SendOffer (MacAddr 2 0 0 0 0 1) 7 3232235778 False"
      "MacAddr 2 0 0 0 0 1" 7 3232235778 False MtOffer cidr_lib lan29 True "MacAddr 2 0 0 0 0 9"]
  show ?thesis unfolding Let_def D_def[symmetric] effs_def[symmetric] by (auto simp: reply_message_def)
qed

text \<open>
  A neighbour update that reaches the worker names an address of the LAN other than the
  router's own, was seen on the LAN interface, and carries the last address and the last
  well-formed hardware address of the kernel's message.
\<close>

lemma neighbour_updates_filtered:
  assumes "monitor_step L P D tx smac net ifindex ev = ToWorker (AddNeighborMsg i m)"
  shows "net_contains L net i \<and> i \<noteq> net_addr L net
    \<and> (\<exists>idx attrs. ev = MonNeighbour (NewNeighbour idx attrs) \<and> (\<forall>x. ifindex = Some x \<longrightarrow> idx = x)
        \<and> NeighDestination i \<in> set attrs \<and> NeighLinkLayerAddress (octets m) \<in> set attrs)"
proof -
  have scan: "(\<forall>i. fst (scan_neighbour_attributes as acc) = Some i \<longrightarrow> fst acc = Some i \<or> NeighDestination i \<in> set as)
      \<and> (\<forall>m. snd (scan_neighbour_attributes as acc) = Some m \<longrightarrow>
            snd acc = Some m \<or> NeighLinkLayerAddress (octets m) \<in> set as)" for as acc
    by (induction as acc rule: scan_neighbour_attributes.induct) (auto simp: mac_from_slice_Inr split: sum.splits)
  from assms obtain p where p: "ev = MonNeighbour p"
    "parse_neighbor_update L p ifindex (Some net) (Some (net_addr L net)) = Some (i, m)"
    by (auto simp: monitor_step_def split: monitor_event.splits option.splits sum.splits)
  then obtain idx attrs where a: "p = NewNeighbour idx attrs" "\<forall>x. ifindex = Some x \<longrightarrow> idx = x"
    "scan_neighbour_attributes attrs (None, None) = (Some i, Some m)"
    "net_contains L net i" "i \<noteq> net_addr L net"
    by (auto simp: parse_neighbor_update_def split: netlink_payload.splits option.splits if_splits prod.splits)
  with p scan[of attrs "(None, None)"] show ?thesis by auto
qed

lemma neighbour_updates_filtered_example:
  "monitor_step cidr_lib wire_pnet demo_codec True (MacAddr 2 0 0 0 0 9) lan29 (Some 3)
     (MonNeighbour (NewNeighbour 3 [NeighDestination 3232235778, NeighLinkLayerAddress [2, 0, 0, 0, 0, 1]]))
   = ToWorker (AddNeighborMsg 3232235778 (MacAddr 2 0 0 0 0 1))
   \<and> net_contains cidr_lib lan29 3232235778"
proof -
  have "monitor_step cidr_lib wire_pnet demo_codec True (MacAddr 2 0 0 0 0 9) lan29 (Some 3)
     (MonNeighbour (NewNeighbour 3 [NeighDestination 3232235778, NeighLinkLayerAddress [2, 0, 0, 0, 0, 1]]))
   = ToWorker (AddNeighborMsg 3232235778 (MacAddr 2 0 0 0 0 1))"
    by (simp add: monitor_step_def parse_neighbor_update_def)
  with neighbour_updates_filtered[OF this] show ?thesis by blast
qed

end
