(* ===== verification/Rate_Limiter.thy ===== *)
theory Rate_Limiter
  imports Complex_Main Prelude
begin

text \<open>
  The per-client token bucket of the DNS forwarder, \<open>dns_forwarder/rate_limiter.rs\<close>.
  An \<open>f64\<close> is the rational number it denotes; every arithmetic operation of the source is
  the exact operation followed by the rounding \<open>rnd\<close> of binary floating point, of which
  only the facts in \<open>f64_rounding\<close> are used. \<open>Instant::now()\<close> is the argument \<open>now\<close>.
\<close>

section \<open>Floating point\<close>

type_synonym f64 = rat

definition f64_ulp :: rat where
  "f64_ulp = 1 / 2 ^ 33"

text \<open>
  IEEE 754 binary64: rounding is monotone, keeps zero, and is off by less than \<open>2 ^ -33\<close> below
  \<open>2 ^ 20\<close> (the unit in the last place there).
\<close>

definition f64_rounding :: "(rat \<Rightarrow> f64) \<Rightarrow> bool" where
  "f64_rounding rnd \<longleftrightarrow> mono rnd \<and> rnd 0 = 0
     \<and> (\<forall>x. 0 \<le> x \<and> x \<le> 2 ^ 20 \<longrightarrow> rnd x \<le> x + f64_ulp \<and> x - f64_ulp \<le> rnd x)"

definition as_secs_f64 :: "(rat \<Rightarrow> f64) \<Rightarrow> duration \<Rightarrow> f64" where
  "as_secs_f64 rnd d = rnd (rnd (of_nat (d div nanos_per_sec)) + rnd (of_nat (d mod nanos_per_sec) / of_nat nanos_per_sec))"

section \<open>The limiter\<close>

record client_bucket =
  tokens :: f64
  last_update :: instant

record dns_rate_limiter =
  rl_clients :: "ip \<rightharpoonup> client_bucket"
  rate_per_sec :: f64
  max_burst :: f64

definition DEFAULT_DNS_RATE_LIMIT_PER_SEC :: f64 where "DEFAULT_DNS_RATE_LIMIT_PER_SEC = 100"
definition DEFAULT_DNS_BURST_QUOTA :: f64 where "DEFAULT_DNS_BURST_QUOTA = 150"
definition IDLE_CLIENT_TIMEOUT :: duration where "IDLE_CLIENT_TIMEOUT = from_secs 10"

definition limiter_new :: "f64 \<Rightarrow> f64 \<Rightarrow> dns_rate_limiter" where
  "limiter_new rate burst = \<lparr> rl_clients = Map.empty, rate_per_sec = max rate 1, max_burst = max burst 1 \<rparr>"

definition default_limiter :: dns_rate_limiter where
  "default_limiter = limiter_new DEFAULT_DNS_RATE_LIMIT_PER_SEC DEFAULT_DNS_BURST_QUOTA"

definition limiter_check :: "(rat \<Rightarrow> f64) \<Rightarrow> instant \<Rightarrow> ip \<Rightarrow> dns_rate_limiter \<Rightarrow> bool \<times> dns_rate_limiter" where
  "limiter_check rnd now client rl =
     (let bucket = (case rl_clients rl client of
                      Some b \<Rightarrow> b
                    | None \<Rightarrow> \<lparr> tokens = max_burst rl, last_update = now \<rparr>);
          elapsed = as_secs_f64 rnd (now - last_update bucket);
          filled = min (rnd (tokens bucket + rnd (elapsed * rate_per_sec rl))) (max_burst rl)
      in if 1 \<le> filled
         then (True, rl\<lparr> rl_clients := (rl_clients rl)(client \<mapsto> \<lparr> tokens = rnd (filled - 1), last_update = now \<rparr>) \<rparr>)
         else (False, rl\<lparr> rl_clients := (rl_clients rl)(client \<mapsto> \<lparr> tokens = filled, last_update = now \<rparr>) \<rparr>))"

definition retain_recent :: "instant \<Rightarrow> dns_rate_limiter \<Rightarrow> dns_rate_limiter" where
  "retain_recent now rl =
     rl\<lparr> rl_clients := retain (\<lambda>b. now - last_update b \<le> IDLE_CLIENT_TIMEOUT) (rl_clients rl) \<rparr>"

section \<open>Runs\<close>

datatype limiter_op = Check ip | RetainRecent

text \<open>A run of timed operations, and how often one client was let through in it.\<close>

fun limiter_run :: "(rat \<Rightarrow> f64) \<Rightarrow> ip \<Rightarrow> (instant \<times> limiter_op) list \<Rightarrow> dns_rate_limiter \<Rightarrow> nat" where
  "limiter_run rnd c [] rl = 0"
| "limiter_run rnd c ((now, Check i) # ops) rl =
     (case limiter_check rnd now i rl of
        (ok, rl') \<Rightarrow> (if ok \<and> i = c then 1 else 0) + limiter_run rnd c ops rl')"
| "limiter_run rnd c ((now, RetainRecent) # ops) rl = limiter_run rnd c ops (retain_recent now rl)"

definition f64_error :: rat where
  "f64_error = 303 * f64_ulp"

text \<open>Tokens a client could have at \<open>now\<close> with exact arithmetic, refill included.\<close>

definition seconds :: "duration \<Rightarrow> rat" where
  "seconds d = of_nat d / of_nat nanos_per_sec"

definition potential :: "instant \<Rightarrow> ip \<Rightarrow> dns_rate_limiter \<Rightarrow> rat" where
  "potential now c rl =
     (case rl_clients rl c of
        None \<Rightarrow> 150
      | Some b \<Rightarrow> min 150 (tokens b + 100 * seconds (now - last_update b)))"

definition limiter_ok :: "instant \<Rightarrow> dns_rate_limiter \<Rightarrow> bool" where
  "limiter_ok now rl \<longleftrightarrow> rate_per_sec rl = 100 \<and> max_burst rl = 150
     \<and> (\<forall>c b. rl_clients rl c = Some b \<longrightarrow> 0 \<le> tokens b \<and> tokens b \<le> 150 \<and> last_update b \<le> now)"

lemma rounding_facts:
  assumes "f64_rounding rnd"
  shows "x \<le> y \<Longrightarrow> rnd x \<le> rnd y" "rnd 0 = 0" "0 \<le> x \<Longrightarrow> 0 \<le> rnd x"
    "0 \<le> x \<Longrightarrow> x \<le> 1048576 \<Longrightarrow> rnd x \<le> x + f64_ulp"
proof -
  show *: "x \<le> y \<Longrightarrow> rnd x \<le> rnd y" for x y using assms by (auto simp: f64_rounding_def mono_def)
  show z: "rnd 0 = 0" using assms by (simp add: f64_rounding_def)
  show "0 \<le> x \<Longrightarrow> 0 \<le> rnd x" using *[of 0 x] z by simp
  show "0 \<le> x \<Longrightarrow> x \<le> 1048576 \<Longrightarrow> rnd x \<le> x + f64_ulp" using assms by (simp add: f64_rounding_def)
qed

lemma seconds_split:
  "seconds d = of_nat (d div nanos_per_sec) + of_nat (d mod nanos_per_sec) / of_nat nanos_per_sec"
proof -
  have "(of_nat d :: rat) = of_nat (d div nanos_per_sec) * of_nat nanos_per_sec + of_nat (d mod nanos_per_sec)"
    by (metis div_mult_mod_eq of_nat_add of_nat_mult)
  then show ?thesis by (simp add: seconds_def add_divide_distrib)
qed

lemma as_secs_close:
  assumes "f64_rounding rnd" "seconds d \<le> 1000"
  shows "0 \<le> as_secs_f64 rnd d" "as_secs_f64 rnd d \<le> seconds d + 3 * f64_ulp"
proof -
  let ?s = "of_nat (d div nanos_per_sec) :: rat" and ?n = "of_nat (d mod nanos_per_sec) / of_nat nanos_per_sec :: rat"
  note r = rounding_facts[OF assms(1)]
  have u: "f64_ulp \<le> 1" by (simp add: f64_ulp_def)
  have n: "0 \<le> ?s" "0 \<le> ?n" "?s + ?n \<le> 1000" using assms(2) by (simp_all add: seconds_split)
  have a: "rnd ?s \<le> ?s + f64_ulp" by (rule r(4)) (use n in linarith)+
  have b: "rnd ?n \<le> ?n + f64_ulp" by (rule r(4)) (use n in linarith)+
  have p: "0 \<le> rnd ?s + rnd ?n" using r(3) n by (simp add: add_nonneg_nonneg)
  show "0 \<le> as_secs_f64 rnd d" unfolding as_secs_f64_def by (rule r(3)[OF p])
  have "rnd (rnd ?s + rnd ?n) \<le> rnd ?s + rnd ?n + f64_ulp" by (rule r(4)) (use p n a b u in linarith)+
  then show "as_secs_f64 rnd d \<le> seconds d + 3 * f64_ulp"
    using a b by (simp add: as_secs_f64_def seconds_split)
qed

lemma seconds_nonneg [simp]: "0 \<le> seconds d"
  by (simp add: seconds_def)

lemma seconds_add: "a \<le> b \<Longrightarrow> b \<le> c \<Longrightarrow> seconds (c - a) = seconds (b - a) + seconds (c - b)"
  by (simp add: seconds_def of_nat_diff add_divide_distrib[symmetric])

lemma filled_bound:
  assumes "f64_rounding rnd" "0 \<le> t" "t \<le> 150"
  shows "0 \<le> rnd (t + rnd (as_secs_f64 rnd d * 100))"
    "min (rnd (t + rnd (as_secs_f64 rnd d * 100))) 150 \<le> min 150 (t + 100 * seconds d) + 302 * f64_ulp"
proof -
  note r = rounding_facts[OF assms(1)]
  have u: "0 \<le> f64_ulp" "302 * f64_ulp \<le> 1" by (simp_all add: f64_ulp_def)
  have p: "0 \<le> as_secs_f64 rnd d" unfolding as_secs_f64_def
    by (intro r(3) add_nonneg_nonneg) simp_all
  then have q: "0 \<le> rnd (as_secs_f64 rnd d * 100)" by (intro r(3)) simp
  then show "0 \<le> rnd (t + rnd (as_secs_f64 rnd d * 100))" using assms(2) by (intro r(3)) simp
  show "min (rnd (t + rnd (as_secs_f64 rnd d * 100))) 150 \<le> min 150 (t + 100 * seconds d) + 302 * f64_ulp"
  proof (cases "150 \<le> t + 100 * seconds d")
    case False
    then have s: "seconds d \<le> 1000" using assms(2) by linarith
    note c = as_secs_close[OF assms(1) s]
    have "rnd (as_secs_f64 rnd d * 100) \<le> as_secs_f64 rnd d * 100 + f64_ulp"
      by (rule r(4)) (use c s u in linarith)+
    then have a: "rnd (as_secs_f64 rnd d * 100) \<le> 100 * seconds d + 301 * f64_ulp" using c by linarith
    have "rnd (t + rnd (as_secs_f64 rnd d * 100)) \<le> t + rnd (as_secs_f64 rnd d * 100) + f64_ulp"
      by (rule r(4)) (use a q assms(2) False u in linarith)+
    with a False show ?thesis by linarith
  qed (use u in linarith)
qed

lemma potential_le: "potential now c rl \<le> 150"
  by (auto simp: potential_def split: option.split)

lemma min_add_le: "0 \<le> y \<Longrightarrow> min a (x + y) \<le> min a x + y" for y :: rat
  by (auto simp: min_def)

lemma potential_advance:
  assumes "limiter_ok now rl" "now \<le> later"
  shows "potential later c rl \<le> potential now c rl + 100 * seconds (later - now)"
    "limiter_ok later rl"
proof -
  show "potential later c rl \<le> potential now c rl + 100 * seconds (later - now)"
  proof (cases "rl_clients rl c")
    case (Some b)
    then have "last_update b \<le> now" using assms(1) by (auto simp: limiter_ok_def)
    from seconds_add[OF this assms(2)] have "potential later c rl = min 150 (tokens b + 100 * (seconds (now - last_update b) + seconds (later - now)))"
      using Some by (simp add: potential_def)
    moreover have "potential now c rl = min 150 (tokens b + 100 * seconds (now - last_update b))"
      using Some by (simp add: potential_def)
    ultimately show ?thesis
      using min_add_le[of "100 * seconds (later - now)" 150 "tokens b + 100 * seconds (now - last_update b)"]
      by (simp add: algebra_simps)
  qed (simp add: potential_def)
  show "limiter_ok later rl" using assms by (fastforce simp: limiter_ok_def)
qed

lemma check_step:
  assumes "f64_rounding rnd" "limiter_ok now rl" "limiter_check rnd now i rl = (ok, rl')"
  shows "limiter_ok now rl'"
    "(if ok \<and> i = c then 1 else 0) + potential now c rl' \<le> potential now c rl + f64_error"
proof -
  define b where "b = (case rl_clients rl i of Some b \<Rightarrow> b | None \<Rightarrow> \<lparr> tokens = max_burst rl, last_update = now \<rparr>)"
  define x where "x = min (rnd (tokens b + rnd (as_secs_f64 rnd (now - last_update b) * 100))) 150"
  note r = rounding_facts[OF assms(1)]
  have rl: "rate_per_sec rl = 100" "max_burst rl = 150" using assms(2) by (simp_all add: limiter_ok_def)
  have b: "0 \<le> tokens b" "tokens b \<le> 150" "last_update b \<le> now"
    using assms(2) by (auto simp: b_def limiter_ok_def split: option.splits)
  have pb: "potential now i rl = min 150 (tokens b + 100 * seconds (now - last_update b))"
    by (auto simp: potential_def b_def rl seconds_def split: option.split)
  have x: "0 \<le> x" "x \<le> 150" "x \<le> potential now i rl + 302 * f64_ulp"
    using filled_bound[OF assms(1) b(1,2)] pb by (auto simp: x_def)
  define v where "v = (if 1 \<le> x then rnd (x - 1) else x)"
  have sub: "rnd (x - 1) \<le> x - 1 + f64_ulp" "0 \<le> rnd (x - 1)" if "1 \<le> x"
    by (rule r(4) r(3); use that x(2) in simp)+
  have u: "0 \<le> f64_ulp" "f64_ulp \<le> 1" by (simp_all add: f64_ulp_def)
  have v: "0 \<le> v" "v \<le> 150" "(if 1 \<le> x then 1 else 0) + v \<le> x + f64_ulp"
    using sub x u by (auto simp: v_def)
  have one: "1 \<le> rnd (tokens b + rnd (as_secs_f64 rnd (now - last_update b) * 100)) \<longleftrightarrow> 1 \<le> x"
    by (simp add: x_def)
  have e: "ok = (1 \<le> x)" "rl' = rl\<lparr> rl_clients := (rl_clients rl)(i \<mapsto> \<lparr> tokens = v, last_update = now \<rparr>) \<rparr>"
    using assms(3) by (auto simp: limiter_check_def Let_def b_def[symmetric] rl x_def[symmetric] v_def one split: if_splits)
  show "limiter_ok now rl'" using assms(2) v(1,2) by (auto simp: limiter_ok_def e)
  show "(if ok \<and> i = c then 1 else 0) + potential now c rl' \<le> potential now c rl + f64_error"
  proof (cases "i = c")
    case True
    then have "potential now c rl' = v" using v(2) by (simp add: potential_def e seconds_def min_def)
    with True v(3) x(3) e(1) show ?thesis by (simp add: f64_error_def)
  next
    case False
    then have "potential now c rl' = potential now c rl" by (simp add: potential_def e)
    with False u show ?thesis by (simp add: f64_error_def)
  qed
qed

text \<open>Forgetting an idle client does not give it tokens: its bucket was full again.\<close>

lemma retain_step:
  assumes "limiter_ok now rl"
  shows "limiter_ok now (retain_recent now rl)" "potential now c (retain_recent now rl) = potential now c rl"
proof -
  show "limiter_ok now (retain_recent now rl)" using assms by (auto simp: limiter_ok_def retain_recent_def)
  show "potential now c (retain_recent now rl) = potential now c rl"
  proof (cases "rl_clients rl c")
    case (Some b)
    show ?thesis
    proof (cases "now - last_update b \<le> IDLE_CLIENT_TIMEOUT")
      case True
      then show ?thesis using Some by (simp add: potential_def retain_recent_def retain_def)
    next
      case False
      then have "of_nat (10 * nanos_per_sec) \<le> (of_nat (now - last_update b) :: rat)"
        by (intro of_nat_mono) (simp add: IDLE_CLIENT_TIMEOUT_def from_secs_def)
      then have "10 \<le> seconds (now - last_update b)" by (simp add: seconds_def le_divide_eq)
      moreover have "0 \<le> tokens b" using assms Some by (auto simp: limiter_ok_def)
      ultimately show ?thesis using Some False by (simp add: potential_def retain_recent_def retain_def)
    qed
  qed (simp add: potential_def retain_recent_def retain_def)
qed

lemma limiter_run_bound:
  assumes "f64_rounding rnd" "limiter_ok t rl" "sorted (t # map fst ops)" "\<forall>o' \<in> set ops. fst o' \<le> t'" "t \<le> t'"
  shows "of_nat (limiter_run rnd c ops rl)
    \<le> potential t c rl + 100 * seconds (t' - t) + of_nat (length ops) * f64_error"
  using assms(2-5)
proof (induction ops arbitrary: t rl)
  case Nil
  have "0 \<le> potential t c rl" using Nil(1) by (auto simp: potential_def limiter_ok_def split: option.split)
  then show ?case by simp
next
  case (Cons o' ops)
  obtain now op where o: "o' = (now, op)" by fastforce
  from Cons.prems o have t: "t \<le> now" "now \<le> t'" by auto
  note adv = potential_advance[OF Cons.prems(1) t(1)]
  have sec: "seconds (t' - t) = seconds (now - t) + seconds (t' - now)" by (rule seconds_add[OF t])
  have s: "sorted (now # map fst ops)" "\<forall>o' \<in> set ops. fst o' \<le> t'" using Cons.prems o by auto
  have e: "0 \<le> f64_error" by (simp add: f64_error_def f64_ulp_def)
  show ?case
  proof (cases op)
    case (Check i)
    obtain ok rl' where c: "limiter_check rnd now i rl = (ok, rl')" by fastforce
    note st = check_step[OF assms(1) adv(2) c]
    have "limiter_run rnd c (o' # ops) rl = (if ok \<and> i = c then 1 else 0) + limiter_run rnd c ops rl'"
      by (simp add: o Check c)
    with Cons.IH[OF st(1) s t(2)] st(2)[of c] adv(1)[of c] sec show ?thesis
      by (auto simp: algebra_simps)
  next
    case RetainRecent
    note st = retain_step[OF adv(2)]
    from Cons.IH[OF st(1) s t(2)] st(2)[of c] adv(1)[of c] sec e show ?thesis
      by (simp add: o RetainRecent algebra_simps)
  qed
qed

text \<open>
  C23. The rate limiter holds. In any sequence of checks (of this and other clients) and
  clean-ups over a period of \<open>T\<close> seconds, from whatever state the limiter is in, a client is
  let through at most \<open>150 + 100 T\<close> times, up to a floating-point error of less than a
  millionth of a query per check; forgetting idle clients never gives one of them more.
\<close>

theorem rate_limit_holds:
  assumes "f64_rounding rnd" "limiter_ok start rl" "sorted (start # map fst ops)"
    "\<forall>op \<in> set ops. fst op \<le> finish" "start \<le> finish"
  shows "of_nat (limiter_run rnd c ops rl)
    \<le> 150 + 100 * seconds (finish - start) + of_nat (length ops) * (1 / 1000000 :: rat)"
proof -
  have e: "f64_error \<le> 1 / 1000000" by (simp add: f64_error_def f64_ulp_def)
  have "of_nat (limiter_run rnd c ops rl)
      \<le> potential start c rl + 100 * seconds (finish - start) + of_nat (length ops) * f64_error"
    by (rule limiter_run_bound[OF assms])
  also have "\<dots> \<le> 150 + 100 * seconds (finish - start) + of_nat (length ops) * (1 / 1000000)"
    using potential_le[of start c rl] mult_left_mono[OF e, of "of_nat (length ops)"] by simp
  finally show ?thesis .
qed

text \<open>A rounding to multiples of \<open>2 ^ -33\<close>, at which the witness runs.\<close>

definition grid_round :: "rat \<Rightarrow> f64" where
  "grid_round x = of_int \<lfloor>x * 2 ^ 33\<rfloor> / 2 ^ 33"

lemma grid_rounding: "f64_rounding grid_round"
proof -
  have lo: "grid_round x \<le> x" and hi: "x - f64_ulp \<le> grid_round x" for x
    using of_int_floor_le[of "x * 2 ^ 33"] floor_correct[of "x * 2 ^ 33"]
    by (simp_all add: grid_round_def f64_ulp_def field_simps)
  have "grid_round x \<le> x + f64_ulp" for x
    using lo[of x] by (rule order_trans) (simp add: f64_ulp_def)
  moreover have "mono grid_round"
    by (rule monoI) (simp add: grid_round_def divide_right_mono floor_mono)
  moreover have "grid_round 0 = 0" by (simp add: grid_round_def)
  ultimately show ?thesis using hi unfolding f64_rounding_def by blast
qed

lemma default_limiter_ok: "limiter_ok 0 default_limiter"
  by (simp add: limiter_ok_def default_limiter_def limiter_new_def DEFAULT_DNS_RATE_LIMIT_PER_SEC_def
      DEFAULT_DNS_BURST_QUOTA_def)

theorem rate_limit_holds_witness:
  "f64_rounding grid_round \<and> limiter_ok 0 default_limiter
   \<and> limiter_run grid_round 7 (replicate 1000 (0, Check 7)) default_limiter \<le> 150"
proof -
  have "of_nat (limiter_run grid_round 7 (replicate 1000 (0, Check 7)) default_limiter) \<le> (150 + 1 / 1000 :: rat)"
    using rate_limit_holds[OF grid_rounding default_limiter_ok, of "replicate 1000 (0, Check 7)" 0 7]
    by (simp add: seconds_def sorted_replicate)
  then have "(of_nat (limiter_run grid_round 7 (replicate 1000 (0, Check 7)) default_limiter) :: rat) < of_nat 151"
    by simp
  then show ?thesis using grid_rounding default_limiter_ok by (simp only: of_nat_less_iff) simp
qed

end
