(* ===== verification/Dns_Forwarder.thy ===== *)
theory Dns_Forwarder
  imports Rate_Limiter Utils
begin

text \<open>
  The DNS forwarder worker, \<open>dns_forwarder/worker.rs\<close>: local names, the cache, the pending
  upstream queries, failover, and the event loop. The wire format and the domain-name type
  (\<open>hickory_proto\<close>) are third-party code: the fields of \<open>dns_lib\<close>, over a type \<open>'nm\<close> of
  names. The clock, hash-map orders, random draws and the result of sending a datagram are
  the fields of \<open>dns_env\<close>, one reading per event.
\<close>

section \<open>Messages\<close>

datatype dns_op = OpQuery | OpOther
datatype dns_message_type = DnsQuery | DnsResponse
datatype rcode = NoError | NXDomain | ServFail | Refused | OtherCode nat
datatype record_type = TypeA | TypePTR | TypeOther nat
datatype 'nm rdata = RdataA ip | RdataPTR 'nm | RdataSOA u32 | RdataOther

record 'nm dns_record =
  rr_name :: 'nm
  rr_ttl :: u32
  rr_data :: "'nm rdata"

record 'nm dns_question =
  q_name :: 'nm
  q_type :: record_type
  q_class :: nat

record 'nm dns_message =
  dm_id :: u16
  dm_type :: dns_message_type
  dm_op :: dns_op
  dm_authoritative :: bool
  dm_truncation :: bool
  dm_recursion_desired :: bool
  dm_recursion_available :: bool
  dm_rcode :: rcode
  dm_queries :: "'nm dns_question list"
  dm_answers :: "'nm dns_record list"
  dm_authorities :: "'nm dns_record list"
  dm_edns :: "u16 option"

text \<open>
  \<open>dns_emit\<close> gives the bytes written and whether encoding succeeded; \<open>dns_parse_arpa\<close> the IPv4
  prefix that a reverse-lookup name denotes.
\<close>

record 'nm dns_lib =
  dns_from_bytes :: "bytes \<Rightarrow> 'nm dns_message option"
  dns_emit :: "'nm dns_message \<Rightarrow> bytes \<times> bool"
  dns_truncate :: "'nm dns_message \<Rightarrow> 'nm dns_message"
  name_to_utf8 :: "'nm \<Rightarrow> string"
  name_to_ascii :: "'nm \<Rightarrow> string"
  name_from_ascii :: "string \<Rightarrow> 'nm option"
  dns_parse_arpa :: "'nm \<Rightarrow> (ip \<times> u8) option"
  show_record_type :: "record_type \<Rightarrow> string"
  show_class :: "nat \<Rightarrow> string"

section \<open>State\<close>

definition DNS_HEADER_SIZE :: nat where "DNS_HEADER_SIZE = 12"
definition RFC1035_MAX_UDP_PAYLOAD :: nat where "RFC1035_MAX_UDP_PAYLOAD = 512"
definition MAX_EDNS_PAYLOAD_SIZE :: nat where "MAX_EDNS_PAYLOAD_SIZE = 4096"
definition DEFAULT_TTL_SECS :: u32 where "DEFAULT_TTL_SECS = 30"
definition MAX_TTL_SECS :: u32 where "MAX_TTL_SECS = 3600"
definition DEFAULT_NEGATIVE_TTL_SECS :: u32 where "DEFAULT_NEGATIVE_TTL_SECS = 60"
definition MIN_NEGATIVE_TTL_SECS :: u32 where "MIN_NEGATIVE_TTL_SECS = 5"
definition MAX_NEGATIVE_TTL_SECS :: u32 where "MAX_NEGATIVE_TTL_SECS = 300"
definition UPSTREAM_TIMEOUT :: duration where "UPSTREAM_TIMEOUT = from_secs 3"
definition FALLBACK_DNS_SERVER :: ip where "FALLBACK_DNS_SERVER = ipv4 8 8 8 8"
definition MAX_PENDING_QUERIES :: nat where "MAX_PENDING_QUERIES = 4096"
definition MAX_CACHE_ENTRIES :: nat where "MAX_CACHE_ENTRIES = 4096"
definition TCP_MAX_MESSAGE_SIZE :: nat where "TCP_MAX_MESSAGE_SIZE = 65535"
definition MAX_JOINED_CLIENTS_PER_QUERY :: nat where "MAX_JOINED_CLIENTS_PER_QUERY = 64"
definition DNS_PORT :: u16 where "DNS_PORT = 53"

datatype ip_addr = IpV4 ip | IpV6 "128 word"
type_synonym sock_addr = "ip_addr \<times> u16"

text \<open>A TCP client's reply channel is identified by a number.\<close>

datatype client_origin = OriginUdp sock_addr | OriginTcp sock_addr nat

fun peer_addr :: "client_origin \<Rightarrow> sock_addr" where
  "peer_addr (OriginUdp a) = a"
| "peer_addr (OriginTcp a n) = a"

record cache_entry =
  ce_response :: bytes
  ce_expiry :: instant

record pending_client =
  pc_origin :: client_origin
  pc_xid :: u16
  pc_max_payload :: nat

record pending_query =
  pq_clients :: "pending_client list"
  pq_cache_key :: string
  pq_payload :: bytes
  pq_servers :: "ip list"
  pq_idx :: nat
  pq_deadline :: instant

datatype upstream_tcp_event =
    TcpResolved string bytes "pending_client list"
  | TcpFailed bytes "pending_client list"

datatype dns_output =
    UdpReply bytes sock_addr
  | TcpReply nat bytes
  | Forward bytes ip
  | SpawnTcpFallback ip bytes u16 string bytes "pending_client list"
  | ToParent dns_worker_to_parent

type_synonym dns_cache = "string \<rightharpoonup> cache_entry"
type_synonym dns_pending = "u16 \<rightharpoonup> pending_query"

record forwarder =
  fw_cache :: dns_cache
  fw_pending :: dns_pending
  fw_servers :: "ip list"
  fw_hosts :: "string \<rightharpoonup> ip"
  fw_ips :: "ip \<rightharpoonup> string"
  fw_limiter :: dns_rate_limiter
  fw_stats :: dns_stats_info

record dns_env =
  de_now :: instant
  de_cache_order :: "string list"
  de_pending_order :: "u16 list"
  de_random :: "u16 list"
  de_send_ok :: bool
  de_round :: "rat \<Rightarrow> f64"

abbreviation map_len :: "('k \<rightharpoonup> 'v) \<Rightarrow> nat" where
  "map_len m \<equiv> card (dom m)"

definition set_xid :: "u16 \<Rightarrow> bytes \<Rightarrow> bytes" where
  "set_xid x b = b[0 := be16 x ! 0, 1 := be16 x ! 1]"

section \<open>Replies to clients\<close>

definition extract_client_max_payload :: "'nm dns_lib \<Rightarrow> bytes \<Rightarrow> nat" where
  "extract_client_max_payload D query =
     (case dns_from_bytes D query of
        Some msg \<Rightarrow>
          (case dm_edns msg of
             Some p \<Rightarrow> min (max (unat p) RFC1035_MAX_UDP_PAYLOAD) MAX_EDNS_PAYLOAD_SIZE
           | None \<Rightarrow> RFC1035_MAX_UDP_PAYLOAD)
      | None \<Rightarrow> RFC1035_MAX_UDP_PAYLOAD)"

definition truncate_to_header :: "bytes \<Rightarrow> bytes" where
  "truncate_to_header response =
     (if DNS_HEADER_SIZE \<le> length response then take DNS_HEADER_SIZE (response[2 := response ! 2 OR 2])
      else response)"

definition prepare_client_response :: "'nm dns_lib \<Rightarrow> bytes \<Rightarrow> nat \<Rightarrow> bytes" where
  "prepare_client_response D response max_payload =
     (if length response \<le> max_payload then response
      else case dns_from_bytes D response of
        Some msg \<Rightarrow>
          (case dns_emit D (dns_truncate D msg) of
             (buf, ok) \<Rightarrow> if ok \<and> length buf \<le> max_payload then buf else truncate_to_header response)
      | None \<Rightarrow> truncate_to_header response)"

fun origin_send_reply :: "'nm dns_lib \<Rightarrow> client_origin \<Rightarrow> bytes \<Rightarrow> nat option \<Rightarrow> dns_output" where
  "origin_send_reply D (OriginUdp src) response max_payload =
     UdpReply (case max_payload of Some cap \<Rightarrow> prepare_client_response D response cap | None \<Rightarrow> response) src"
| "origin_send_reply D (OriginTcp a n) response max_payload = TcpReply n response"

definition fanout_client_replies :: "'nm dns_lib \<Rightarrow> pending_client list \<Rightarrow> bytes \<Rightarrow> dns_output list" where
  "fanout_client_replies D clients reply =
     map (\<lambda>c. origin_send_reply D (pc_origin c) (set_xid (pc_xid c) reply) (Some (pc_max_payload c))) clients"

section \<open>The cache\<close>

definition evict_expired_cache :: "instant \<Rightarrow> dns_cache \<Rightarrow> dns_cache" where
  "evict_expired_cache now cache = retain (\<lambda>e. now < ce_expiry e) cache"

definition get_cache_key :: "'nm dns_lib \<Rightarrow> bytes \<Rightarrow> string option" where
  "get_cache_key D query =
     (case dns_from_bytes D query of
        None \<Rightarrow> None
      | Some packet \<Rightarrow>
          if dm_queries packet = [] \<or> dm_op packet \<noteq> OpQuery then None
          else let q = hd (dm_queries packet) in
            Some (to_ascii_lowercase (name_to_ascii D (q_name q)) @ '':'' @ show_record_type D (q_type q)
                  @ '':'' @ show_class D (q_class q)))"

definition lookup_cache :: "instant \<Rightarrow> string \<Rightarrow> dns_cache \<Rightarrow> bytes option \<times> dns_cache" where
  "lookup_cache now key cache =
     (case cache key of
        Some e \<Rightarrow> if now < ce_expiry e then (Some (ce_response e), cache) else (None, cache(key := None))
      | None \<Rightarrow> (None, cache))"

fun calculate_negative_ttl :: "'nm dns_record list \<Rightarrow> duration" where
  "calculate_negative_ttl [] = from_secs (unat DEFAULT_NEGATIVE_TTL_SECS)"
| "calculate_negative_ttl (r # rs) =
     (case rr_data r of
        RdataSOA minimum \<Rightarrow>
          from_secs (unat (min (max (min (rr_ttl r) minimum) MIN_NEGATIVE_TTL_SECS) MAX_NEGATIVE_TTL_SECS))
      | _ \<Rightarrow> calculate_negative_ttl rs)"

definition calculate_cache_ttl :: "'nm dns_message \<Rightarrow> duration option" where
  "calculate_cache_ttl packet =
     (if dm_truncation packet \<or> dm_type packet \<noteq> DnsResponse then None
      else case dm_rcode packet of
        NoError \<Rightarrow>
          if dm_answers packet \<noteq> []
          then let raw_ttl = Min (rr_ttl ` set (dm_answers packet)) in
               if raw_ttl = 0 then None else Some (from_secs (unat (min MAX_TTL_SECS raw_ttl)))
          else Some (calculate_negative_ttl (dm_authorities packet))
      | NXDomain \<Rightarrow> Some (calculate_negative_ttl (dm_authorities packet))
      | _ \<Rightarrow> None)"

text \<open>\<open>min_by_key\<close> over the entries, in hash order: the first entry with the least expiry.\<close>

fun oldest_entry :: "string list \<Rightarrow> dns_cache \<Rightarrow> string option" where
  "oldest_entry [] cache = None"
| "oldest_entry (k # ks) cache =
     (case cache k of
        None \<Rightarrow> oldest_entry ks cache
      | Some e \<Rightarrow>
          (case oldest_entry ks cache of
             None \<Rightarrow> Some k
           | Some k' \<Rightarrow>
               (case cache k' of
                  Some e' \<Rightarrow> if ce_expiry e \<le> ce_expiry e' then Some k else Some k'
                | None \<Rightarrow> Some k)))"

definition make_room :: "dns_env \<Rightarrow> string \<Rightarrow> dns_cache \<Rightarrow> dns_cache" where
  "make_room env key cache =
     (if MAX_CACHE_ENTRIES \<le> map_len cache \<and> cache key = None
      then let cache1 = evict_expired_cache (de_now env) cache in
           if MAX_CACHE_ENTRIES \<le> map_len cache1
           then (case oldest_entry (de_cache_order env) cache1 of Some k \<Rightarrow> cache1(k := None) | None \<Rightarrow> cache1)
           else cache1
      else cache)"

definition insert_cache :: "'nm dns_lib \<Rightarrow> dns_env \<Rightarrow> string \<Rightarrow> bytes \<Rightarrow> dns_cache \<Rightarrow> dns_cache" where
  "insert_cache D env key response cache =
     (if length response < DNS_HEADER_SIZE then cache
      else case dns_from_bytes D response of
        None \<Rightarrow> cache
      | Some packet \<Rightarrow>
          (case calculate_cache_ttl packet of
             None \<Rightarrow> cache
           | Some ttl \<Rightarrow>
               (make_room env key cache)(key \<mapsto> \<lparr> ce_response = response, ce_expiry = de_now env + ttl \<rparr>)))"

section \<open>Local names\<close>

definition extract_local_forward_name :: "string \<Rightarrow> (string \<times> bool) option" where
  "extract_local_forward_name name =
     (let lower = to_ascii_lowercase (trim_end_matches CHR ''.'' name) in
      if lower = LOCAL_DOMAIN \<or> lower = [] then None
      else case strip_suffix lower (CHR ''.'' # LOCAL_DOMAIN) of
        Some prefix \<Rightarrow> if CHR ''.'' \<notin> set prefix then Some (prefix, True) else None
      | None \<Rightarrow> if CHR ''.'' \<notin> set lower then Some (lower, False) else None)"

definition is_mdns_local_domain :: "string \<Rightarrow> bool" where
  "is_mdns_local_domain name =
     (let lower = to_ascii_lowercase (trim_end_matches CHR ''.'' name) in
      lower = MDNS_DOMAIN \<or> ends_with lower (CHR ''.'' # MDNS_DOMAIN))"

definition authoritative_message :: "'nm dns_message \<Rightarrow> rcode \<Rightarrow> 'nm dns_record option \<Rightarrow> 'nm dns_message" where
  "authoritative_message query rc answer = \<lparr>
     dm_id = dm_id query, dm_type = DnsResponse, dm_op = OpQuery, dm_authoritative = True,
     dm_truncation = False, dm_recursion_desired = dm_recursion_desired query,
     dm_recursion_available = True, dm_rcode = rc, dm_queries = dm_queries query,
     dm_answers = (case answer of Some r \<Rightarrow> [r] | None \<Rightarrow> []), dm_authorities = [], dm_edns = None \<rparr>"

definition build_authoritative_response ::
  "'nm dns_lib \<Rightarrow> 'nm dns_message \<Rightarrow> rcode \<Rightarrow> 'nm dns_record option \<Rightarrow> bytes" where
  "build_authoritative_response D query rc answer = fst (dns_emit D (authoritative_message query rc answer))"

definition build_authoritative_nodata_response :: "'nm dns_lib \<Rightarrow> 'nm dns_message \<Rightarrow> bytes" where
  "build_authoritative_nodata_response D query = build_authoritative_response D query NoError None"

definition build_authoritative_a_response :: "'nm dns_lib \<Rightarrow> 'nm dns_message \<Rightarrow> 'nm \<Rightarrow> ip \<Rightarrow> bytes" where
  "build_authoritative_a_response D query qname i =
     build_authoritative_response D query NoError
       (Some \<lparr> rr_name = qname, rr_ttl = DEFAULT_TTL_SECS, rr_data = RdataA i \<rparr>)"

definition build_authoritative_ptr_response :: "'nm dns_lib \<Rightarrow> 'nm dns_message \<Rightarrow> 'nm \<Rightarrow> 'nm \<Rightarrow> bytes" where
  "build_authoritative_ptr_response D query qname target =
     build_authoritative_response D query NoError
       (Some \<lparr> rr_name = qname, rr_ttl = DEFAULT_TTL_SECS, rr_data = RdataPTR target \<rparr>)"

definition build_authoritative_nxdomain_response :: "'nm dns_lib \<Rightarrow> 'nm dns_message \<Rightarrow> bytes" where
  "build_authoritative_nxdomain_response D query = build_authoritative_response D query NXDomain None"

definition resolve_ptr :: "'nm dns_lib \<Rightarrow> 'nm dns_message \<Rightarrow> 'nm \<Rightarrow> (ip \<rightharpoonup> string) \<Rightarrow> bytes option" where
  "resolve_ptr D query qname ips =
     (case dns_parse_arpa D qname of
        Some (a, plen) \<Rightarrow>
          if plen = 32
          then (case ips a of
                  Some hostname \<Rightarrow>
                    (case name_from_ascii D (hostname @ ''.'' @ LOCAL_DOMAIN @ ''.'') of
                       Some target \<Rightarrow> Some (build_authoritative_ptr_response D query qname target)
                     | None \<Rightarrow> None)
                | None \<Rightarrow> None)
          else None
      | None \<Rightarrow> None)"

definition try_resolve_local_query ::
  "'nm dns_lib \<Rightarrow> bytes \<Rightarrow> (string \<rightharpoonup> ip) \<Rightarrow> (ip \<rightharpoonup> string) \<Rightarrow> bytes option" where
  "try_resolve_local_query D query hosts ips =
     (case dns_from_bytes D query of
        None \<Rightarrow> None
      | Some msg \<Rightarrow>
          if dm_op msg \<noteq> OpQuery \<or> dm_queries msg = [] then None
          else
            let question = hd (dm_queries msg);
                qname = q_name question;
                qname_str = name_to_utf8 D qname;
                qtype = q_type question;
                rest = (if qtype = TypePTR then resolve_ptr D msg qname ips
                        else if is_mdns_local_domain qname_str
                        then Some (build_authoritative_nxdomain_response D msg) else None)
            in case extract_local_forward_name qname_str of
                 Some (label, is_lan_qualified) \<Rightarrow>
                   (case hosts label of
                      Some i \<Rightarrow>
                        Some (if qtype = TypeA then build_authoritative_a_response D msg qname i
                              else build_authoritative_nodata_response D msg)
                    | None \<Rightarrow>
                        if is_lan_qualified then Some (build_authoritative_nxdomain_response D msg) else rest)
               | None \<Rightarrow> rest)"

end
