(* ===== verification/Dns_Loop.thy ===== *)
theory Dns_Loop
  imports Dns_Forwarder
begin

text \<open>
  The forwarder's handlers and its event loop (\<open>handle_incoming_query\<close> to
  \<open>check_pending_timeouts\<close> and \<open>run_forwarder_loop\<close> of \<open>dns_forwarder/worker.rs\<close>), and the
  framing of DNS over TCP.
\<close>

section \<open>Upstream queries\<close>

definition get_upstream_resolvers :: "ip list \<Rightarrow> ip list" where
  "get_upstream_resolvers configured =
     (let valid = filter is_valid_upstream_resolver configured in
      if valid \<noteq> [] then valid else [FALLBACK_DNS_SERVER])"

text \<open>
  The loop draws random numbers until one is usable. \<open>draw_xid\<close> runs it on a finite list of
  draws: \<open>None\<close> says that it has not returned after all of them.
\<close>

fun draw_xid :: "dns_pending \<Rightarrow> u16 list \<Rightarrow> u16 option" where
  "draw_xid pending [] = None"
| "draw_xid pending (x # xs) = (if x = 0 \<or> pending x \<noteq> None then draw_xid pending xs else Some x)"

datatype 'a draw_result = DrawsExhausted | Drawn 'a

definition allocate_unique_xid :: "dns_pending \<Rightarrow> u16 list \<Rightarrow> u16 option draw_result" where
  "allocate_unique_xid pending draws =
     (if MAX_PENDING_QUERIES \<le> map_len pending then Drawn None
      else case draw_xid pending draws of None \<Rightarrow> DrawsExhausted | Some x \<Rightarrow> Drawn (Some x))"

definition try_join_in_flight_query ::
  "'nm dns_lib \<Rightarrow> dns_env \<Rightarrow> string \<Rightarrow> bytes \<Rightarrow> client_origin \<Rightarrow> dns_pending \<Rightarrow> dns_pending option" where
  "try_join_in_flight_query D env key query origin pending =
     (case find_entry (de_pending_order env) pending (\<lambda>x p. pq_cache_key p = key) of
        None \<Rightarrow> None
      | Some x \<Rightarrow>
          (case pending x of
             None \<Rightarrow> None
           | Some existing \<Rightarrow>
               if MAX_JOINED_CLIENTS_PER_QUERY \<le> length (pq_clients existing) then None
               else Some (pending(x \<mapsto> existing\<lparr> pq_clients := pq_clients existing
                 @ [\<lparr> pc_origin = origin, pc_xid = de16 query,
                      pc_max_payload = extract_client_max_payload D query \<rparr>] \<rparr>))))"

definition forward_new_client_query ::
  "'nm dns_lib \<Rightarrow> dns_env \<Rightarrow> bytes \<Rightarrow> client_origin \<Rightarrow> string \<Rightarrow> ip list \<Rightarrow> dns_pending
     \<Rightarrow> (dns_output list \<times> dns_pending) draw_result" where
  "forward_new_client_query D env query origin key configured pending =
     (if MAX_PENDING_QUERIES \<le> map_len pending then Drawn ([], pending)
      else case allocate_unique_xid pending (de_random env) of
        DrawsExhausted \<Rightarrow> DrawsExhausted
      | Drawn None \<Rightarrow> Drawn ([], pending)
      | Drawn (Some xid) \<Rightarrow>
          let servers = get_upstream_resolvers configured in
          Drawn ([Forward (set_xid xid query) (hd servers)],
            if de_send_ok env
            then pending(xid \<mapsto> \<lparr>
              pq_clients = [\<lparr> pc_origin = origin, pc_xid = de16 query,
                              pc_max_payload = extract_client_max_payload D query \<rparr>],
              pq_cache_key = key, pq_payload = query, pq_servers = servers, pq_idx = 0,
              pq_deadline = de_now env + UPSTREAM_TIMEOUT \<rparr>)
            else pending))"

definition count_query :: "dns_stats_info \<Rightarrow> dns_stats_info" where
  "count_query s = s\<lparr> queries_total := saturating_add64 (queries_total s) 1 \<rparr>"

definition count_hit :: "dns_stats_info \<Rightarrow> dns_stats_info" where
  "count_hit s = s\<lparr> cache_hits_total := saturating_add64 (cache_hits_total s) 1 \<rparr>"

definition count_drop :: "dns_stats_info \<Rightarrow> dns_stats_info" where
  "count_drop s = s\<lparr> rate_limited_drops_total := saturating_add64 (rate_limited_drops_total s) 1 \<rparr>"

text \<open>The last part of the handler: the query has to go upstream.\<close>

definition query_upstream ::
  "'nm dns_lib \<Rightarrow> dns_env \<Rightarrow> bytes \<Rightarrow> client_origin \<Rightarrow> string \<Rightarrow> forwarder \<Rightarrow> (dns_output list \<times> forwarder) draw_result" where
  "query_upstream D env query origin key fw =
     (case fst (peer_addr origin) of
        IpV6 a \<Rightarrow> Drawn ([], fw)
      | IpV4 client \<Rightarrow>
          (case limiter_check (de_round env) (de_now env) client (fw_limiter fw) of
             (False, rl) \<Rightarrow> Drawn ([], fw\<lparr> fw_limiter := rl, fw_stats := count_drop (fw_stats fw) \<rparr>)
           | (True, rl) \<Rightarrow>
               let fw1 = fw\<lparr> fw_limiter := rl \<rparr> in
               (case try_join_in_flight_query D env key query origin (fw_pending fw1) of
                  Some pending \<Rightarrow> Drawn ([], fw1\<lparr> fw_pending := pending \<rparr>)
                | None \<Rightarrow>
                    (case forward_new_client_query D env query origin key (fw_servers fw1) (fw_pending fw1) of
                       DrawsExhausted \<Rightarrow> DrawsExhausted
                     | Drawn (out, pending) \<Rightarrow> Drawn (out, fw1\<lparr> fw_pending := pending \<rparr>)))))"

definition handle_incoming_query ::
  "'nm dns_lib \<Rightarrow> dns_env \<Rightarrow> bytes \<Rightarrow> client_origin \<Rightarrow> forwarder \<Rightarrow> (dns_output list \<times> forwarder) draw_result" where
  "handle_incoming_query D env query origin fw0 =
     (if length query < DNS_HEADER_SIZE then Drawn ([], fw0)
      else
        let fw = fw0\<lparr> fw_stats := count_query (fw_stats fw0) \<rparr> in
        case try_resolve_local_query D query (fw_hosts fw) (fw_ips fw) of
          Some resp \<Rightarrow> Drawn ([origin_send_reply D origin resp None], fw)
        | None \<Rightarrow>
            (case get_cache_key D query of
               None \<Rightarrow> Drawn ([], fw)
             | Some key \<Rightarrow>
                 (case lookup_cache (de_now env) key (fw_cache fw) of
                    (Some response, cache) \<Rightarrow>
                      Drawn ([origin_send_reply D origin (response[0 := query ! 0, 1 := query ! 1])
                               (Some (extract_client_max_payload D query))],
                        fw\<lparr> fw_cache := cache, fw_stats := count_hit (fw_stats fw) \<rparr>)
                  | (None, cache) \<Rightarrow> query_upstream D env query origin key (fw\<lparr> fw_cache := cache \<rparr>))))"

section \<open>Upstream replies\<close>

definition try_failover_upstream_query :: "instant \<Rightarrow> u16 \<Rightarrow> pending_query \<Rightarrow> (pending_query \<times> dns_output) option" where
  "try_failover_upstream_query now xid q =
     (if length (pq_servers q) \<le> pq_idx q + 1 then None
      else let q' = q\<lparr> pq_idx := pq_idx q + 1, pq_deadline := now + UPSTREAM_TIMEOUT \<rparr> in
        Some (q', Forward (if 2 \<le> length (pq_payload q') then set_xid xid (pq_payload q') else pq_payload q')
                    (pq_servers q' ! pq_idx q')))"

definition spawn_upstream_tcp_fallback :: "pending_query \<Rightarrow> u16 \<Rightarrow> bytes \<Rightarrow> dns_output" where
  "spawn_upstream_tcp_fallback q xid fallback =
     SpawnTcpFallback (pq_servers q ! pq_idx q) (pq_payload q) xid (pq_cache_key q) fallback (pq_clients q)"

definition deliver_reply ::
  "'nm dns_lib \<Rightarrow> dns_env \<Rightarrow> u16 \<Rightarrow> pending_query \<Rightarrow> bytes \<Rightarrow> forwarder \<Rightarrow> dns_output list \<times> forwarder" where
  "deliver_reply D env xid q reply fw =
     (fanout_client_replies D (pq_clients q) reply,
      fw\<lparr> fw_pending := (fw_pending fw)(xid := None),
          fw_cache := insert_cache D env (pq_cache_key q) reply (fw_cache fw) \<rparr>)"

definition handle_upstream_reply ::
  "'nm dns_lib \<Rightarrow> dns_env \<Rightarrow> bytes \<Rightarrow> sock_addr \<Rightarrow> forwarder \<Rightarrow> dns_output list \<times> forwarder" where
  "handle_upstream_reply D env reply from_addr fw =
     (if length reply < DNS_HEADER_SIZE then ([], fw)
      else
        let xid = de16 reply in
        case fw_pending fw xid of
          None \<Rightarrow> ([], fw)
        | Some q \<Rightarrow>
            if from_addr \<noteq> (IpV4 (pq_servers q ! pq_idx q), DNS_PORT) then ([], fw)
            else if reply ! 2 AND 2 \<noteq> 0
            then ([spawn_upstream_tcp_fallback q xid reply],
                  fw\<lparr> fw_pending := (fw_pending fw)(xid := None) \<rparr>)
            else case dns_from_bytes D reply of
              None \<Rightarrow> ([], fw)
            | Some msg \<Rightarrow>
                if dm_rcode msg = ServFail \<or> dm_rcode msg = Refused
                then (case try_failover_upstream_query (de_now env) xid q of
                        Some (q', out) \<Rightarrow> ([out], fw\<lparr> fw_pending := (fw_pending fw)(xid \<mapsto> q') \<rparr>)
                      | None \<Rightarrow> deliver_reply D env xid q reply fw)
                else deliver_reply D env xid q reply fw)"

fun handle_upstream_tcp_event ::
  "'nm dns_lib \<Rightarrow> dns_env \<Rightarrow> upstream_tcp_event \<Rightarrow> forwarder \<Rightarrow> dns_output list \<times> forwarder" where
  "handle_upstream_tcp_event D env (TcpResolved key reply clients) fw =
     (fanout_client_replies D clients reply, fw\<lparr> fw_cache := insert_cache D env key reply (fw_cache fw) \<rparr>)"
| "handle_upstream_tcp_event D env (TcpFailed fallback clients) fw = (fanout_client_replies D clients fallback, fw)"

section \<open>Timeouts\<close>

definition overdue :: "instant \<Rightarrow> pending_query \<Rightarrow> bool" where
  "overdue now q \<longleftrightarrow> \<not> now < pq_deadline q"

fun retry_overdue :: "instant \<Rightarrow> u16 list \<Rightarrow> dns_pending \<Rightarrow> dns_output list \<times> dns_pending" where
  "retry_overdue now [] pending = ([], pending)"
| "retry_overdue now (xid # xids) pending =
     (case pending xid of
        None \<Rightarrow> retry_overdue now xids pending
      | Some q \<Rightarrow>
          (case try_failover_upstream_query now xid q of
             None \<Rightarrow> retry_overdue now xids pending
           | Some (q', out) \<Rightarrow>
               (case retry_overdue now xids (pending(xid \<mapsto> q')) of (outs, p) \<Rightarrow> (out # outs, p))))"

definition check_pending_timeouts :: "dns_env \<Rightarrow> dns_pending \<Rightarrow> dns_output list \<times> dns_pending" where
  "check_pending_timeouts env pending =
     (let now = de_now env;
          kept = retain (\<lambda>q. now < pq_deadline q \<or> pq_idx q + 1 < length (pq_servers q)) pending;
          retry_list = filter (\<lambda>x. case pending x of
              Some q \<Rightarrow> overdue now q \<and> pq_idx q + 1 < length (pq_servers q) | None \<Rightarrow> False) (de_pending_order env)
      in retry_overdue now retry_list kept)"

section \<open>The event loop\<close>

datatype dns_event =
    CleanupTick
  | ParentMessage dns_parent_to_worker
  | ParentClosed
  | ClientDatagram bytes sock_addr
  | TcpQuery bytes sock_addr nat
  | UpstreamDatagram bytes sock_addr
  | TcpFallbackDone upstream_tcp_event

fun on_dns_parent_msg :: "dns_parent_to_worker \<Rightarrow> forwarder \<Rightarrow> forwarder" where
  "on_dns_parent_msg (SetUpstreamResolvers servers) fw = fw\<lparr> fw_servers := servers \<rparr>"
| "on_dns_parent_msg (DnsRegisterLocalHost name i) fw =
     (let ips = (case fw_hosts fw name of Some old \<Rightarrow> (fw_ips fw)(old := None) | None \<Rightarrow> fw_ips fw) in
      fw\<lparr> fw_hosts := (fw_hosts fw)(name \<mapsto> i), fw_ips := ips(i \<mapsto> name) \<rparr>)"
| "on_dns_parent_msg (DnsDeregisterLocalHost name) fw =
     (case fw_hosts fw name of
        Some i \<Rightarrow> fw\<lparr> fw_hosts := (fw_hosts fw)(name := None), fw_ips := (fw_ips fw)(i := None) \<rparr>
      | None \<Rightarrow> fw)"

definition on_cleanup_tick :: "dns_env \<Rightarrow> forwarder \<Rightarrow> dns_output list \<times> forwarder" where
  "on_cleanup_tick env fw0 =
     (let fw1 = fw0\<lparr> fw_stats := (fw_stats fw0)\<lparr> cached_entries_count := map_len (fw_cache fw0) \<rparr> \<rparr>;
          fw2 = fw1\<lparr> fw_cache := evict_expired_cache (de_now env) (fw_cache fw1),
                     fw_limiter := retain_recent (de_now env) (fw_limiter fw1) \<rparr>
      in case check_pending_timeouts env (fw_pending fw2) of
           (outs, pending) \<Rightarrow> (ToParent (DnsHeartbeat (fw_stats fw1)) # outs, fw2\<lparr> fw_pending := pending \<rparr>))"

text \<open>One turn of the loop; \<open>None\<close> ends it. Accepting a TCP connection only spawns its task.\<close>

definition forwarder_step ::
  "'nm dns_lib \<Rightarrow> dns_env \<Rightarrow> dns_event \<Rightarrow> forwarder \<Rightarrow> (dns_output list \<times> forwarder) option draw_result" where
  "forwarder_step D env ev fw =
     (let run = (\<lambda>r. case r of DrawsExhausted \<Rightarrow> DrawsExhausted | Drawn x \<Rightarrow> Drawn (Some x)) in
      case ev of
        CleanupTick \<Rightarrow> Drawn (Some (on_cleanup_tick env fw))
      | ParentMessage m \<Rightarrow> Drawn (Some ([], on_dns_parent_msg m fw))
      | ParentClosed \<Rightarrow> Drawn None
      | ClientDatagram q src \<Rightarrow> run (handle_incoming_query D env q (OriginUdp src) fw)
      | TcpQuery q src n \<Rightarrow> run (handle_incoming_query D env q (OriginTcp src n) fw)
      | UpstreamDatagram r src \<Rightarrow> Drawn (Some (handle_upstream_reply D env r src fw))
      | TcpFallbackDone e \<Rightarrow> Drawn (Some (handle_upstream_tcp_event D env e fw)))"

definition forwarder_init :: forwarder where
  "forwarder_init = \<lparr> fw_cache = Map.empty, fw_pending = Map.empty, fw_servers = [], fw_hosts = Map.empty,
     fw_ips = Map.empty, fw_limiter = default_limiter,
     fw_stats = \<lparr> queries_total = 0, cache_hits_total = 0, cached_entries_count = 0, rate_limited_drops_total = 0 \<rparr> \<rparr>"

section \<open>DNS over TCP\<close>

text \<open>
  Reading from a stream gives the message and the rest, or \<open>None\<close> when the stream ends, stalls or
  announces a bad length. A fallback over TCP sends one framed query and reads one reply.
\<close>

definition read_tcp_dns_query :: "bytes \<Rightarrow> (bytes \<times> bytes) option" where
  "read_tcp_dns_query s =
     (if length s < 2 then None
      else let n = unat (de16 s) in
        if \<not> (DNS_HEADER_SIZE \<le> n \<and> n \<le> TCP_MAX_MESSAGE_SIZE) then None
        else if length (drop 2 s) < n then None
        else Some (take n (drop 2 s), drop n (drop 2 s)))"

definition write_tcp_dns_reply :: "bytes \<Rightarrow> io_error + bytes" where
  "write_tcp_dns_reply reply =
     (if TCP_MAX_MESSAGE_SIZE < length reply then Inl InvalidData
      else Inr (be16 (of_nat (length reply)) @ reply))"

lemma read_tcp_shrinks: "read_tcp_dns_query s = Some (q, rest) \<Longrightarrow> length rest < length s"
  by (auto simp: read_tcp_dns_query_def Let_def split: if_splits)

function tcp_connection_queries :: "bytes \<Rightarrow> bytes list" where
  "tcp_connection_queries s =
     (case read_tcp_dns_query s of None \<Rightarrow> [] | Some (q, rest) \<Rightarrow> q # tcp_connection_queries rest)"
  by pat_completeness auto
termination by (relation "measure length") (auto dest: read_tcp_shrinks)

declare tcp_connection_queries.simps [simp del]

definition fetch_upstream_tcp :: "bytes \<Rightarrow> u16 \<Rightarrow> (bytes \<Rightarrow> bytes option) \<Rightarrow> io_error + bytes" where
  "fetch_upstream_tcp payload xid serve =
     (let forwarded = (if 2 \<le> length payload then set_xid xid payload else payload) in
      and_then (write_tcp_dns_reply forwarded) (\<lambda>sent.
      case serve sent of
        None \<Rightarrow> Inl SocketError
      | Some stream \<Rightarrow>
          (case read_tcp_dns_query stream of Some (reply, _) \<Rightarrow> Inr reply | None \<Rightarrow> Inl UnexpectedEof)))"

definition tcp_fallback_event ::
  "bytes \<Rightarrow> u16 \<Rightarrow> string \<Rightarrow> bytes \<Rightarrow> pending_client list \<Rightarrow> (bytes \<Rightarrow> bytes option) \<Rightarrow> upstream_tcp_event" where
  "tcp_fallback_event payload xid key fallback clients serve =
     (case fetch_upstream_tcp payload xid serve of
        Inr reply \<Rightarrow> TcpResolved key reply clients
      | Inl e \<Rightarrow> TcpFailed fallback clients)"

end
