(* ===== verification/Dns_Props.thy ===== *)
theory Dns_Props
  imports Dns_Loop
begin

text \<open>
  What the DNS forwarder guarantees: bounds on its tables in every reachable state, the life
  of cached answers, the treatment of upstream replies, and the fate of pending queries.
\<close>

section \<open>Small facts\<close>

lemma length_set_xid [simp]: "length (set_xid x b) = length b"
  by (simp add: set_xid_def)

lemma de16_set_xid: "2 \<le> length b \<Longrightarrow> de16 (set_xid x b) = x"
  using de16_be16[of x] by (cases b; cases "tl b") (auto simp: de16_def set_xid_def)

lemma drop_set_xid: "2 \<le> n \<Longrightarrow> drop n (set_xid x b) = drop n b"
  by (simp add: set_xid_def)

lemma fallback_valid: "is_valid_upstream_resolver FALLBACK_DNS_SERVER"
  by (simp add: is_valid_upstream_resolver_def FALLBACK_DNS_SERVER_def is_unspecified_def is_broadcast_def
      is_loopback_def is_multicast_def is_link_local_def is_documentation_def octet_def ipv4_def)

lemma upstream_resolvers_valid:
  "get_upstream_resolvers c \<noteq> []" "i \<in> set (get_upstream_resolvers c) \<Longrightarrow> is_valid_upstream_resolver i"
  by (auto simp: get_upstream_resolvers_def Let_def fallback_valid split: if_splits)

lemma max_payload_range:
  "RFC1035_MAX_UDP_PAYLOAD \<le> extract_client_max_payload D q"
  "extract_client_max_payload D q \<le> MAX_EDNS_PAYLOAD_SIZE"
  by (auto simp: extract_client_max_payload_def RFC1035_MAX_UDP_PAYLOAD_def MAX_EDNS_PAYLOAD_SIZE_def
      split: option.split)

lemma prepared_fits:
  "DNS_HEADER_SIZE \<le> cap \<Longrightarrow> length (prepare_client_response D r cap) \<le> cap"
  by (auto simp: prepare_client_response_def truncate_to_header_def split: option.split prod.split)

lemma prepared_small: "length r \<le> cap \<Longrightarrow> prepare_client_response D r cap = r"
  by (simp add: prepare_client_response_def)

section \<open>How long answers are cached\<close>

lemma negative_ttl_range:
  "from_secs 5 \<le> calculate_negative_ttl rs \<and> calculate_negative_ttl rs \<le> from_secs 300"
proof (induction rs)
  case Nil
  show ?case by (simp add: DEFAULT_NEGATIVE_TTL_SECS_def)
next
  case (Cons r rs)
  have "(5 :: u32) \<le> min (max a 5) 300" "min (max a 5) 300 \<le> (300 :: u32)" for a
    by simp_all
  then have "5 \<le> unat (min (max a 5) 300 :: u32)" "unat (min (max a 5) 300 :: u32) \<le> 300" for a
    by (simp_all add: word_le_nat_alt)
  with Cons show ?case
    by (auto simp: MIN_NEGATIVE_TTL_SECS_def MAX_NEGATIVE_TTL_SECS_def split: rdata.split)
qed

lemma cache_ttl_range:
  assumes "calculate_cache_ttl m = Some d"
  shows "from_secs 1 \<le> d \<and> d \<le> from_secs 3600"
proof -
  have pos: "1 \<le> unat (min (3600 :: u32) x) \<and> unat (min (3600 :: u32) x) \<le> 3600" if "x \<noteq> 0" for x
  proof -
    have "0 < unat x" using that by (simp add: unat_gt_0)
    then show ?thesis by (simp add: min_def word_le_nat_alt)
  qed
  have neg: "from_secs 1 \<le> calculate_negative_ttl rs \<and> calculate_negative_ttl rs \<le> from_secs 3600"
    for rs :: "'a dns_record list"
    using negative_ttl_range[of rs] by (simp add: from_secs_def)
  show ?thesis using assms pos neg[of "dm_authorities m"]
    by (auto simp: calculate_cache_ttl_def MAX_TTL_SECS_def Let_def split: if_splits rcode.splits)
qed

text \<open>
  C33. A cached answer is served exactly while it is fresh. After an answer was cached at time
  \<open>t\<close>, a lookup under the same key returns that answer up to its time to live and nothing
  afterwards. The time to live is that of the answer: the least one among its records, cut at
  an hour, or for a negative answer between five seconds and five minutes; an answer that is
  truncated, not a response, an error or has a zero time to live is not cached.
\<close>

theorem cached_answer_fresh:
  assumes "dns_from_bytes D response = Some m" "DNS_HEADER_SIZE \<le> length response"
  shows "case calculate_cache_ttl m of
      None \<Rightarrow> insert_cache D env key response cache = cache
    | Some ttl \<Rightarrow> from_secs 1 \<le> ttl \<and> ttl \<le> from_secs 3600
        \<and> (\<forall>later. fst (lookup_cache later key (insert_cache D env key response cache))
             = (if later < de_now env + ttl then Some response else None))"
  using assms cache_ttl_range[of m] by (auto simp: insert_cache_def lookup_cache_def split: option.split)

section \<open>Making room in the cache\<close>

lemma oldest_entry_Some:
  assumes "k \<in> set ks" "cache k = Some e"
  shows "\<exists>k' e'. oldest_entry ks cache = Some k' \<and> cache k' = Some e' \<and> ce_expiry e' \<le> ce_expiry e"
  using assms
proof (induction ks)
  case (Cons a ks)
  have found: "oldest_entry ks cache = Some x \<Longrightarrow> \<exists>y. cache x = Some y" for x
  proof (induction ks arbitrary: x)
    case (Cons b ks)
    then show ?case by (auto split: option.splits if_splits)
  qed simp
  show ?case
  proof (cases "k \<in> set ks")
    case True
    with Cons obtain k' e' where o: "oldest_entry ks cache = Some k'" "cache k' = Some e'" "ce_expiry e' \<le> ce_expiry e"
      by blast
    then show ?thesis by (cases "cache a") auto
  next
    case False
    with Cons.prems have "a = k" by simp
    with Cons.prems(2) found show ?thesis
      by (cases "oldest_entry ks cache") (fastforce split: option.splits)+
  qed
qed simp

lemma make_room_subset: "make_room env key cache k = Some e \<Longrightarrow> cache k = Some e"
  by (auto simp: make_room_def Let_def evict_expired_cache_def split: if_splits option.splits)

lemma make_room_bound:
  assumes "finite (dom cache)" "card (dom cache) \<le> MAX_CACHE_ENTRIES" "dom cache \<subseteq> set (de_cache_order env)"
  shows "card (dom ((make_room env key cache)(key \<mapsto> e))) \<le> MAX_CACHE_ENTRIES"
    "finite (dom ((make_room env key cache)(key \<mapsto> e)))"
proof -
  let ?r = "make_room env key cache"
  have sub: "dom ?r \<subseteq> dom cache" using make_room_subset by (fastforce simp: dom_def)
  have fin: "finite (dom ?r)" by (rule finite_subset[OF sub assms(1)])
  show "finite (dom (?r(key \<mapsto> e)))" using fin by simp
  have "card (dom ?r) < MAX_CACHE_ENTRIES \<or> key \<in> dom ?r"
  proof (cases "MAX_CACHE_ENTRIES \<le> map_len cache \<and> cache key = None")
    case True
    let ?c1 = "evict_expired_cache (de_now env) cache"
    have d1: "dom ?c1 \<subseteq> dom cache" by (simp add: evict_expired_cache_def dom_retain)
    show ?thesis
    proof (cases "MAX_CACHE_ENTRIES \<le> map_len ?c1")
      case full: True
      then obtain k where k: "k \<in> dom ?c1" by (force simp: MAX_CACHE_ENTRIES_def)
      with d1 assms(3) have "k \<in> set (de_cache_order env)" by blast
      with k oldest_entry_Some[of k "de_cache_order env" ?c1] obtain k' e' where
        o: "oldest_entry (de_cache_order env) ?c1 = Some k'" "?c1 k' = Some e'" by blast
      have "?r = ?c1(k' := None)" using True full o by (simp add: make_room_def)
      then have "dom ?r \<subset> dom ?c1" using o(2) by auto
      then have "card (dom ?r) < card (dom ?c1)" by (rule psubset_card_mono[OF finite_subset[OF d1 assms(1)]])
      also have "\<dots> \<le> card (dom cache)" by (rule card_mono[OF assms(1) d1])
      finally show ?thesis using assms(2) by simp
    next
      case False
      then have "?r = ?c1" using True by (simp add: make_room_def)
      then show ?thesis using False by simp
    qed
  next
    case False
    then have "?r = cache" by (auto simp: make_room_def)
    then show ?thesis using False by auto
  qed
  then show "card (dom (?r(key \<mapsto> e))) \<le> MAX_CACHE_ENTRIES"
    using sub assms(1,2) fin card_mono[OF assms(1) sub] by (auto simp: card_insert_if insert_absorb)
qed

section \<open>Reachable forwarders\<close>

definition cache_ok :: "'nm dns_lib \<Rightarrow> instant \<Rightarrow> dns_cache \<Rightarrow> bool" where
  "cache_ok D now cache \<longleftrightarrow> finite (dom cache) \<and> card (dom cache) \<le> MAX_CACHE_ENTRIES
     \<and> (\<forall>k e. cache k = Some e \<longrightarrow> DNS_HEADER_SIZE \<le> length (ce_response e) \<and> ce_expiry e \<le> now + from_secs 3600
          \<and> (\<exists>m. dns_from_bytes D (ce_response e) = Some m \<and> calculate_cache_ttl m \<noteq> None))"

definition query_ok :: "instant \<Rightarrow> pending_query \<Rightarrow> bool" where
  "query_ok now q \<longleftrightarrow> pq_clients q \<noteq> [] \<and> length (pq_clients q) \<le> MAX_JOINED_CLIENTS_PER_QUERY
     \<and> (\<forall>c \<in> set (pq_clients q). RFC1035_MAX_UDP_PAYLOAD \<le> pc_max_payload c \<and> pc_max_payload c \<le> MAX_EDNS_PAYLOAD_SIZE)
     \<and> pq_idx q < length (pq_servers q) \<and> (\<forall>i \<in> set (pq_servers q). is_valid_upstream_resolver i)
     \<and> DNS_HEADER_SIZE \<le> length (pq_payload q) \<and> pq_deadline q \<le> now + UPSTREAM_TIMEOUT"

definition pending_ok :: "instant \<Rightarrow> dns_pending \<Rightarrow> bool" where
  "pending_ok now p \<longleftrightarrow> finite (dom p) \<and> card (dom p) \<le> MAX_PENDING_QUERIES
     \<and> (\<forall>x q. p x = Some q \<longrightarrow> x \<noteq> 0 \<and> query_ok now q)"

definition forwarder_ok :: "'nm dns_lib \<Rightarrow> instant \<Rightarrow> forwarder \<Rightarrow> bool" where
  "forwarder_ok D now fw \<longleftrightarrow> cache_ok D now (fw_cache fw) \<and> pending_ok now (fw_pending fw)
     \<and> limiter_ok now (fw_limiter fw)"

definition dns_env_ok :: "dns_env \<Rightarrow> forwarder \<Rightarrow> bool" where
  "dns_env_ok env fw \<longleftrightarrow> iterates (de_cache_order env) (fw_cache fw)
     \<and> iterates (de_pending_order env) (fw_pending fw) \<and> f64_rounding (de_round env)"

text \<open>
  A run of the loop: the clock does not go back, and a finished TCP fallback reports a reply
  read by \<open>read_tcp_dns_query\<close>.
\<close>

fun event_ok :: "dns_event \<Rightarrow> bool" where
  "event_ok (TcpFallbackDone (TcpResolved k r cs)) \<longleftrightarrow> DNS_HEADER_SIZE \<le> length r"
| "event_ok e \<longleftrightarrow> True"

inductive dns_reach :: "'nm dns_lib \<Rightarrow> instant \<Rightarrow> forwarder \<Rightarrow> bool" for D where
  init: "dns_reach D t forwarder_init"
| step: "dns_reach D t fw \<Longrightarrow> t \<le> de_now env \<Longrightarrow> dns_env_ok env fw \<Longrightarrow> event_ok ev \<Longrightarrow>
         forwarder_step D env ev fw = Drawn (Some (out, fw')) \<Longrightarrow> dns_reach D (de_now env) fw'"

lemma fetched_length: "fetch_upstream_tcp payload xid serve = Inr r \<Longrightarrow> DNS_HEADER_SIZE \<le> length r"
  by (auto simp: fetch_upstream_tcp_def read_tcp_dns_query_def Let_def split: option.splits if_splits)

subsection \<open>The parts\<close>

lemma cache_ok_insert:
  assumes "cache_ok D (de_now env) cache" "dom cache \<subseteq> set (de_cache_order env)"
  shows "cache_ok D (de_now env) (insert_cache D env key r cache)"
proof (cases "length r < DNS_HEADER_SIZE")
  case False
  show ?thesis
  proof (cases "Option.bind (dns_from_bytes D r) calculate_cache_ttl")
    case None
    then have "insert_cache D env key r cache = cache" by (auto simp: insert_cache_def split: option.split)
    with assms(1) show ?thesis by simp
  next
    case (Some ttl)
    then obtain m where m: "dns_from_bytes D r = Some m" "calculate_cache_ttl m = Some ttl"
      by (cases "dns_from_bytes D r") auto
    then have eq: "insert_cache D env key r cache =
        (make_room env key cache)(key \<mapsto> \<lparr> ce_response = r, ce_expiry = de_now env + ttl \<rparr>)"
      using False by (simp add: insert_cache_def)
    have "finite (dom cache)" "card (dom cache) \<le> MAX_CACHE_ENTRIES" using assms(1) by (auto simp: cache_ok_def)
    note room = make_room_bound[OF this assms(2), of key "\<lparr> ce_response = r, ce_expiry = de_now env + ttl \<rparr>"]
    show ?thesis unfolding cache_ok_def eq
    proof (intro conjI allI impI)
      fix k e
      assume "((make_room env key cache)(key \<mapsto> \<lparr> ce_response = r, ce_expiry = de_now env + ttl \<rparr>)) k = Some e"
      then have "k = key \<and> e = \<lparr> ce_response = r, ce_expiry = de_now env + ttl \<rparr> \<or> cache k = Some e"
        using make_room_subset by (auto split: if_splits)
      then show "DNS_HEADER_SIZE \<le> length (ce_response e)" "ce_expiry e \<le> de_now env + from_secs 3600"
        "\<exists>m. dns_from_bytes D (ce_response e) = Some m \<and> calculate_cache_ttl m \<noteq> None"
        using assms(1) m cache_ttl_range[OF m(2)] False by (auto simp: cache_ok_def)
    qed (use room in auto)
  qed
qed (use assms(1) in \<open>simp add: insert_cache_def\<close>)

lemma cache_ok_subset:
  assumes "cache_ok D now cache" "\<And>k e. cache' k = Some e \<Longrightarrow> cache k = Some e"
  shows "cache_ok D now cache'"
proof -
  have "dom cache' \<subseteq> dom cache" using assms(2) by (fastforce simp: dom_def)
  with assms(1) have "finite (dom cache')" "card (dom cache') \<le> MAX_CACHE_ENTRIES"
    using finite_subset card_mono[of "dom cache" "dom cache'"] by (auto simp: cache_ok_def)
  with assms show ?thesis unfolding cache_ok_def by blast
qed

lemma pending_ok_subset:
  assumes "pending_ok now p" "\<And>x q. p' x = Some q \<Longrightarrow> p x = Some q"
  shows "pending_ok now p'"
proof -
  have "dom p' \<subseteq> dom p" using assms(2) by (fastforce simp: dom_def)
  with assms(1) have "finite (dom p')" "card (dom p') \<le> MAX_PENDING_QUERIES"
    using finite_subset card_mono[of "dom p" "dom p'"] by (auto simp: pending_ok_def)
  with assms show ?thesis by (auto simp: pending_ok_def)
qed

lemma pending_okD: "pending_ok now p \<Longrightarrow> p x = Some q \<Longrightarrow> x \<noteq> 0 \<and> query_ok now q"
  by (simp add: pending_ok_def)

lemma pending_ok_replace:
  assumes "pending_ok now p" "p x \<noteq> None" "query_ok now q"
  shows "pending_ok now (p(x \<mapsto> q))"
  using assms by (auto simp: pending_ok_def insert_absorb domI)

lemma pending_ok_new:
  assumes "pending_ok now p" "card (dom p) < MAX_PENDING_QUERIES" "x \<noteq> 0" "query_ok now q"
  shows "pending_ok now (p(x \<mapsto> q))"
  using assms by (auto simp: pending_ok_def card_insert_if)

lemma forwarder_ok_later:
  assumes "forwarder_ok D t fw" "t \<le> t'"
  shows "forwarder_ok D t' fw"
proof -
  have "limiter_ok t' (fw_limiter fw)"
    using assms potential_advance(2) by (auto simp: forwarder_ok_def)
  moreover have "cache_ok D t' (fw_cache fw)"
    using assms by (fastforce simp: forwarder_ok_def cache_ok_def)
  moreover have "query_ok t q \<Longrightarrow> query_ok t' q" for q using assms(2) by (auto simp: query_ok_def)
  then have "pending_ok t' (fw_pending fw)" using assms(1) by (auto simp: forwarder_ok_def pending_ok_def)
  ultimately show ?thesis by (simp add: forwarder_ok_def)
qed

lemma query_ok_failover:
  assumes "query_ok now q" "try_failover_upstream_query now xid q = Some (q', out)"
  shows "query_ok now q'"
  using assms by (auto simp: try_failover_upstream_query_def Let_def query_ok_def split: if_splits)

lemma draw_xid_usable: "draw_xid p xs = Some x \<Longrightarrow> x \<noteq> 0 \<and> p x = None \<and> x \<in> set xs"
  by (induction xs) (auto split: if_splits)

lemma lookup_subset: "lookup_cache now key cache = (r, cache') \<Longrightarrow> cache' k = Some e \<Longrightarrow> cache k = Some e"
  by (auto simp: lookup_cache_def split: option.splits if_splits)

lemma join_ok:
  assumes "pending_ok now p" "try_join_in_flight_query D env key query origin p = Some p'"
  shows "pending_ok now p'"
proof -
  obtain x q where q: "p x = Some q" "\<not> MAX_JOINED_CLIENTS_PER_QUERY \<le> length (pq_clients q)"
    "p' = p(x \<mapsto> q\<lparr> pq_clients := pq_clients q @ [\<lparr> pc_origin = origin, pc_xid = de16 query,
                      pc_max_payload = extract_client_max_payload D query \<rparr>] \<rparr>)"
    using assms(2) by (auto simp: try_join_in_flight_query_def split: option.splits if_splits)
  have "query_ok now q" using pending_okD[OF assms(1) q(1)] by blast
  then have "query_ok now (q\<lparr> pq_clients := pq_clients q @ [\<lparr> pc_origin = origin, pc_xid = de16 query,
                      pc_max_payload = extract_client_max_payload D query \<rparr>] \<rparr>)"
    using q(2) max_payload_range[of D query] by (auto simp: query_ok_def)
  then show ?thesis unfolding q(3) by (intro pending_ok_replace[OF assms(1)]) (simp_all add: q(1))
qed

lemma forward_ok:
  assumes "pending_ok (de_now env) p" "DNS_HEADER_SIZE \<le> length query"
    "forward_new_client_query D env query origin key configured p = Drawn (out, p')"
  shows "pending_ok (de_now env) p'"
proof (cases "p' = p")
  case False
  then obtain x where x: "draw_xid p (de_random env) = Some x" "card (dom p) < MAX_PENDING_QUERIES"
    "p' = p(x \<mapsto> \<lparr> pq_clients = [\<lparr> pc_origin = origin, pc_xid = de16 query,
                              pc_max_payload = extract_client_max_payload D query \<rparr>],
              pq_cache_key = key, pq_payload = query, pq_servers = get_upstream_resolvers configured, pq_idx = 0,
              pq_deadline = de_now env + UPSTREAM_TIMEOUT \<rparr>)"
    using assms(3)
    by (auto simp: forward_new_client_query_def allocate_unique_xid_def Let_def
        split: if_splits option.splits draw_result.splits)
  have "x \<noteq> 0" using draw_xid_usable[OF x(1)] by blast
  with x assms(1,2) max_payload_range[of D query] show ?thesis
    by (auto intro!: pending_ok_new simp: query_ok_def upstream_resolvers_valid MAX_JOINED_CLIENTS_PER_QUERY_def)
qed (use assms(1) in simp)

lemma upstream_query_ok:
  assumes "forwarder_ok D (de_now env) fw" "f64_rounding (de_round env)" "DNS_HEADER_SIZE \<le> length query"
    "query_upstream D env query origin key fw = Drawn (out, fw')"
  shows "forwarder_ok D (de_now env) fw'"
proof (cases "fst (peer_addr origin)")
  case (IpV4 c)
  obtain ok rl where c: "limiter_check (de_round env) (de_now env) c (fw_limiter fw) = (ok, rl)" by fastforce
  have f: "cache_ok D (de_now env) (fw_cache fw)" "pending_ok (de_now env) (fw_pending fw)"
    "limiter_ok (de_now env) (fw_limiter fw)" using assms(1) by (simp_all add: forwarder_ok_def)
  have rl: "limiter_ok (de_now env) rl" by (rule check_step(1)[OF assms(2) f(3) c])
  have "fw_cache fw' = fw_cache fw \<and> fw_limiter fw' = rl \<and> (fw_pending fw' = fw_pending fw
      \<or> try_join_in_flight_query D env key query origin (fw_pending fw) = Some (fw_pending fw')
      \<or> forward_new_client_query D env query origin key (fw_servers fw) (fw_pending fw) = Drawn (out, fw_pending fw'))"
    using assms(4) IpV4 c
    by (auto simp: query_upstream_def Let_def split: bool.splits option.splits draw_result.splits prod.splits)
  with f rl join_ok[OF f(2)] forward_ok[OF f(2) assms(3)] show ?thesis by (auto simp: forwarder_ok_def)
qed (use assms(1,4) in \<open>simp add: query_upstream_def\<close>)

text \<open>The branches of the two big handlers.\<close>

lemma incoming_cases:
  assumes "handle_incoming_query D env query origin fw = Drawn (out, fw')" "DNS_HEADER_SIZE \<le> length query"
    "fw1 = fw\<lparr> fw_stats := count_query (fw_stats fw) \<rparr>"
  shows "(\<exists>resp. try_resolve_local_query D query (fw_hosts fw) (fw_ips fw) = Some resp
        \<and> out = [origin_send_reply D origin resp None] \<and> fw' = fw1)
    \<or> (try_resolve_local_query D query (fw_hosts fw) (fw_ips fw) = None \<and> get_cache_key D query = None
        \<and> out = [] \<and> fw' = fw1)
    \<or> (\<exists>key r cache. get_cache_key D query = Some key
        \<and> try_resolve_local_query D query (fw_hosts fw) (fw_ips fw) = None
        \<and> lookup_cache (de_now env) key (fw_cache fw1) = (Some r, cache)
        \<and> out = [origin_send_reply D origin (r[0 := query ! 0, 1 := query ! 1]) (Some (extract_client_max_payload D query))]
        \<and> fw' = fw1\<lparr> fw_cache := cache, fw_stats := count_hit (fw_stats fw1) \<rparr>)
    \<or> (\<exists>key cache. get_cache_key D query = Some key
        \<and> try_resolve_local_query D query (fw_hosts fw) (fw_ips fw) = None
        \<and> lookup_cache (de_now env) key (fw_cache fw1) = (None, cache)
        \<and> query_upstream D env query origin key (fw1\<lparr> fw_cache := cache \<rparr>) = Drawn (out, fw'))"
proof (cases "try_resolve_local_query D query (fw_hosts fw) (fw_ips fw)")
  case None
  show ?thesis
  proof (cases "get_cache_key D query")
    case (Some key)
    obtain r cache where l: "lookup_cache (de_now env) key (fw_cache fw) = (r, cache)" by fastforce
    show ?thesis using assms None Some l by (cases r) (simp_all add: handle_incoming_query_def)
  qed (use assms None in \<open>simp add: handle_incoming_query_def\<close>)
qed (use assms in \<open>simp add: handle_incoming_query_def\<close>)

lemma upstream_reply_cases:
  assumes "handle_upstream_reply D env reply src fw = (out, fw')"
  shows "out = [] \<and> fw' = fw
    \<or> (\<exists>q. fw_pending fw (de16 reply) = Some q \<and> DNS_HEADER_SIZE \<le> length reply
        \<and> src = (IpV4 (pq_servers q ! pq_idx q), DNS_PORT)
        \<and> (out = [spawn_upstream_tcp_fallback q (de16 reply) reply]
             \<and> fw' = fw\<lparr> fw_pending := (fw_pending fw)(de16 reply := None) \<rparr>
           \<or> (out, fw') = deliver_reply D env (de16 reply) q reply fw
           \<or> (\<exists>q' o'. try_failover_upstream_query (de_now env) (de16 reply) q = Some (q', o')
                \<and> out = [o'] \<and> fw' = fw\<lparr> fw_pending := (fw_pending fw)(de16 reply \<mapsto> q') \<rparr>)))"
proof (cases "fw_pending fw (de16 reply)")
  case (Some q)
  show ?thesis
  proof (cases "length reply < DNS_HEADER_SIZE \<or> src \<noteq> (IpV4 (pq_servers q ! pq_idx q), DNS_PORT)")
    case False
    show ?thesis
    proof (cases "reply ! 2 AND 2 = 0")
      case True
      show ?thesis
        using assms Some False True
        by (cases "dns_from_bytes D reply"; cases "try_failover_upstream_query (de_now env) (de16 reply) q")
          (auto simp: handle_upstream_reply_def Let_def split: if_splits)
    qed (use assms Some False in \<open>auto simp: handle_upstream_reply_def Let_def\<close>)
  qed (use assms Some in \<open>auto simp: handle_upstream_reply_def Let_def split: if_splits\<close>)
qed (use assms in \<open>auto simp: handle_upstream_reply_def Let_def split: if_splits\<close>)

lemma incoming_ok:
  assumes "forwarder_ok D (de_now env) fw" "f64_rounding (de_round env)"
    "handle_incoming_query D env query origin fw = Drawn (out, fw')"
  shows "forwarder_ok D (de_now env) fw'"
proof (cases "length query < DNS_HEADER_SIZE")
  case False
  define fw1 where "fw1 = fw\<lparr> fw_stats := count_query (fw_stats fw) \<rparr>"
  have f1: "forwarder_ok D (de_now env) fw1" using assms(1) by (simp add: forwarder_ok_def fw1_def)
  then have f: "cache_ok D (de_now env) (fw_cache fw1)" "pending_ok (de_now env) (fw_pending fw1)"
    "limiter_ok (de_now env) (fw_limiter fw1)" by (simp_all add: forwarder_ok_def)
  consider "fw' = fw1" | key r cache where "lookup_cache (de_now env) key (fw_cache fw1) = (r, cache)"
      "fw' = fw1\<lparr> fw_cache := cache, fw_stats := count_hit (fw_stats fw1) \<rparr>"
    | key r cache where "lookup_cache (de_now env) key (fw_cache fw1) = (r, cache)"
      "query_upstream D env query origin key (fw1\<lparr> fw_cache := cache \<rparr>) = Drawn (out, fw')"
    using incoming_cases[OF assms(3) _ fw1_def] False unfolding not_less by blast
  then show ?thesis
  proof cases
    case 2
    have "cache_ok D (de_now env) cache" by (rule cache_ok_subset[OF f(1)]) (rule lookup_subset[OF 2(1)])
    with f show ?thesis by (simp add: forwarder_ok_def 2(2))
  next
    case 3
    have "cache_ok D (de_now env) cache" by (rule cache_ok_subset[OF f(1)]) (rule lookup_subset[OF 3(1)])
    with f have "forwarder_ok D (de_now env) (fw1\<lparr> fw_cache := cache \<rparr>)" by (simp add: forwarder_ok_def)
    from upstream_query_ok[OF this assms(2) _ 3(2)] False show ?thesis by simp
  qed (use f1 in simp)
qed (use assms(1,3) in \<open>simp add: handle_incoming_query_def\<close>)

lemma upstream_reply_ok:
  assumes "forwarder_ok D (de_now env) fw" "dns_env_ok env fw"
    "handle_upstream_reply D env reply src fw = (out, fw')"
  shows "forwarder_ok D (de_now env) fw'"
proof -
  have f: "cache_ok D (de_now env) (fw_cache fw)" "pending_ok (de_now env) (fw_pending fw)"
    "limiter_ok (de_now env) (fw_limiter fw)" using assms(1) by (simp_all add: forwarder_ok_def)
  have dom: "dom (fw_cache fw) \<subseteq> set (de_cache_order env)" using assms(2) by (simp add: dns_env_ok_def iterates_def)
  have rem: "pending_ok (de_now env) ((fw_pending fw)(x := None))" for x
    by (rule pending_ok_subset[OF f(2)]) (simp split: if_splits)
  consider "fw' = fw" | q where "fw_pending fw (de16 reply) = Some q"
      "fw' = fw\<lparr> fw_pending := (fw_pending fw)(de16 reply := None) \<rparr>
       \<or> fw' = snd (deliver_reply D env (de16 reply) q reply fw)"
    | q q' o' where "fw_pending fw (de16 reply) = Some q"
      "try_failover_upstream_query (de_now env) (de16 reply) q = Some (q', o')"
      "fw' = fw\<lparr> fw_pending := (fw_pending fw)(de16 reply \<mapsto> q') \<rparr>"
    using upstream_reply_cases[OF assms(3)] by (metis snd_conv)
  then show ?thesis
  proof cases
    case 2
    then show ?thesis
      using f rem cache_ok_insert[OF f(1) dom] by (auto simp: forwarder_ok_def deliver_reply_def)
  next
    case 3
    have "query_ok (de_now env) q'" by (rule query_ok_failover[OF _ 3(2)]) (use pending_okD[OF f(2) 3(1)] in blast)
    with f 3 show ?thesis by (simp add: forwarder_ok_def pending_ok_replace)
  qed (use assms(1) in simp)
qed

lemma retry_ok:
  assumes "pending_ok now p" "retry_overdue now xs p = (outs, p')"
  shows "pending_ok now p'"
  using assms
proof (induction xs arbitrary: p outs)
  case (Cons x xs)
  show ?case
  proof (cases "Option.bind (p x) (try_failover_upstream_query now x)")
    case None
    then show ?thesis using Cons by (auto split: option.splits)
  next
    case (Some r)
    then obtain q q' o' where q: "p x = Some q" "try_failover_upstream_query now x q = Some (q', o')"
      by (cases "p x"; cases r) auto
    have "query_ok now q'" by (rule query_ok_failover[OF _ q(2)]) (use pending_okD[OF Cons.prems(1) q(1)] in blast)
    then have "pending_ok now (p(x \<mapsto> q'))" using Cons.prems(1) q(1) by (simp add: pending_ok_replace)
    with Cons q show ?thesis by (auto split: prod.splits)
  qed
qed simp

lemma tick_ok:
  assumes "forwarder_ok D (de_now env) fw" "on_cleanup_tick env fw = (out, fw')"
  shows "forwarder_ok D (de_now env) fw'"
proof -
  obtain outs p where p: "check_pending_timeouts env (fw_pending fw) = (outs, p)" by fastforce
  have f: "cache_ok D (de_now env) (fw_cache fw)" "pending_ok (de_now env) (fw_pending fw)"
    "limiter_ok (de_now env) (fw_limiter fw)" using assms(1) by (simp_all add: forwarder_ok_def)
  have "pending_ok (de_now env) (retain P (fw_pending fw))" for P
    by (rule pending_ok_subset[OF f(2)]) simp
  with p have "pending_ok (de_now env) p" by (auto simp: check_pending_timeouts_def Let_def dest: retry_ok)
  moreover have "cache_ok D (de_now env) (evict_expired_cache (de_now env) (fw_cache fw))"
    by (rule cache_ok_subset[OF f(1)]) (simp add: evict_expired_cache_def)
  ultimately show ?thesis
    using assms(2) p retain_step(1)[OF f(3)] by (auto simp: on_cleanup_tick_def Let_def forwarder_ok_def)
qed

lemma parent_msg_fields [simp]:
  "fw_cache (on_dns_parent_msg m fw) = fw_cache fw" "fw_pending (on_dns_parent_msg m fw) = fw_pending fw"
  "fw_limiter (on_dns_parent_msg m fw) = fw_limiter fw"
  by (cases m; simp add: Let_def split: option.split)+

lemma step_ok:
  assumes "forwarder_ok D (de_now env) fw" "dns_env_ok env fw"
    "forwarder_step D env ev fw = Drawn (Some (out, fw'))"
  shows "forwarder_ok D (de_now env) fw'"
proof (cases ev)
  case (TcpFallbackDone e)
  have "dom (fw_cache fw) \<subseteq> set (de_cache_order env)" using assms(2) by (simp add: dns_env_ok_def iterates_def)
  from cache_ok_insert[OF _ this] assms(1,3) TcpFallbackDone show ?thesis
    by (cases e) (auto simp: forwarder_step_def forwarder_ok_def)
next
  case (ParentMessage m)
  with assms(1,3) show ?thesis by (auto simp: forwarder_step_def forwarder_ok_def)
next
  case (UpstreamDatagram r src)
  with assms(3) upstream_reply_ok[OF assms(1,2)] show ?thesis by (simp add: forwarder_step_def)
next
  case CleanupTick
  with assms(3) tick_ok[OF assms(1)] show ?thesis by (simp add: forwarder_step_def)
next
  case (ClientDatagram q src)
  with assms(2,3) incoming_ok[OF assms(1)] show ?thesis
    by (auto simp: forwarder_step_def dns_env_ok_def split: draw_result.splits)
next
  case (TcpQuery q src n)
  with assms(2,3) incoming_ok[OF assms(1)] show ?thesis
    by (auto simp: forwarder_step_def dns_env_ok_def split: draw_result.splits)
qed (use assms(3) in \<open>simp add: forwarder_step_def\<close>)

lemma init_ok: "forwarder_ok D t forwarder_init"
  by (simp add: forwarder_ok_def cache_ok_def pending_ok_def forwarder_init_def limiter_ok_def default_limiter_def
      limiter_new_def DEFAULT_DNS_RATE_LIMIT_PER_SEC_def DEFAULT_DNS_BURST_QUOTA_def)

lemma reach_ok: "dns_reach D t fw \<Longrightarrow> forwarder_ok D t fw"
proof (induction rule: dns_reach.induct)
  case (step t fw env ev out fw')
  from forwarder_ok_later[OF step.IH step.hyps(2)] step.hyps(3,5) show ?case by (rule step_ok)
qed (rule init_ok)

text \<open>
  C13. Whatever clients, upstream servers and the parent send, the forwarder's tables stay
  bounded and usable: at most 4096 cached answers, each a complete cacheable response with at
  most an hour to live, and at most 4096 pending queries, each with a non-zero transaction
  number, between one and 64 waiting clients with reply sizes from 512 to 4096 bytes, a
  current server that is one of its valid upstream servers, and a deadline at most three
  seconds away.
\<close>

theorem forwarder_bounded:
  assumes "dns_reach D now fw"
  shows "card (dom (fw_cache fw)) \<le> 4096 \<and> card (dom (fw_pending fw)) \<le> 4096
    \<and> (\<forall>k e. fw_cache fw k = Some e \<longrightarrow> 12 \<le> length (ce_response e) \<and> ce_expiry e \<le> now + from_secs 3600
         \<and> (\<exists>m. dns_from_bytes D (ce_response e) = Some m \<and> calculate_cache_ttl m \<noteq> None))
    \<and> (\<forall>x q. fw_pending fw x = Some q \<longrightarrow> x \<noteq> 0 \<and> 1 \<le> length (pq_clients q) \<and> length (pq_clients q) \<le> 64
         \<and> (\<forall>c \<in> set (pq_clients q). 512 \<le> pc_max_payload c \<and> pc_max_payload c \<le> 4096)
         \<and> pq_idx q < length (pq_servers q) \<and> (\<forall>i \<in> set (pq_servers q). is_valid_upstream_resolver i)
         \<and> pq_deadline q \<le> now + from_secs 3)"
  using reach_ok[OF assms]
  by (simp add: forwarder_ok_def cache_ok_def pending_ok_def query_ok_def MAX_CACHE_ENTRIES_def
      MAX_PENDING_QUERIES_def DNS_HEADER_SIZE_def MAX_JOINED_CLIENTS_PER_QUERY_def UPSTREAM_TIMEOUT_def
      RFC1035_MAX_UDP_PAYLOAD_def MAX_EDNS_PAYLOAD_SIZE_def Suc_le_eq)

section \<open>Upstream replies\<close>

text \<open>
  C25. A forged reply changes nothing. An upstream datagram that is too short, whose transaction
  number belongs to no pending query, or that does not come from port 53 of the very server the
  query was last sent to, leaves the forwarder as it is and sends nothing to anybody.
\<close>

theorem spoofed_replies_ignored:
  assumes "length reply < 12 \<or> fw_pending fw (de16 reply) = None
    \<or> (\<forall>q. fw_pending fw (de16 reply) = Some q \<longrightarrow> src \<noteq> (IpV4 (pq_servers q ! pq_idx q), 53))"
  shows "handle_upstream_reply D env reply src fw = ([], fw)"
  using assms by (auto simp: handle_upstream_reply_def DNS_HEADER_SIZE_def DNS_PORT_def Let_def split: option.split)

text \<open>
  The header on the wire (RFC 1035, 4.1.1), as \<open>hickory\<close> reads and writes it: the transaction number comes
  first, and a message cut by \<open>truncate\<close> keeps it and has the flag TC set.
\<close>

definition dns_header_laws :: "'nm dns_lib \<Rightarrow> bool" where
  "dns_header_laws D \<longleftrightarrow>
     (\<forall>b m. dns_from_bytes D b = Some m \<longrightarrow> dm_id m = de16 b)
     \<and> (\<forall>m. dm_id (dns_truncate D m) = dm_id m \<and> dm_truncation (dns_truncate D m))
     \<and> (\<forall>m b. dns_emit D m = (b, True) \<longrightarrow>
          12 \<le> length b \<and> de16 b = dm_id m \<and> (b ! 2 AND 2 \<noteq> 0 \<longleftrightarrow> dm_truncation m))"

text \<open>
  What a client must get, under its own transaction number: the reply as it is, or, when that is more than
  a UDP client can take, a shorter one that has at least the header and the flag TC.
\<close>

fun answers :: "pending_client \<Rightarrow> bytes \<Rightarrow> dns_output \<Rightarrow> bool" where
  "answers c reply (TcpReply n b) \<longleftrightarrow> (\<exists>a. pc_origin c = OriginTcp a n)
     \<and> length b = length reply \<and> de16 b = pc_xid c \<and> drop 2 b = drop 2 reply"
| "answers c reply (UdpReply b a) \<longleftrightarrow> pc_origin c = OriginUdp a \<and> de16 b = pc_xid c
     \<and> (if length reply \<le> pc_max_payload c then length b = length reply \<and> drop 2 b = drop 2 reply
        else 12 \<le> length b \<and> length b \<le> pc_max_payload c \<and> b ! 2 AND 2 \<noteq> 0)"
| "answers c reply _ \<longleftrightarrow> False"

lemma or_two: "(a OR 2) AND 2 \<noteq> (0 :: u8)"
proof
  assume "(a OR 2) AND 2 = 0"
  then have "bit ((a OR 2) AND 2) 1 = bit (0 :: u8) 1" by simp
  moreover have "bit (2 :: u8) 1" by (simp add: bit_numeral_rec(2))
  ultimately show False by (simp add: bit_and_iff bit_or_iff)
qed

lemma header_cut:
  assumes "DNS_HEADER_SIZE \<le> length r"
  shows "length (truncate_to_header r) = 12" "de16 (truncate_to_header r) = de16 r" "truncate_to_header r ! 2 AND 2 \<noteq> 0"
proof -
  have cut: "truncate_to_header r = take 12 (r[2 := r ! 2 OR 2])" using assms by (simp add: truncate_to_header_def DNS_HEADER_SIZE_def)
  show "length (truncate_to_header r) = 12" using assms by (simp add: cut DNS_HEADER_SIZE_def)
  show "de16 (truncate_to_header r) = de16 r" by (simp add: cut de16_def)
  show "truncate_to_header r ! 2 AND 2 \<noteq> 0" using assms or_two by (simp add: cut DNS_HEADER_SIZE_def)
qed

lemma prepared_cut:
  assumes "dns_header_laws D" "DNS_HEADER_SIZE \<le> length r" "DNS_HEADER_SIZE \<le> cap" "\<not> length r \<le> cap"
  shows "12 \<le> length (prepare_client_response D r cap)" "length (prepare_client_response D r cap) \<le> cap"
    "de16 (prepare_client_response D r cap) = de16 r" "prepare_client_response D r cap ! 2 AND 2 \<noteq> 0"
proof -
  let ?p = "prepare_client_response D r cap"
  have "?p = truncate_to_header r \<or> (\<exists>m. dns_from_bytes D r = Some m \<and> dns_emit D (dns_truncate D m) = (?p, True))"
    using assms(4) by (auto simp: prepare_client_response_def split: option.split prod.split)
  then show "12 \<le> length ?p" "de16 ?p = de16 r" "?p ! 2 AND 2 \<noteq> 0"
    using header_cut[OF assms(2)] assms(1) unfolding dns_header_laws_def by (metis order_refl)+
  show "length ?p \<le> cap" by (rule prepared_fits[OF assms(3)])
qed

lemma fanout_answers:
  assumes "dns_header_laws D" "DNS_HEADER_SIZE \<le> length reply" "\<forall>c \<in> set cs. RFC1035_MAX_UDP_PAYLOAD \<le> pc_max_payload c"
  shows "list_all2 (\<lambda>c o'. answers c reply o') cs (fanout_client_replies D cs reply)"
proof -
  have "answers c reply (origin_send_reply D (pc_origin c) (set_xid (pc_xid c) reply) (Some (pc_max_payload c)))"
    if "c \<in> set cs" for c
  proof (cases "pc_origin c")
    case (OriginUdp a)
    have xid: "de16 (set_xid (pc_xid c) reply) = pc_xid c" using assms(2) by (simp add: DNS_HEADER_SIZE_def de16_set_xid)
    have "DNS_HEADER_SIZE \<le> pc_max_payload c"
      using assms(3) that by (auto simp: DNS_HEADER_SIZE_def RFC1035_MAX_UDP_PAYLOAD_def)
    with prepared_cut[OF assms(1), of "set_xid (pc_xid c) reply" "pc_max_payload c"] OriginUdp assms(2) xid show ?thesis
      by (cases "length reply \<le> pc_max_payload c") (simp_all add: prepared_small drop_set_xid)
  next
    case (OriginTcp a n)
    with assms(2) show ?thesis by (simp add: DNS_HEADER_SIZE_def de16_set_xid drop_set_xid)
  qed
  then show ?thesis by (auto simp: fanout_client_replies_def list_all2_conv_all_nth)
qed

text \<open>
  C12. A genuine reply reaches everybody who asked, once. In every reachable state, a complete
  reply to a pending query from the queried server that is no server failure is sent to each
  waiting client exactly once and in order, under the client's own transaction number and
  otherwise unaltered; only to a UDP client that cannot take its size a shorter message goes instead, also under
  the client's own transaction number, that fits and is marked as truncated. The query is no longer pending, the reply is offered to the cache under
  the question's key, and while the cache is not full no other cached answer is touched.
\<close>

theorem genuine_reply_delivered:
  assumes "dns_header_laws D" "dns_reach D t fw" "fw_pending fw (de16 reply) = Some q" "12 \<le> length reply"
    "src = (IpV4 (pq_servers q ! pq_idx q), 53)" "reply ! 2 AND 2 = 0"
    "dns_from_bytes D reply = Some m" "dm_rcode m \<notin> {ServFail, Refused}"
    "handle_upstream_reply D env reply src fw = (out, fw')"
  shows "list_all2 (\<lambda>c o'. answers c reply o') (pq_clients q) out
    \<and> fw_pending fw' = (fw_pending fw)(de16 reply := None)
    \<and> fw_cache fw' = insert_cache D env (pq_cache_key q) reply (fw_cache fw)
    \<and> (card (dom (fw_cache fw)) < 4096 \<longrightarrow> (\<forall>k. k \<noteq> pq_cache_key q \<longrightarrow> fw_cache fw' k = fw_cache fw k))"
proof -
  have "(out, fw') = deliver_reply D env (de16 reply) q reply fw"
    using assms by (auto simp: handle_upstream_reply_def DNS_HEADER_SIZE_def DNS_PORT_def Let_def)
  then have o: "out = fanout_client_replies D (pq_clients q) reply"
    "fw_pending fw' = (fw_pending fw)(de16 reply := None)"
    "fw_cache fw' = insert_cache D env (pq_cache_key q) reply (fw_cache fw)"
    by (simp_all add: deliver_reply_def)
  have "query_ok t q"
    using reach_ok[OF assms(2)] assms(3) by (simp add: forwarder_ok_def pending_ok_def)
  then have "list_all2 (\<lambda>c o'. answers c reply o') (pq_clients q) out"
    unfolding o(1) using assms(1,4) by (intro fanout_answers) (auto simp: query_ok_def DNS_HEADER_SIZE_def)
  moreover have "insert_cache D env key r cache k = cache k"
    if "card (dom cache) < 4096" "k \<noteq> key" for key r cache k
    using that by (auto simp: insert_cache_def make_room_def MAX_CACHE_ENTRIES_def split: option.split)
  ultimately show ?thesis using o by simp
qed

end
