(* ===== verification/Dns_Queries.thy ===== *)
theory Dns_Queries
  imports Dns_Props
begin

text \<open>
  Client queries: cache keys, local names and their reverse entries, the choice of transaction
  numbers, the fate of pending queries under timeouts, and framing over TCP.
\<close>

section \<open>Cache keys\<close>

text \<open>
  The \<open>Debug\<close> forms of record types and classes are distinct and contain no colon.
\<close>

definition dns_show_laws :: "'nm dns_lib \<Rightarrow> bool" where
  "dns_show_laws D \<longleftrightarrow> inj (show_record_type D) \<and> inj (show_class D)
     \<and> (\<forall>t. CHR '':'' \<notin> set (show_record_type D t)) \<and> (\<forall>c. CHR '':'' \<notin> set (show_class D c))"

lemma first_sep_eq:
  "c \<notin> set xs \<Longrightarrow> c \<notin> set xs' \<Longrightarrow> xs @ c # ys = xs' @ c # ys' \<longleftrightarrow> xs = xs' \<and> ys = ys'"
proof (induction xs arbitrary: xs')
  case Nil
  then show ?case by (cases xs') auto
next
  case (Cons a xs)
  then show ?case by (cases xs') auto
qed

lemma append_sep_eq:
  assumes "c \<notin> set ys" "c \<notin> set ys'"
  shows "xs @ c # ys = xs' @ c # ys' \<longleftrightarrow> xs = xs' \<and> ys = ys'"
proof -
  have "xs @ c # ys = xs' @ c # ys' \<longleftrightarrow> rev ys @ c # rev xs = rev ys' @ c # rev xs'"
    by (metis append_Cons append_Nil append_assoc rev.simps(2) rev_append rev_rev_ident)
  also have "\<dots> \<longleftrightarrow> rev ys = rev ys' \<and> rev xs = rev xs'"
    by (rule first_sep_eq) (use assms in auto)
  finally show ?thesis by auto
qed

text \<open>
  Two queries share a cache entry (and join one upstream query) exactly when they ask the
  same question: the same record type and class, and the same name up to letter case.
\<close>

lemma cache_key_exact:
  assumes "dns_show_laws D" "dns_from_bytes D b = Some m" "dns_from_bytes D b' = Some m'"
    "dm_op m = OpQuery" "dm_op m' = OpQuery" "dm_queries m = q # qs" "dm_queries m' = q' # qs'"
  shows "get_cache_key D b \<noteq> None \<and> (get_cache_key D b = get_cache_key D b' \<longleftrightarrow>
    to_ascii_lowercase (name_to_ascii D (q_name q)) = to_ascii_lowercase (name_to_ascii D (q_name q'))
    \<and> q_type q = q_type q' \<and> q_class q = q_class q')"
proof -
  have colon: "CHR '':'' \<notin> set (show_record_type D t)" "CHR '':'' \<notin> set (show_class D c)" for t c
    using assms(1) by (simp_all add: dns_show_laws_def)
  have "get_cache_key D b = get_cache_key D b' \<longleftrightarrow>
      (to_ascii_lowercase (name_to_ascii D (q_name q)) @ CHR '':'' # show_record_type D (q_type q))
        @ CHR '':'' # show_class D (q_class q)
      = (to_ascii_lowercase (name_to_ascii D (q_name q')) @ CHR '':'' # show_record_type D (q_type q'))
        @ CHR '':'' # show_class D (q_class q')"
    using assms(2-7) by (simp add: get_cache_key_def)
  also have "\<dots> \<longleftrightarrow> to_ascii_lowercase (name_to_ascii D (q_name q)) = to_ascii_lowercase (name_to_ascii D (q_name q'))
      \<and> show_record_type D (q_type q) = show_record_type D (q_type q') \<and> show_class D (q_class q) = show_class D (q_class q')"
    unfolding append_sep_eq[OF colon(2) colon(2)] append_sep_eq[OF colon(1) colon(1)] by blast
  also have "\<dots> \<longleftrightarrow> to_ascii_lowercase (name_to_ascii D (q_name q)) = to_ascii_lowercase (name_to_ascii D (q_name q'))
      \<and> q_type q = q_type q' \<and> q_class q = q_class q'"
    using assms(1) by (auto simp: dns_show_laws_def inj_eq)
  finally show ?thesis using assms(2-7) by (simp add: get_cache_key_def)
qed

section \<open>Local names\<close>

definition normal_name :: "string \<Rightarrow> string" where
  "normal_name n = to_ascii_lowercase (trim_end_matches CHR ''.'' n)"

lemma extract_lan_name:
  assumes "normal_name n = label @ ''.lan''" "CHR ''.'' \<notin> set label"
  shows "extract_local_forward_name n = Some (label, True)"
proof -
  have "strip_suffix (label @ ''.lan'') ''.lan'' = Some label" by (simp add: strip_suffix_Some_iff)
  moreover have "label @ ''.lan'' \<noteq> ''lan''" by (cases label) auto
  ultimately show ?thesis
    using assms by (simp add: extract_local_forward_name_def normal_name_def LOCAL_DOMAIN_def)
qed

lemma try_resolve_lan:
  assumes "dns_from_bytes D query = Some m" "dm_op m = OpQuery" "dm_queries m = q # qs"
    "normal_name (name_to_utf8 D (q_name q)) = label @ ''.lan''" "CHR ''.'' \<notin> set label"
  shows "try_resolve_local_query D query hosts ips = Some (fst (dns_emit D (
    case hosts label of
      None \<Rightarrow> authoritative_message m NXDomain None
    | Some i \<Rightarrow> authoritative_message m NoError
        (if q_type q = TypeA then Some \<lparr> rr_name = q_name q, rr_ttl = 30, rr_data = RdataA i \<rparr> else None))))"
  using extract_lan_name[OF assms(4,5)] assms(1-3)
  by (auto simp: try_resolve_local_query_def build_authoritative_nxdomain_response_def
      build_authoritative_a_response_def build_authoritative_nodata_response_def
      build_authoritative_response_def DEFAULT_TTL_SECS_def split: option.split)


text \<open>
  A codec at which the witnesses run: every message of at least a header is a question for one
  name and type, answered by an address when the response bit is set.
\<close>

definition demo_dns :: "string \<Rightarrow> record_type \<Rightarrow> string dns_lib" where
  "demo_dns n t = \<lparr>
     dns_from_bytes = (\<lambda>b. if length b < 12 then None else Some \<lparr>
        dm_id = de16 b, dm_type = (if b ! 2 AND 128 = 0 then DnsQuery else DnsResponse), dm_op = OpQuery,
        dm_authoritative = False, dm_truncation = False, dm_recursion_desired = True,
        dm_recursion_available = True, dm_rcode = NoError,
        dm_queries = [\<lparr> q_name = n, q_type = t, q_class = 1 \<rparr>],
        dm_answers = (if b ! 2 AND 128 = 0 then [] else [\<lparr> rr_name = n, rr_ttl = 60, rr_data = RdataA 7 \<rparr>]),
        dm_authorities = [], dm_edns = None \<rparr>),
     dns_emit = (\<lambda>m. (be16 (dm_id m) @ (if dm_truncation m then 2 else 0) # replicate 9 0, True)),
     dns_truncate = (\<lambda>m. m\<lparr> dm_truncation := True \<rparr>),
     name_to_utf8 = (\<lambda>n. n), name_to_ascii = (\<lambda>n. n), name_from_ascii = Some,
     dns_parse_arpa = (\<lambda>n. None),
     show_record_type = (\<lambda>t. case t of TypeA \<Rightarrow> ''A'' | TypePTR \<Rightarrow> ''PTR'' | TypeOther k \<Rightarrow> ''TYPE'' @ replicate k CHR ''I''),
     show_class = (\<lambda>c. replicate c CHR ''C'') \<rparr>"

definition demo_query :: bytes where
  "demo_query = [0, 9] @ replicate 10 0"

definition demo_reply :: bytes where
  "demo_reply = [0, 7, 128] @ replicate 9 0"

definition demo_client :: client_origin where
  "demo_client = OriginUdp (IpV4 3232235779, 5353)"

definition demo_dns_env :: dns_env where
  "demo_dns_env = \<lparr> de_now = from_secs 5, de_cache_order = [], de_pending_order = [], de_random = [0, 7],
     de_send_ok = True, de_round = grid_round \<rparr>"

lemma demo_names:
  "normal_name ''_http._tcp.local.'' = ''_http._tcp.local''" "normal_name ''a.b.lan.'' = ''a.b.lan''"
  "normal_name ''www.example.'' = ''www.example''" "normal_name ''nas.lan.'' = ''nas.lan''"
  by (simp_all add: normal_name_def trim_end_matches_def to_ascii_lowercase_def char_lower_def
      is_ascii_uppercase_def ascii_code_def)

lemma demo_dns_eval:
  "dns_from_bytes (demo_dns n t) demo_query = Some \<lparr> dm_id = 9, dm_type = DnsQuery, dm_op = OpQuery,
        dm_authoritative = False, dm_truncation = False, dm_recursion_desired = True,
        dm_recursion_available = True, dm_rcode = NoError,
        dm_queries = [\<lparr> q_name = n, q_type = t, q_class = 1 \<rparr>], dm_answers = [], dm_authorities = [], dm_edns = None \<rparr>"
  "length demo_query = 12"
  by (simp_all add: demo_dns_def demo_query_def de16_def)

lemma demo_dns_header: "dns_header_laws (demo_dns n t)"
  using de16_be16 by (auto simp: dns_header_laws_def demo_dns_def be16_def de16_def nth_append split: if_splits)

lemma grid_exact:
  "grid_round 0 = 0" "grid_round 150 = 150" "grid_round 149 = 149"
  by (simp_all add: grid_round_def)

text \<open>A first query of a client passes the limiter and goes to the fallback server.\<close>

lemma demo_forwarded:
  assumes "try_resolve_local_query (demo_dns n t) demo_query Map.empty Map.empty = None"
  shows "\<exists>fw. handle_incoming_query (demo_dns n t) demo_dns_env demo_query demo_client forwarder_init
    = Drawn ([Forward (set_xid 7 demo_query) FALLBACK_DNS_SERVER], fw) \<and> fw_cache fw = Map.empty
    \<and> (\<exists>k. fw_pending fw = [7 \<mapsto> \<lparr>
          pq_clients = [\<lparr> pc_origin = demo_client, pc_xid = 9, pc_max_payload = 512 \<rparr>], pq_cache_key = k,
          pq_payload = demo_query, pq_servers = [FALLBACK_DNS_SERVER], pq_idx = 0, pq_deadline = from_secs 8 \<rparr>])"
proof -
  have chk: "\<exists>rl. limiter_check grid_round (from_secs 5) 3232235779 default_limiter = (True, rl)"
    by (simp add: limiter_check_def default_limiter_def limiter_new_def Let_def as_secs_f64_def
        DEFAULT_DNS_RATE_LIMIT_PER_SEC_def DEFAULT_DNS_BURST_QUOTA_def grid_exact)
  then obtain rl where rl: "limiter_check grid_round (from_secs 5) 3232235779 default_limiter = (True, rl)" by blast
  have key: "\<exists>k. get_cache_key (demo_dns n t) demo_query = Some k"
    by (simp add: get_cache_key_def demo_dns_eval)
  then obtain k where k: "get_cache_key (demo_dns n t) demo_query = Some k" by blast
  have "de16 demo_query = 9" "extract_client_max_payload (demo_dns n t) demo_query = 512"
    "from_secs 5 + UPSTREAM_TIMEOUT = from_secs 8"
    by (simp add: demo_query_def de16_def,
        simp_all add: extract_client_max_payload_def demo_dns_eval RFC1035_MAX_UDP_PAYLOAD_def UPSTREAM_TIMEOUT_def
        from_secs_def)
  then show ?thesis
    using assms rl k
    by (auto simp: handle_incoming_query_def demo_dns_eval DNS_HEADER_SIZE_def forwarder_init_def lookup_cache_def
        query_upstream_def demo_client_def demo_dns_env_def try_join_in_flight_query_def find_entry_def
        forward_new_client_query_def allocate_unique_xid_def MAX_PENDING_QUERIES_def get_upstream_resolvers_def)
qed

text \<open>
  Two kinds of private names do leak to public resolvers: a service-discovery query (a
  reverse-type question for a name under \<open>.local\<close>), because reverse lookups are handled before
  the test for \<open>.local\<close>, and a query for a name with more than one label under \<open>.lan\<close>.
\<close>

lemma private_names_leak:
  "(\<exists>fw. handle_incoming_query (demo_dns ''_http._tcp.local.'' TypePTR) demo_dns_env demo_query demo_client forwarder_init
      = Drawn ([Forward (set_xid 7 demo_query) FALLBACK_DNS_SERVER], fw))
   \<and> (\<exists>fw. handle_incoming_query (demo_dns ''a.b.lan.'' TypeA) demo_dns_env demo_query demo_client forwarder_init
      = Drawn ([Forward (set_xid 7 demo_query) FALLBACK_DNS_SERVER], fw))"
proof -
  have none: "strip_suffix ''_http._tcp.local'' ''.lan'' = None"
    by (cases "strip_suffix ''_http._tcp.local'' ''.lan''") (auto simp: strip_suffix_Some_iff append_eq_append_conv2
        append_eq_Cons_conv Cons_eq_append_conv)
  have some: "strip_suffix ''a.b.lan'' ''.lan'' = Some ''a.b''"
    by (simp add: strip_suffix_Some_iff)
  have ex: "extract_local_forward_name ''_http._tcp.local.'' = None" "extract_local_forward_name ''a.b.lan.'' = None"
    using demo_names(1,2) none some
    by (simp_all add: extract_local_forward_name_def normal_name_def LOCAL_DOMAIN_def Let_def)
  have lib: "name_to_utf8 (demo_dns n t) x = x" "dns_parse_arpa (demo_dns n t) x = None" for n t x
    by (simp_all add: demo_dns_def)
  have "try_resolve_local_query (demo_dns ''_http._tcp.local.'' TypePTR) demo_query Map.empty Map.empty = None"
    by (simp add: try_resolve_local_query_def demo_dns_eval ex lib resolve_ptr_def)
  moreover have "\<not> is_mdns_local_domain ''a.b.lan.''"
    using demo_names(2) by (auto simp: is_mdns_local_domain_def normal_name_def MDNS_DOMAIN_def ends_with_iff
        append_eq_append_conv2 append_eq_Cons_conv Cons_eq_append_conv)
  then have "try_resolve_local_query (demo_dns ''a.b.lan.'' TypeA) demo_query Map.empty Map.empty = None"
    by (simp add: try_resolve_local_query_def demo_dns_eval ex lib)
  ultimately show ?thesis using demo_forwarded by blast
qed

section \<open>Reverse names\<close>

definition reverse_ok :: "forwarder \<Rightarrow> bool" where
  "reverse_ok fw \<longleftrightarrow> (\<forall>i n. fw_ips fw i = Some n \<longrightarrow> fw_hosts fw n = Some i)"

lemma reverse_parent: "reverse_ok fw \<Longrightarrow> reverse_ok (on_dns_parent_msg m fw)"
  by (cases m) (auto simp: reverse_ok_def Let_def split: option.splits if_splits)

lemma host_fields:
  "handle_incoming_query D env q o' fw = Drawn (out, fw') \<Longrightarrow> fw_hosts fw' = fw_hosts fw \<and> fw_ips fw' = fw_ips fw"
  "handle_upstream_reply D env r src fw = (out, fw') \<Longrightarrow> fw_hosts fw' = fw_hosts fw \<and> fw_ips fw' = fw_ips fw"
  "on_cleanup_tick env fw = (out, fw') \<Longrightarrow> fw_hosts fw' = fw_hosts fw \<and> fw_ips fw' = fw_ips fw"
proof -
  have up: "query_upstream D env q o' k f = Drawn (out, f') \<Longrightarrow> fw_hosts f' = fw_hosts f \<and> fw_ips f' = fw_ips f" for k f f'
    by (auto simp: query_upstream_def Let_def split: ip_addr.splits bool.splits option.splits draw_result.splits prod.splits)
  show "fw_hosts fw' = fw_hosts fw \<and> fw_ips fw' = fw_ips fw"
    if a: "handle_incoming_query D env q o' fw = Drawn (out, fw')"
  proof (cases "length q < DNS_HEADER_SIZE")
    case False
    then have "DNS_HEADER_SIZE \<le> length q" by simp
    from incoming_cases[OF a this refl] show ?thesis by (auto dest: up)
  qed (use a in \<open>simp add: handle_incoming_query_def\<close>)
  show "handle_upstream_reply D env r src fw = (out, fw') \<Longrightarrow> fw_hosts fw' = fw_hosts fw \<and> fw_ips fw' = fw_ips fw"
    by (drule upstream_reply_cases) (auto simp: deliver_reply_def)
  show "on_cleanup_tick env fw = (out, fw') \<Longrightarrow> fw_hosts fw' = fw_hosts fw \<and> fw_ips fw' = fw_ips fw"
    by (auto simp: on_cleanup_tick_def Let_def split: prod.splits)
qed

lemma reverse_step:
  assumes "reverse_ok fw" "forwarder_step D env ev fw = Drawn (Some (out, fw'))"
  shows "reverse_ok fw'"
proof (cases ev)
  case (TcpFallbackDone e)
  with assms show ?thesis by (cases e) (auto simp: forwarder_step_def reverse_ok_def)
next
  case (ParentMessage m)
  with assms reverse_parent show ?thesis by (auto simp: forwarder_step_def)
qed (use assms in \<open>auto simp: forwarder_step_def reverse_ok_def split: draw_result.splits dest!: host_fields\<close>)

text \<open>
  Reverse and forward answers agree: in every reachable state of the forwarder, an address
  whose reverse lookup gives a name is the address that name resolves to. The converse fails:
  when a name moves away from an address that another name has been registered for in the
  meantime, the address loses its reverse entry although the other name still resolves to it.
\<close>

lemma reverse_names_sound:
  assumes "dns_reach D t fw"
  shows "(fw_ips fw i = Some n \<longrightarrow> fw_hosts fw n = Some i)
   \<and> (let later = fold on_dns_parent_msg [DnsRegisterLocalHost ''a'' 1, DnsRegisterLocalHost ''b'' 1,
          DnsRegisterLocalHost ''a'' 2] forwarder_init
      in fw_hosts later ''b'' = Some 1 \<and> fw_ips later 1 = None)"
proof -
  from assms have "reverse_ok fw"
  proof (induction rule: dns_reach.induct)
    case init
    show ?case by (simp add: reverse_ok_def forwarder_init_def)
  qed (blast intro: reverse_step)
  then show ?thesis by (simp add: reverse_ok_def forwarder_init_def)
qed

section \<open>Timeouts\<close>

lemma retry_overdue_pending:
  assumes "distinct xs"
  shows "snd (retry_overdue now xs p) x =
    (if x \<in> set xs then Option.bind (p x) (\<lambda>q. case try_failover_upstream_query now x q of
        Some (q', _) \<Rightarrow> Some q' | None \<Rightarrow> Some q) else p x)"
  using assms
proof (induction xs arbitrary: p)
  case (Cons y ys)
  show ?case
  proof (cases "Option.bind (p y) (try_failover_upstream_query now y)")
    case None
    then have "retry_overdue now (y # ys) p = retry_overdue now ys p" by (auto split: option.splits)
    with Cons None show ?thesis by (auto split: option.splits simp: Option.bind_eq_None_conv)
  next
    case (Some r)
    then obtain q q' o' where q: "p y = Some q" "try_failover_upstream_query now y q = Some (q', o')"
      by (cases "p y"; cases r) auto
    then have "snd (retry_overdue now (y # ys) p) = snd (retry_overdue now ys (p(y \<mapsto> q')))" by (simp split: prod.split)
    with Cons q show ?thesis by auto
  qed
qed simp

lemma check_pending_entry:
  assumes "iterates (de_pending_order env) p"
  shows "snd (check_pending_timeouts env p) x = Option.bind (p x) (\<lambda>q.
    if de_now env < pq_deadline q then Some q
    else if pq_idx q + 1 < length (pq_servers q)
    then Some (q\<lparr> pq_idx := pq_idx q + 1, pq_deadline := de_now env + UPSTREAM_TIMEOUT \<rparr>) else None)"
proof (cases "p x")
  case None
  have "distinct (de_pending_order env)" using assms by (simp add: iterates_def)
  with None show ?thesis by (simp add: check_pending_timeouts_def Let_def retry_overdue_pending retain_def)
next
  case (Some q)
  then have "x \<in> set (de_pending_order env)" "distinct (de_pending_order env)" using assms by (auto simp: iterates_def)
  with Some show ?thesis
    by (auto simp: check_pending_timeouts_def Let_def retry_overdue_pending retain_def overdue_def
        try_failover_upstream_query_def)
qed

text \<open>The clean-up ticks of a time without replies: what each of them sends, and the pending queries at the end.\<close>

fun timeout_ticks :: "dns_env list \<Rightarrow> dns_pending \<Rightarrow> (instant \<times> dns_output) list \<times> dns_pending" where
  "timeout_ticks [] p = ([], p)"
| "timeout_ticks (env # envs) p =
     (case check_pending_timeouts env p of (outs, p1) \<Rightarrow>
        (case timeout_ticks envs p1 of (later, p2) \<Rightarrow> (map (Pair (de_now env)) outs @ later, p2)))"

fun orders_ok :: "dns_env list \<Rightarrow> dns_pending \<Rightarrow> bool" where
  "orders_ok [] p \<longleftrightarrow> True"
| "orders_ok (env # envs) p \<longleftrightarrow> iterates (de_pending_order env) p \<and> orders_ok envs (snd (check_pending_timeouts env p))"

text \<open>When and to which server the query with transaction number \<open>x\<close> is sent.\<close>

fun forwarded_to :: "u16 \<Rightarrow> dns_output \<Rightarrow> ip option" where
  "forwarded_to x (Forward b s) = (if 2 \<le> length b \<and> de16 b = x then Some s else None)"
| "forwarded_to x _ = None"

definition tries :: "u16 \<Rightarrow> (instant \<times> dns_output) list \<Rightarrow> (instant \<times> ip) list" where
  "tries x sent = List.map_filter (\<lambda>(t, o'). map_option (Pair t) (forwarded_to x o')) sent"

lemma tries_append [simp]: "tries x (a @ b) = tries x a @ tries x b"
  by (simp add: tries_def List.map_filter_def)

lemma tries_Nil [simp]: "tries x [] = []"
  by (simp add: tries_def List.map_filter_def)

definition long_payloads :: "dns_pending \<Rightarrow> bool" where
  "long_payloads p \<longleftrightarrow> (\<forall>x q. p x = Some q \<longrightarrow> 2 \<le> length (pq_payload q))"

definition next_try :: "instant \<Rightarrow> pending_query option \<Rightarrow> ip list" where
  "next_try now e = (case e of None \<Rightarrow> [] | Some q \<Rightarrow>
     if pq_idx q + 1 < length (pq_servers q) then [pq_servers q ! (pq_idx q + 1)] else [])"

lemma retry_overdue_sends:
  assumes "distinct xs" "long_payloads p"
  shows "tries x (map (Pair now) (fst (retry_overdue now xs p))) = (if x \<in> set xs then map (Pair now) (next_try now (p x)) else [])"
  using assms
proof (induction xs arbitrary: p)
  case (Cons y ys)
  show ?case
  proof (cases "Option.bind (p y) (try_failover_upstream_query now y)")
    case None
    then have "retry_overdue now (y # ys) p = retry_overdue now ys p" by (auto split: option.splits)
    moreover have "next_try now (p y) = []"
      using None by (auto simp: next_try_def try_failover_upstream_query_def Let_def split: option.splits if_splits)
    ultimately show ?thesis using Cons by auto
  next
    case (Some r)
    then obtain q where q: "p y = Some q" "try_failover_upstream_query now y q = Some r" by (cases "p y") auto
    define q' where "q' = q\<lparr> pq_idx := pq_idx q + 1, pq_deadline := now + UPSTREAM_TIMEOUT \<rparr>"
    have l: "2 \<le> length (pq_payload q)" using Cons.prems(2) q(1) by (auto simp: long_payloads_def)
    have i: "pq_idx q + 1 < length (pq_servers q)" "r = (q', Forward (set_xid y (pq_payload q)) (pq_servers q ! (pq_idx q + 1)))"
      using q(2) l by (auto simp: try_failover_upstream_query_def Let_def q'_def split: if_splits)
    have "long_payloads (p(y \<mapsto> q'))" using Cons.prems(2) l by (auto simp: long_payloads_def q'_def)
    then have ih: "tries x (map (Pair now) (fst (retry_overdue now ys (p(y \<mapsto> q')))))
        = (if x \<in> set ys then map (Pair now) (next_try now ((p(y \<mapsto> q')) x)) else [])" using Cons by simp
    have "fst (retry_overdue now (y # ys) p)
        = Forward (set_xid y (pq_payload q)) (pq_servers q ! (pq_idx q + 1)) # fst (retry_overdue now ys (p(y \<mapsto> q')))"
      using q i(2) by (simp split: prod.split)
    then have "tries x (map (Pair now) (fst (retry_overdue now (y # ys) p)))
        = (if x = y then [(now, pq_servers q ! (pq_idx q + 1))] else [])
          @ tries x (map (Pair now) (fst (retry_overdue now ys (p(y \<mapsto> q')))))"
      using l by (auto simp: tries_def List.map_filter_def de16_set_xid)
    with ih Cons.prems(1) q(1) i(1) show ?thesis by (auto simp: next_try_def)
  qed
qed simp

lemma check_pending_sends:
  assumes "iterates (de_pending_order env) p" "long_payloads p"
  shows "tries x (map (Pair (de_now env)) (fst (check_pending_timeouts env p))) =
      (case p x of Some q \<Rightarrow> if de_now env < pq_deadline q then [] else map (Pair (de_now env)) (next_try (de_now env) (Some q)) | None \<Rightarrow> [])"
    "long_payloads (snd (check_pending_timeouts env p))"
proof -
  let ?kept = "retain (\<lambda>q. de_now env < pq_deadline q \<or> pq_idx q + 1 < length (pq_servers q)) p"
  have k: "long_payloads ?kept" using assms(2) by (auto simp: long_payloads_def retain_def split: option.splits if_splits)
  have d: "distinct (de_pending_order env)" "set (de_pending_order env) = dom p" using assms(1) by (auto simp: iterates_def)
  show "tries x (map (Pair (de_now env)) (fst (check_pending_timeouts env p))) =
      (case p x of Some q \<Rightarrow> if de_now env < pq_deadline q then [] else map (Pair (de_now env)) (next_try (de_now env) (Some q)) | None \<Rightarrow> [])"
    unfolding check_pending_timeouts_def Let_def
    by (subst retry_overdue_sends) (use d k in \<open>auto simp: next_try_def retain_def overdue_def split: option.splits\<close>)
  show "long_payloads (snd (check_pending_timeouts env p))"
    using assms(2) by (auto simp: long_payloads_def check_pending_entry[OF assms(1)] Option.bind_eq_Some_conv split: if_splits)
qed

text \<open>What is due to one query: the servers still to be tried at ticks at the times \<open>ts\<close>, and whether it has been given up.\<close>

fun due_tries :: "instant \<Rightarrow> ip list \<Rightarrow> instant list \<Rightarrow> (instant \<times> ip) list \<times> bool" where
  "due_tries due rest [] = ([], False)"
| "due_tries due rest (t # ts) =
     (if t < due then due_tries due rest ts
      else case rest of
        [] \<Rightarrow> ([], True)
      | s # rest \<Rightarrow> (case due_tries (t + UPSTREAM_TIMEOUT) rest ts of (l, gone) \<Rightarrow> ((t, s) # l, gone)))"

lemma ticks_none:
  "p x = None \<Longrightarrow> orders_ok envs p \<Longrightarrow> long_payloads p \<Longrightarrow> timeout_ticks envs p = (sent, p') \<Longrightarrow> tries x sent = [] \<and> p' x = None"
proof (induction envs arbitrary: p sent)
  case (Cons env envs)
  obtain o1 p1 where c: "check_pending_timeouts env p = (o1, p1)" by fastforce
  obtain l p2 where t: "timeout_ticks envs p1 = (l, p2)" by fastforce
  have "p1 x = None" using check_pending_entry[of env p x] Cons.prems(1,2) c by simp
  with Cons.IH[of p1 l] Cons.prems c t check_pending_sends(1)[of env p x] check_pending_sends(2)[of env p] show ?case by auto
qed simp

lemma ticks_exact:
  "p x = Some q \<Longrightarrow> orders_ok envs p \<Longrightarrow> long_payloads p \<Longrightarrow> timeout_ticks envs p = (sent, p')
   \<Longrightarrow> (tries x sent, p' x = None) = due_tries (pq_deadline q) (drop (Suc (pq_idx q)) (pq_servers q)) (map de_now envs)"
proof (induction envs arbitrary: p q sent)
  case (Cons env envs)
  obtain o1 p1 where c: "check_pending_timeouts env p = (o1, p1)" by fastforce
  obtain l p2 where t: "timeout_ticks envs p1 = (l, p2)" by fastforce
  have it: "iterates (de_pending_order env) p" "orders_ok envs p1" using Cons.prems(2) c by simp_all
  note sends = check_pending_sends(1)[OF it(1) Cons.prems(3), of x, unfolded c fst_conv Cons.prems(1) option.case]
    check_pending_sends(2)[OF it(1) Cons.prems(3), unfolded c snd_conv]
  note entry = check_pending_entry[OF it(1), of x, unfolded c snd_conv Cons.prems(1) bind.bind_lunit]
  have st: "sent = map (Pair (de_now env)) o1 @ l" "p' = p2" using Cons.prems(4) c t by auto
  consider "de_now env < pq_deadline q" | "\<not> de_now env < pq_deadline q" "\<not> pq_idx q + 1 < length (pq_servers q)"
    | "\<not> de_now env < pq_deadline q" "pq_idx q + 1 < length (pq_servers q)" by blast
  then show ?case
  proof cases
    case 1
    with Cons.IH[of p1 q l] entry sends st t it(2) show ?thesis by simp
  next
    case 2
    with ticks_none[of p1 x envs l p2] entry sends st t it(2) show ?thesis by (simp add: next_try_def)
  next
    case 3
    let ?q = "q\<lparr> pq_idx := pq_idx q + 1, pq_deadline := de_now env + UPSTREAM_TIMEOUT \<rparr>"
    have d: "drop (Suc (pq_idx q)) (pq_servers q) = pq_servers q ! (pq_idx q + 1) # drop (Suc (pq_idx ?q)) (pq_servers ?q)"
      using 3(2) by (simp add: Cons_nth_drop_Suc)
    have "p1 x = Some ?q" using entry 3 by simp
    from Cons.IH[OF this it(2) sends(2) t[folded st(2)]] have
      "due_tries (de_now env + UPSTREAM_TIMEOUT) (drop (Suc (pq_idx ?q)) (pq_servers ?q)) (map de_now envs) = (tries x l, p' x = None)"
      by simp
    with 3 sends(1) st show ?thesis unfolding d by (simp add: next_try_def)
  qed
qed simp

text \<open>Ticks at most \<open>gap\<close> apart, the first at most \<open>gap\<close> after \<open>t\<close>.\<close>

fun steady :: "duration \<Rightarrow> instant \<Rightarrow> instant list \<Rightarrow> bool" where
  "steady gap t [] \<longleftrightarrow> True"
| "steady gap t (u # us) \<longleftrightarrow> t \<le> u \<and> u \<le> t + gap \<and> steady gap u us"

lemma due_tries_end:
  "due_tries due rest ts = (l, gone) \<Longrightarrow> steady gap t ts \<Longrightarrow> due \<le> b \<Longrightarrow> t \<le> b \<Longrightarrow> ts \<noteq> []
   \<Longrightarrow> b + length rest * (UPSTREAM_TIMEOUT + gap) \<le> last ts \<Longrightarrow> map snd l = rest \<and> gone"
proof (induction ts arbitrary: due rest b t l gone)
  case (Cons u us)
  have u: "t \<le> u" "u \<le> t + gap" "steady gap u us" using Cons.prems(2) by simp_all
  show ?case
  proof (cases "u < due")
    case True
    then have "us \<noteq> []" using Cons.prems(3,6) by (auto split: if_splits)
    with Cons.prems True u show ?thesis by (intro Cons.IH[of due rest l gone u b]) auto
  next
    case False
    show ?thesis
    proof (cases rest)
      case Nil
      with Cons.prems(1) False show ?thesis by simp
    next
      case (Cons s rest')
      obtain l' where r: "due_tries (u + UPSTREAM_TIMEOUT) rest' us = (l', gone)" "l = (u, s) # l'"
        using Cons.prems(1) False Cons by (auto split: prod.splits)
      have bound: "(b + gap + UPSTREAM_TIMEOUT) + length rest' * (UPSTREAM_TIMEOUT + gap) \<le> last (u # us)"
        using Cons.prems(6) Cons by simp
      have "0 < UPSTREAM_TIMEOUT" by (simp add: UPSTREAM_TIMEOUT_def from_secs_def)
      then have "us \<noteq> []" using bound u(2) Cons.prems(4) by (auto split: if_splits)
      with Cons.IH[OF r(1) u(3), of "b + gap + UPSTREAM_TIMEOUT"] bound u(2) Cons.prems(4) r(2) Cons show ?thesis by auto
    qed
  qed
qed simp

lemma due_tries_times:
  "due_tries due rest ts = (l, gone) \<Longrightarrow> successively (\<lambda>a b. a + UPSTREAM_TIMEOUT \<le> b) (map fst l) \<and> (\<forall>e \<in> set l. due \<le> fst e)"
proof (induction ts arbitrary: due rest l)
  case (Cons u us)
  show ?case
  proof (cases "u < due \<or> rest = []")
    case True
    with Cons show ?thesis by (auto split: if_splits)
  next
    case False
    then obtain s rest' where r: "rest = s # rest'" by (cases rest) auto
    obtain l' where l: "due_tries (u + UPSTREAM_TIMEOUT) rest' us = (l', gone)" "l = (u, s) # l'"
      using Cons.prems False r by (auto split: prod.splits)
    from Cons.IH[OF l(1)] False show ?thesis unfolding l(2) by (cases l') (auto simp: successively_Cons)
  qed
qed simp

text \<open>
  C38. No client query hangs, and no server is skipped: as long as no reply comes, a pending query is sent to
  each of the remaining upstream servers, once and in their order, no server before the current one has had its
  three seconds, and is then given up and its entry freed. If the clean-up ticks are at most \<open>gap\<close>
  apart (the loop ticks every second), that takes at most three seconds plus \<open>gap\<close> for each server,
  whatever other queries are pending.
\<close>

theorem pending_query_ends:
  assumes "dns_reach D now fw" "fw_pending fw x = Some q" "orders_ok envs (fw_pending fw)" "steady gap now (map de_now envs)"
    "envs \<noteq> []" "now + from_secs 3 + (length (pq_servers q) - Suc (pq_idx q)) * (from_secs 3 + gap) \<le> de_now (last envs)"
    "timeout_ticks envs (fw_pending fw) = (sent, p')"
  shows "p' x = None \<and> map snd (tries x sent) = drop (Suc (pq_idx q)) (pq_servers q)
    \<and> successively (\<lambda>a b. a + from_secs 3 \<le> b) (map fst (tries x sent)) \<and> (\<forall>e \<in> set (tries x sent). pq_deadline q \<le> fst e)"
proof -
  have ok: "pending_ok now (fw_pending fw)" using reach_ok[OF assms(1)] by (simp add: forwarder_ok_def)
  then have "long_payloads (fw_pending fw)" by (fastforce simp: long_payloads_def pending_ok_def query_ok_def DNS_HEADER_SIZE_def)
  from ticks_exact[OF assms(2,3) this assms(7)] have
    d: "due_tries (pq_deadline q) (drop (Suc (pq_idx q)) (pq_servers q)) (map de_now envs) = (tries x sent, p' x = None)" by simp
  have "pq_deadline q \<le> now + from_secs 3"
    using pending_okD[OF ok assms(2)] by (simp add: query_ok_def UPSTREAM_TIMEOUT_def)
  from due_tries_end[OF d assms(4) this] due_tries_times[OF d] assms(5,6) show ?thesis
    by (simp add: UPSTREAM_TIMEOUT_def last_map)
qed

section \<open>Framing over TCP\<close>

lemma framed_read:
  assumes "12 \<le> length q" "length q \<le> 65535"
  shows "read_tcp_dns_query (be16 (of_nat (length q)) @ q @ rest) = Some (q, rest)"
proof -
  have "unat (of_nat (length q) :: u16) = length q"
    using assms(2) by (simp add: unsigned_of_nat take_bit_nat_eq_self)
  with assms show ?thesis
    by (simp add: read_tcp_dns_query_def DNS_HEADER_SIZE_def TCP_MAX_MESSAGE_SIZE_def Let_def)
qed

text \<open>
  Pipelined messages on one TCP connection are read back as they were written: whatever
  sequence of messages of at least a header is framed onto a stream, reading the stream gives
  exactly these messages in order, and then stops.
\<close>

lemma tcp_framing_roundtrip:
  assumes "list_all2 (\<lambda>q b. write_tcp_dns_reply q = Inr b) qs bs" "\<forall>q \<in> set qs. 12 \<le> length q"
  shows "tcp_connection_queries (concat bs) = qs"
  using assms
proof (induction rule: list_all2_induct)
  case Nil
  show ?case by (simp add: tcp_connection_queries.simps read_tcp_dns_query_def)
next
  case (Cons q qs b bs)
  then have b: "b = be16 (of_nat (length q)) @ q" "length q \<le> 65535"
    by (auto simp: write_tcp_dns_reply_def TCP_MAX_MESSAGE_SIZE_def split: if_splits)
  with Cons.prems framed_read[of q "concat bs"] have "read_tcp_dns_query (b @ concat bs) = Some (q, concat bs)" by simp
  with Cons show ?case by (simp add: tcp_connection_queries.simps[of "b @ concat bs"])
qed

section \<open>Witnesses\<close>

lemma demo_reply_eval:
  "\<exists>m. dns_from_bytes (demo_dns n t) demo_reply = Some m \<and> calculate_cache_ttl m = Some (from_secs 60)
     \<and> dm_rcode m = NoError \<and> dm_op m = OpQuery \<and> dm_queries m = [\<lparr> q_name = n, q_type = t, q_class = 1 \<rparr>]"
  "length demo_reply = 12" "de16 demo_reply = 7" "demo_reply ! 2 AND 2 = 0"
  by (simp_all add: demo_dns_def demo_reply_def de16_def calculate_cache_ttl_def MAX_TTL_SECS_def min_def)

theorem cached_answer_fresh_witness:
  "fst (lookup_cache (from_secs 64) ''k'' (insert_cache (demo_dns ''www.example.'' TypeA) demo_dns_env ''k'' demo_reply Map.empty))
     = Some demo_reply
   \<and> fst (lookup_cache (from_secs 65) ''k'' (insert_cache (demo_dns ''www.example.'' TypeA) demo_dns_env ''k'' demo_reply Map.empty))
     = None"
proof -
  obtain m where m: "dns_from_bytes (demo_dns ''www.example.'' TypeA) demo_reply = Some m"
    "calculate_cache_ttl m = Some (from_secs 60)" using demo_reply_eval(1) by blast
  have "de_now demo_dns_env + from_secs 60 = from_secs 65" by (simp add: demo_dns_env_def from_secs_def)
  moreover have "from_secs 64 < from_secs 65" by (simp add: from_secs_def)
  ultimately show ?thesis
    using cached_answer_fresh[OF m(1), of demo_dns_env "''k''" Map.empty] m(2)
    by (simp add: demo_reply_eval DNS_HEADER_SIZE_def)
qed

text \<open>A forwarder with one pending query, reached by that query.\<close>

lemma demo_reachable:
  obtains fw k where "dns_reach (demo_dns ''www.example.'' TypeA) (from_secs 5) fw" "fw_cache fw = Map.empty"
    "fw_pending fw = [7 \<mapsto> \<lparr>
          pq_clients = [\<lparr> pc_origin = demo_client, pc_xid = 9, pc_max_payload = 512 \<rparr>], pq_cache_key = k,
          pq_payload = demo_query, pq_servers = [FALLBACK_DNS_SERVER], pq_idx = 0, pq_deadline = from_secs 8 \<rparr>]"
proof -
  let ?D = "demo_dns ''www.example.'' TypeA"
  have none: "strip_suffix ''www.example'' ''.lan'' = None"
    by (cases "strip_suffix ''www.example'' ''.lan''") (auto simp: strip_suffix_Some_iff append_eq_append_conv2
        append_eq_Cons_conv Cons_eq_append_conv)
  have "extract_local_forward_name ''www.example.'' = None"
    using demo_names(3) none
    by (simp add: extract_local_forward_name_def normal_name_def LOCAL_DOMAIN_def Let_def)
  moreover have "\<not> is_mdns_local_domain ''www.example.''"
    using demo_names(3) by (auto simp: is_mdns_local_domain_def normal_name_def MDNS_DOMAIN_def ends_with_iff
        append_eq_append_conv2 append_eq_Cons_conv Cons_eq_append_conv)
  moreover have "name_to_utf8 ?D x = x" for x by (simp add: demo_dns_def)
  ultimately have "try_resolve_local_query ?D demo_query Map.empty Map.empty = None"
    by (simp add: try_resolve_local_query_def demo_dns_eval)
  from demo_forwarded[OF this] obtain fw k where
    fw: "handle_incoming_query ?D demo_dns_env demo_query demo_client forwarder_init
        = Drawn ([Forward (set_xid 7 demo_query) FALLBACK_DNS_SERVER], fw)" "fw_cache fw = Map.empty"
    "fw_pending fw = [7 \<mapsto> \<lparr>
          pq_clients = [\<lparr> pc_origin = demo_client, pc_xid = 9, pc_max_payload = 512 \<rparr>], pq_cache_key = k,
          pq_payload = demo_query, pq_servers = [FALLBACK_DNS_SERVER], pq_idx = 0, pq_deadline = from_secs 8 \<rparr>]"
    by blast
  have "forwarder_step ?D demo_dns_env (ClientDatagram demo_query (IpV4 3232235779, 5353)) forwarder_init
      = Drawn (Some ([Forward (set_xid 7 demo_query) FALLBACK_DNS_SERVER], fw))"
    using fw(1) by (simp add: forwarder_step_def demo_client_def)
  moreover have "dns_env_ok demo_dns_env forwarder_init"
    by (simp add: dns_env_ok_def demo_dns_env_def forwarder_init_def iterates_def grid_rounding)
  ultimately have "dns_reach ?D (de_now demo_dns_env) fw"
    by (intro dns_reach.step[OF dns_reach.init[of _ 0]]) auto
  then have "dns_reach ?D (from_secs 5) fw" by (simp add: demo_dns_env_def)
  with fw that show thesis by blast
qed

theorem forwarder_bounded_witness:
  "\<exists>fw q. dns_reach (demo_dns ''www.example.'' TypeA) (from_secs 5) fw \<and> fw_pending fw 7 = Some q
     \<and> length (pq_clients q) \<le> 64 \<and> pq_deadline q \<le> from_secs 5 + from_secs 3"
proof -
  obtain fw k where fw: "dns_reach (demo_dns ''www.example.'' TypeA) (from_secs 5) fw"
    "fw_pending fw = [7 \<mapsto> \<lparr>
          pq_clients = [\<lparr> pc_origin = demo_client, pc_xid = 9, pc_max_payload = 512 \<rparr>], pq_cache_key = k,
          pq_payload = demo_query, pq_servers = [FALLBACK_DNS_SERVER], pq_idx = 0, pq_deadline = from_secs 8 \<rparr>]"
    by (rule demo_reachable) blast
  from fw(2) obtain q where q: "fw_pending fw 7 = Some q" by simp
  with fw(1) forwarder_bounded[OF fw(1)] show ?thesis by blast
qed

theorem spoofed_replies_ignored_witness:
  "\<exists>fw. dns_reach (demo_dns ''www.example.'' TypeA) (from_secs 5) fw \<and> fw_pending fw (de16 demo_reply) \<noteq> None
     \<and> handle_upstream_reply (demo_dns ''www.example.'' TypeA) demo_dns_env demo_reply (IpV4 1, 53) fw = ([], fw)"
proof -
  obtain fw k where fw: "dns_reach (demo_dns ''www.example.'' TypeA) (from_secs 5) fw"
    "fw_pending fw = [7 \<mapsto> \<lparr>
          pq_clients = [\<lparr> pc_origin = demo_client, pc_xid = 9, pc_max_payload = 512 \<rparr>], pq_cache_key = k,
          pq_payload = demo_query, pq_servers = [FALLBACK_DNS_SERVER], pq_idx = 0, pq_deadline = from_secs 8 \<rparr>]"
    by (rule demo_reachable) blast
  have "FALLBACK_DNS_SERVER \<noteq> 1" by (simp add: FALLBACK_DNS_SERVER_def ipv4_def)
  with fw(2) have "handle_upstream_reply (demo_dns ''www.example.'' TypeA) demo_dns_env demo_reply (IpV4 1, 53) fw = ([], fw)"
    by (intro spoofed_replies_ignored) (simp add: demo_reply_eval)
  moreover have "fw_pending fw (de16 demo_reply) \<noteq> None" by (simp add: fw(2) demo_reply_eval)
  ultimately show ?thesis using fw(1) by blast
qed

theorem genuine_reply_delivered_witness:
  "\<exists>fw out fw'. dns_reach (demo_dns ''www.example.'' TypeA) (from_secs 5) fw
     \<and> handle_upstream_reply (demo_dns ''www.example.'' TypeA) demo_dns_env demo_reply (IpV4 FALLBACK_DNS_SERVER, 53) fw
       = (out, fw')
     \<and> list_all2 (\<lambda>c o'. answers c demo_reply o') [\<lparr> pc_origin = demo_client, pc_xid = 9, pc_max_payload = 512 \<rparr>] out
     \<and> fw_pending fw' 7 = None"
proof -
  let ?D = "demo_dns ''www.example.'' TypeA"
  obtain fw k where fw: "dns_reach ?D (from_secs 5) fw"
    "fw_pending fw = [7 \<mapsto> \<lparr>
          pq_clients = [\<lparr> pc_origin = demo_client, pc_xid = 9, pc_max_payload = 512 \<rparr>], pq_cache_key = k,
          pq_payload = demo_query, pq_servers = [FALLBACK_DNS_SERVER], pq_idx = 0, pq_deadline = from_secs 8 \<rparr>]"
    by (rule demo_reachable) blast
  obtain m where m: "dns_from_bytes ?D demo_reply = Some m" "dm_rcode m = NoError" using demo_reply_eval(1) by blast
  obtain out fw' where o: "handle_upstream_reply ?D demo_dns_env demo_reply (IpV4 FALLBACK_DNS_SERVER, 53) fw = (out, fw')"
    by fastforce
  from genuine_reply_delivered[OF demo_dns_header fw(1) _ _ _ _ m(1) _ o] fw m(2) o show ?thesis
    by (auto simp: demo_reply_eval)
qed

lemma cache_key_exact_example:
  "dns_show_laws (demo_dns ''www.example.'' TypeA)
   \<and> demo_query \<noteq> demo_reply
   \<and> get_cache_key (demo_dns ''www.example.'' TypeA) demo_query = get_cache_key (demo_dns ''www.example.'' TypeA) demo_reply"
proof -
  have laws: "dns_show_laws (demo_dns ''www.example.'' TypeA)"
  proof -
    have "inj (\<lambda>c. replicate c CHR ''C'')" by (metis injI length_replicate)
    moreover have "inj (\<lambda>t. case t of TypeA \<Rightarrow> ''A'' | TypePTR \<Rightarrow> ''PTR'' | TypeOther k \<Rightarrow> ''TYPE'' @ replicate k CHR ''I'')"
      by (rule injI) (auto split: record_type.splits dest: arg_cong[of "replicate _ _" _ length])
    ultimately show ?thesis
      by (auto simp: dns_show_laws_def demo_dns_def split: record_type.split)
  qed
  obtain m where m: "dns_from_bytes (demo_dns ''www.example.'' TypeA) demo_reply = Some m" "dm_op m = OpQuery"
    "dm_queries m = [\<lparr> q_name = ''www.example.'', q_type = TypeA, q_class = 1 \<rparr>]" using demo_reply_eval(1) by blast
  have "demo_query \<noteq> demo_reply" by (simp add: demo_query_def demo_reply_def)
  with cache_key_exact[OF laws demo_dns_eval(1) m(1)] laws m(2,3) show ?thesis by simp
qed


lemma reverse_names_sound_example:
  "\<exists>fw. dns_reach (demo_dns ''www.example.'' TypeA) (from_secs 5) fw \<and> fw_ips fw 1 = Some ''a'' \<and> fw_hosts fw ''a'' = Some 1"
proof -
  let ?fw = "on_dns_parent_msg (DnsRegisterLocalHost ''a'' 1) forwarder_init"
  have "dns_env_ok demo_dns_env forwarder_init"
    by (simp add: dns_env_ok_def demo_dns_env_def forwarder_init_def iterates_def grid_rounding)
  then have "dns_reach (demo_dns ''www.example.'' TypeA) (de_now demo_dns_env) ?fw"
    by (intro dns_reach.step[OF dns_reach.init[of _ 0], where ev = "ParentMessage (DnsRegisterLocalHost ''a'' 1)"])
      (simp_all add: forwarder_step_def)
  then have r: "dns_reach (demo_dns ''www.example.'' TypeA) (from_secs 5) ?fw" by (simp add: demo_dns_env_def)
  moreover have "fw_ips ?fw 1 = Some ''a''" by (simp add: forwarder_init_def)
  ultimately show ?thesis using reverse_names_sound[OF r, of 1 "''a''"] by blast
qed

theorem pending_query_ends_witness:
  "\<exists>fw sent p'. dns_reach (demo_dns ''www.example.'' TypeA) (from_secs 5) fw \<and> fw_pending fw 7 \<noteq> None
     \<and> timeout_ticks (map (\<lambda>s. demo_dns_env\<lparr> de_now := from_secs s, de_pending_order := if s < 9 then [7] else [] \<rparr>) [6, 7, 8, 9]) (fw_pending fw)
       = (sent, p') \<and> p' 7 = None \<and> tries 7 sent = []"
proof -
  let ?envs = "map (\<lambda>s. demo_dns_env\<lparr> de_now := from_secs s, de_pending_order := if s < 9 then [7] else [] \<rparr>) [6, 7, 8, 9]"
  obtain fw k where fw: "dns_reach (demo_dns ''www.example.'' TypeA) (from_secs 5) fw"
    "fw_pending fw = [7 \<mapsto> \<lparr>
          pq_clients = [\<lparr> pc_origin = demo_client, pc_xid = 9, pc_max_payload = 512 \<rparr>], pq_cache_key = k,
          pq_payload = demo_query, pq_servers = [FALLBACK_DNS_SERVER], pq_idx = 0, pq_deadline = from_secs 8 \<rparr>]"
    by (rule demo_reachable) blast
  define q where "q = \<lparr>
          pq_clients = [\<lparr> pc_origin = demo_client, pc_xid = 9, pc_max_payload = 512 \<rparr>], pq_cache_key = k,
          pq_payload = demo_query, pq_servers = [FALLBACK_DNS_SERVER], pq_idx = 0, pq_deadline = from_secs 8 \<rparr>"
  have p: "fw_pending fw = [7 \<mapsto> q]" "pq_servers q = [FALLBACK_DNS_SERVER]" "pq_idx q = 0" "pq_deadline q = from_secs 8"
    using fw(2) by (simp_all add: q_def)
  have it: "iterates (de_pending_order (demo_dns_env\<lparr> de_now := n, de_pending_order := [7] \<rparr>)) [7 \<mapsto> q]" for n
    by (simp add: iterates_def)
  have tick: "snd (check_pending_timeouts (demo_dns_env\<lparr> de_now := n, de_pending_order := [7] \<rparr>) [7 \<mapsto> q])
      = (if n < from_secs 8 then [7 \<mapsto> q] else Map.empty)" for n
    by (rule ext) (simp add: check_pending_entry[OF it] p(2-4))
  have o: "orders_ok ?envs (fw_pending fw)"
    unfolding p(1) by (simp add: tick) (simp add: iterates_def from_secs_def)
  have st: "steady (from_secs 1) (from_secs 5) (map de_now ?envs)" by (simp add: from_secs_def)
  obtain sent p' where t: "timeout_ticks ?envs (fw_pending fw) = (sent, p')" by fastforce
  have "p' 7 = None \<and> map snd (tries 7 sent) = drop (Suc (pq_idx q)) (pq_servers q)"
    using pending_query_ends[OF fw(1) _ o st _ _ t, of 7 q] p by (simp add: from_secs_def demo_dns_env_def)
  then have "p' 7 = None" "tries 7 sent = []" using p by simp_all
  with fw(1) p(1) t show ?thesis by (intro exI[of _ fw] exI[of _ sent] exI[of _ p']) simp
qed

lemma tcp_framing_roundtrip_example:
  "tcp_connection_queries (concat [be16 12 @ demo_query, be16 12 @ demo_reply]) = [demo_query, demo_reply]"
  by (rule tcp_framing_roundtrip)
    (simp_all add: write_tcp_dns_reply_def demo_dns_eval demo_reply_eval TCP_MAX_MESSAGE_SIZE_def)

end
