(* ===== verification/Dns_Parent.thy ===== *)
theory Dns_Parent
  imports Dns_Queries
begin

text \<open>
  The privileged side of the DNS forwarder, \<open>dns_forwarder/manager.rs\<close>: it keeps the host names
  and the resolvers, brings every newly started worker up to date and then forwards changes.
  The state is \<open>DnsMonitorParams\<close> with the shared host table and the value of the lease channel;
  \<open>dp_last\<close> is the local variable \<open>last_dns_servers\<close> of one monitor run, and \<open>dp_monitored\<close> says
  whether there is a \<open>heartbeat_tx\<close>.
\<close>

record dns_parent =
  dp_custom :: "ip list"
  dp_lease_dns :: "ip list"
  dp_hosts :: "string \<rightharpoonup> ip"
  dp_last :: "ip list"
  dp_monitored :: bool

definition initial_servers :: "dns_parent \<Rightarrow> ip list" where
  "initial_servers p = (if dp_custom p \<noteq> [] then dp_custom p else dp_lease_dns p)"

definition update_upstream_resolvers :: "ip list \<Rightarrow> dns_parent_to_worker" where
  "update_upstream_resolvers servers = SetUpstreamResolvers servers"

text \<open>
  The start of \<open>run_parent_dns_monitor\<close>: the messages it sends, the cached host names in hash
  order \<open>ks\<close>. A failed send is only logged there.
\<close>

definition dns_monitor_start :: "string list \<Rightarrow> dns_parent \<Rightarrow> dns_parent_to_worker list \<times> dns_parent" where
  "dns_monitor_start ks p =
     ((if initial_servers p \<noteq> [] then [update_upstream_resolvers (initial_servers p)] else [])
      @ List.map_filter (\<lambda>k. map_option (DnsRegisterLocalHost k) (dp_hosts p k)) ks,
      p\<lparr> dp_last := (if initial_servers p \<noteq> [] then initial_servers p else []) \<rparr>)"

datatype dns_parent_event =
    DnsShutdown
  | DnsWorkerHeartbeat dns_stats_info
  | DnsWorkerClosed
  | DnsLeaseChanged "ip list"
  | DnsLeaseClosed
  | DnsLocalHost local_host_event

datatype dns_parent_output = ToDnsWorker dns_parent_to_worker | DnsServiceHeartbeat | DnsStatsUpdate dns_stats_info

fun worker_message :: "dns_parent_output \<Rightarrow> dns_parent_to_worker option" where
  "worker_message (ToDnsWorker m) = Some m"
| "worker_message DnsServiceHeartbeat = None"
| "worker_message (DnsStatsUpdate stats) = None"

text \<open>
  One turn of the loop with the result of sending: what it emits, the new state and whether
  the loop goes on (otherwise the worker is terminated).
\<close>

fun dns_monitor_event :: "bool \<Rightarrow> dns_parent_event \<Rightarrow> dns_parent \<Rightarrow> dns_parent_output list \<times> dns_parent \<times> bool" where
  "dns_monitor_event sent DnsShutdown p = ([], p, False)"
| "dns_monitor_event sent (DnsWorkerHeartbeat stats) p =
     ((if dp_monitored p then [DnsServiceHeartbeat] else []) @ [DnsStatsUpdate stats], p, True)"
| "dns_monitor_event sent DnsWorkerClosed p = ([], p, False)"
| "dns_monitor_event sent DnsLeaseClosed p = ([], p, False)"
| "dns_monitor_event sent (DnsLeaseChanged servers) p =
     (let p1 = p\<lparr> dp_lease_dns := servers \<rparr> in
      if dp_custom p = [] \<and> servers \<noteq> dp_last p
      then if sent then ([ToDnsWorker (update_upstream_resolvers servers)], p1\<lparr> dp_last := servers \<rparr>, True) else ([], p1, False)
      else ([], p1, True))"
| "dns_monitor_event sent (DnsLocalHost (LhRegister name i)) p =
     (if sent then [ToDnsWorker (DnsRegisterLocalHost name i)] else [], p\<lparr> dp_hosts := (dp_hosts p)(name \<mapsto> i) \<rparr>, True)"
| "dns_monitor_event sent (DnsLocalHost (LhDeregister name)) p =
     (if sent then [ToDnsWorker (DnsDeregisterLocalHost name)] else [], p\<lparr> dp_hosts := (dp_hosts p)(name := None) \<rparr>, True)"

fun dns_monitor_run :: "dns_parent_event list \<Rightarrow> dns_parent \<Rightarrow> dns_parent_output list \<times> dns_parent" where
  "dns_monitor_run [] p = ([], p)"
| "dns_monitor_run (e # es) p =
     (case dns_monitor_event True e p of
        (out, p', go) \<Rightarrow>
          if go then (case dns_monitor_run es p' of (outs, p'') \<Rightarrow> (out @ outs, p'')) else (out, p'))"

definition worker_messages :: "dns_parent_output list \<Rightarrow> dns_parent_to_worker list" where
  "worker_messages outs = List.map_filter worker_message outs"

lemma worker_messages_simps [simp]:
  "worker_messages [] = []"
  "worker_messages (x # xs) = (case worker_message x of None \<Rightarrow> worker_messages xs | Some m \<Rightarrow> m # worker_messages xs)"
  by (simp_all add: worker_messages_def map_filter_simps split: option.split)

lemma worker_messages_append [simp]: "worker_messages (xs @ ys) = worker_messages xs @ worker_messages ys"
  by (induction xs) (auto split: option.splits)

section \<open>The worker mirrors the parent\<close>

text \<open>What the worker is to know: the registered names and the resolvers in force.\<close>

definition mirrors :: "dns_parent \<Rightarrow> forwarder \<Rightarrow> bool" where
  "mirrors p fw \<longleftrightarrow> fw_hosts fw = dp_hosts p \<and> fw_servers fw = initial_servers p \<and> dp_last p = initial_servers p"

lemma register_all:
  "fold on_dns_parent_msg (List.map_filter (\<lambda>k. map_option (DnsRegisterLocalHost k) (h k)) ks) fw = fw' \<Longrightarrow>
   fw_servers fw' = fw_servers fw \<and> fw_hosts fw' = (\<lambda>k. if k \<in> set ks \<and> h k \<noteq> None then h k else fw_hosts fw k)"
proof (induction ks arbitrary: fw)
  case (Cons k ks)
  show ?case
  proof (cases "h k")
    case None
    with Cons show ?thesis by (auto simp: map_filter_simps fun_eq_iff)
  next
    case (Some i)
    let ?fw = "on_dns_parent_msg (DnsRegisterLocalHost k i) fw"
    from Cons.prems Some have "fold on_dns_parent_msg (List.map_filter (\<lambda>k. map_option (DnsRegisterLocalHost k) (h k)) ks) ?fw = fw'"
      by (simp add: map_filter_simps)
    from Cons.IH[OF this] Some show ?thesis by (auto simp: Let_def fun_eq_iff)
  qed
qed simp

lemma start_mirrors:
  assumes "iterates ks (dp_hosts p)" "dns_monitor_start ks p = (msgs, p')"
  shows "mirrors p' (fold on_dns_parent_msg msgs forwarder_init)"
proof -
  let ?regs = "List.map_filter (\<lambda>k. map_option (DnsRegisterLocalHost k) (dp_hosts p k)) ks"
  let ?fw = "if initial_servers p \<noteq> [] then forwarder_init\<lparr> fw_servers := initial_servers p \<rparr> else forwarder_init"
  have p': "p' = p\<lparr> dp_last := initial_servers p \<rparr>"
    and m: "fold on_dns_parent_msg msgs forwarder_init = fold on_dns_parent_msg ?regs ?fw"
    using assms(2) by (auto simp: dns_monitor_start_def update_upstream_resolvers_def)
  from register_all[of "dp_hosts p" ks ?fw, OF refl] have
    "fw_servers (fold on_dns_parent_msg ?regs ?fw) = initial_servers p"
    "fw_hosts (fold on_dns_parent_msg ?regs ?fw) = dp_hosts p"
    using assms(1) by (auto simp: forwarder_init_def iterates_def fun_eq_iff domIff)
  then show ?thesis by (simp add: mirrors_def m p' initial_servers_def)
qed

lemma event_mirrors:
  assumes "mirrors p fw" "dns_monitor_event True e p = (out, p', go)"
  shows "mirrors p' (fold on_dns_parent_msg (worker_messages out) fw)"
proof (cases e)
  case (DnsLocalHost h)
  with assms show ?thesis by (cases h) (auto simp: mirrors_def initial_servers_def Let_def split: option.splits)
qed (use assms in \<open>auto simp: mirrors_def initial_servers_def Let_def update_upstream_resolvers_def split: if_splits\<close>)

lemma run_mirrors:
  "dns_monitor_run es p = (out, p') \<Longrightarrow> mirrors p fw \<Longrightarrow> mirrors p' (fold on_dns_parent_msg (worker_messages out) fw)"
proof (induction es arbitrary: p out p' fw)
  case (Cons e es)
  obtain o1 p1 go where e: "dns_monitor_event True e p = (o1, p1, go)" by (metis prod_cases3)
  obtain o2 p2 where r: "dns_monitor_run es p1 = (o2, p2)" by fastforce
  note m = event_mirrors[OF Cons.prems(2) e]
  show ?case
    using Cons.prems(1) e r m Cons.IH[OF r m] by (auto split: if_splits)
qed simp

text \<open>
  C27. A worker knows what its parent knows, from its start on and across restarts: whatever
  names and resolvers the parent has gathered before it starts a fresh worker, and whatever
  host and lease events follow, once the worker has handled the messages sent to it, its table
  of local names is the parent's table, and its upstream servers are the configured ones, or
  those of the current lease when none are configured.
\<close>

theorem worker_mirrors_parent:
  assumes "iterates ks (dp_hosts p)" "dns_monitor_start ks p = (msgs, p1)" "dns_monitor_run events p1 = (later, p2)"
  shows "let fw = fold on_dns_parent_msg (msgs @ worker_messages later) forwarder_init in
    fw_hosts fw = dp_hosts p2
    \<and> fw_servers fw = (if dp_custom p2 \<noteq> [] then dp_custom p2 else dp_lease_dns p2)"
  using run_mirrors[OF assms(3) start_mirrors[OF assms(1,2)]]
  by (simp add: mirrors_def initial_servers_def)

theorem worker_mirrors_parent_witness:
  "let p = \<lparr> dp_custom = [], dp_lease_dns = [9], dp_hosts = [''nas'' \<mapsto> 3], dp_last = [], dp_monitored = True \<rparr>;
       (msgs, p1) = dns_monitor_start [''nas''] p;
       (later, p2) = dns_monitor_run [DnsLeaseChanged [8], DnsLocalHost (LhRegister ''tv'' 4)] p1;
       fw = fold on_dns_parent_msg (msgs @ worker_messages later) forwarder_init
   in fw_hosts fw = [''nas'' \<mapsto> 3, ''tv'' \<mapsto> 4] \<and> fw_servers fw = [8]"
proof -
  define p where "p = \<lparr> dp_custom = [], dp_lease_dns = [9], dp_hosts = [''nas'' \<mapsto> 3 :: ip], dp_last = [], dp_monitored = True \<rparr>"
  have it: "iterates [''nas''] (dp_hosts p)" by (simp add: iterates_def p_def)
  obtain msgs p1 where s: "dns_monitor_start [''nas''] p = (msgs, p1)" by fastforce
  then have p1: "p1 = p\<lparr> dp_last := [9] \<rparr>" by (simp add: dns_monitor_start_def initial_servers_def p_def)
  obtain later p2 where r: "dns_monitor_run [DnsLeaseChanged [8], DnsLocalHost (LhRegister ''tv'' 4)] p1 = (later, p2)"
    by fastforce
  then have "dp_hosts p2 = [''nas'' \<mapsto> 3, ''tv'' \<mapsto> 4]" "dp_custom p2 = []" "dp_lease_dns p2 = [8]"
    by (auto simp: p1 p_def)
  with worker_mirrors_parent[OF it s r] s r show ?thesis unfolding p_def[symmetric] by (simp add: Let_def)
qed

end
