(* ===== verification/Lan_Names.thy ===== *)
theory Lan_Names
  imports Dhcp_Runs Dhcp_Parent Dns_Parent
begin

text \<open>
  From a DHCP request to a DNS answer: the DHCP worker's messages, the events its parent sends
  over the channel of host names (\<open>local_hosts_tx\<close>), the DNS parent that receives them, and the DNS worker
  that answers queries.
\<close>

section \<open>The channel of host names\<close>

definition host_events :: "parent_effect list \<Rightarrow> dns_parent_event list" where
  "host_events es = List.map_filter (\<lambda>e. case e of LocalHost h \<Rightarrow> Some (DnsLocalHost h) | _ \<Rightarrow> None) es"

definition name_events :: "'n net_lib \<Rightarrow> pnet_lib \<Rightarrow> dhcp_lib \<Rightarrow> mac \<Rightarrow> 'n \<Rightarrow> dhcp_server_worker_to_parent list \<Rightarrow> dns_parent_event list" where
  "name_events L P D smac net ms = concat (map (\<lambda>m. host_events (handle_worker_ipc_msg L P D True smac net m)) ms)"

lemma host_events_simps [simp]:
  "host_events [] = []" "host_events (LocalHost h # es) = DnsLocalHost h # host_events es" "host_events (frame_effect r) = []"
  by (simp_all add: host_events_def map_filter_simps frame_effect_def split: sum.splits)

lemma name_events_simps [simp]:
  "name_events L P D smac net [] = []"
  "name_events L P D smac net (RegisterLocalHost n i # ms) = DnsLocalHost (LhRegister n i) # name_events L P D smac net ms"
  "name_events L P D smac net (DeregisterLocalHost n # ms) = DnsLocalHost (LhDeregister n) # name_events L P D smac net ms"
  "name_events L P D smac net (SendAck m x i b # ms) = name_events L P D smac net ms"
  "name_events L P D smac net (ProbeArpConflict i # ms) = name_events L P D smac net ms"
  by (simp_all add: name_events_def handle_worker_ipc_msg_def handle_send_ack_def send_reply_def handle_probe_arp_def Let_def
      split: option.splits prod.splits)

text \<open>After the messages about the names of a request, the parent of the DNS forwarder has the granted name.\<close>

lemma name_recorded:
  assumes "dns_monitor_run (name_events L P D smac net (name_messages i old (Some n))) p = (out, p')"
  shows "dp_hosts p' n = Some i"
  using assms by (auto simp: name_messages_def split: option.splits)

lemma clean_no_dot: "clean_label n \<Longrightarrow> CHR ''.'' \<notin> set n"
  by (auto simp: clean_label_def list_all_iff clean_char_def is_ascii_digit_def is_ascii_lowercase_def ascii_code_def)

section \<open>A granted name resolves\<close>


definition nas_request :: dhcp_message where
  "nas_request = \<lparr> msg_opcode = BootRequest, msg_xid = 9, msg_broadcast = False, msg_ciaddr = 0, msg_yiaddr = 0, msg_siaddr = 0,
     msg_giaddr = 0, msg_hlen = 6, msg_chaddr = [2, 0, 0, 0, 0, 2],
     msg_opts = [CodeRequestedIpAddress \<mapsto> OptRequestedIpAddress 3232235780, CodeHostname \<mapsto> OptHostname ''nas''] \<rparr>"

definition fresh_dns_parent :: dns_parent where
  "fresh_dns_parent = \<lparr> dp_custom = [], dp_lease_dns = [], dp_hosts = Map.empty, dp_last = [], dp_monitored = True \<rparr>"

lemma nas_request_facts:
  "requested_ip_of nas_request = Some 3232235780" "should_process_request_server_id nas_request 3232235777"
  "extract_sanitized_hostname nas_request = Some ''nas''"
  "msg_xid nas_request = 9" "\<not> msg_broadcast nas_request"
proof -
  have "clean_label ''nas''" by (simp add: clean_label_def clean_char_def is_ascii_lowercase_def ascii_code_def)
  then have "sanitize_hostname ''nas'' = Some ''nas''" by (rule sanitize_hostname_fixed)
  then show "extract_sanitized_hostname nas_request = Some ''nas''" by (simp add: extract_sanitized_hostname_def nas_request_def)
qed (simp_all add: requested_ip_of_def should_process_request_server_id_def nas_request_def)

lemma nas_grant:
  "grantable cidr_lib 0 mac_b 3232235777 lan29 table_new 3232235780"
  "request_target mac_b (Some 3232235780) table_new = Some 3232235780"
  "granted_hostname 0 mac_b (Some ''nas'') table_new = Some ''nas''"
  by (auto simp: grantable_def held_by_other_def bindings_def request_target_def granted_hostname_def name_taken_def table_new_def)


end
