(* ===== verification/Config.thy ===== *)
theory Config
  imports Utils Packet
begin

text \<open>
  The configuration parser, \<open>config.rs\<close>: from the deserialized TOML sections to a validated
  \<open>RouterConfig\<close>. The TOML syntax, the textual form of hardware addresses and the names of
  log levels are third-party code (\<open>toml\<close>, \<open>pnet\<close>, \<open>log\<close>): the fields of \<open>config_lib\<close>.
\<close>

section \<open>Data\<close>

datatype forward_protocol = Tcp | Udp | Both

fun show_protocol :: "forward_protocol \<Rightarrow> string" where
  "show_protocol Tcp = ''tcp''"
| "show_protocol Udp = ''udp''"
| "show_protocol Both = ''both''"

definition protocol_from_str :: "string \<Rightarrow> router_error + forward_protocol" where
  "protocol_from_str s =
     (let l = to_ascii_lowercase s in
      if l = ''tcp'' then Inr Tcp
      else if l = ''udp'' then Inr Udp
      else if l \<in> {''both'', ''tcp+udp'', ''tcp,udp'', ''all''} then Inr Both
      else Inl Generic)"

record port_forward_rule =
  pf_protocol :: forward_protocol
  pf_external_port :: u16
  pf_internal_ip :: ip
  pf_internal_port :: u16
  pf_description :: "string option"

datatype log_level = LevelOff | LevelError | LevelWarn | LevelInfo | LevelDebug | LevelTrace

record logging_config =
  max_log_size_mb :: u64
  log_level :: log_level

definition default_logging :: logging_config where
  "default_logging = \<lparr> max_log_size_mb = 100, log_level = LevelInfo \<rparr>"

record router_config =
  rc_lan_ip :: string
  rc_backup_lan_ip :: string
  rc_wan_mac :: mac
  rc_lan_mac :: mac
  rc_logging :: logging_config
  rc_watchdog :: bool
  rc_dns_servers :: "ip list"
  rc_static_leases :: "static_lease list"
  rc_port_forwards :: "port_forward_rule list"

definition DEFAULT_PRIMARY_NETWORK :: string where "DEFAULT_PRIMARY_NETWORK = ''192.168.1.0''"
definition DEFAULT_FALLBACK_NETWORK :: string where "DEFAULT_FALLBACK_NETWORK = ''10.0.0.0''"
definition DEFAULT_LAN_PREFIX_LENGTH :: u8 where "DEFAULT_LAN_PREFIX_LENGTH = 24"
definition MIN_LAN_PREFIX_LENGTH :: u8 where "MIN_LAN_PREFIX_LENGTH = 8"
definition MAX_LAN_PREFIX_LENGTH :: u8 where "MAX_LAN_PREFIX_LENGTH = 30"

record network_section =
  ns_wan_mac :: string
  ns_lan_mac :: string
  ns_dns_servers :: "string list option"

record lan_section =
  ls_primary_network :: "string option"
  ls_fallback_network :: "string option"
  ls_prefix_length :: "u8 option"

record dhcp_reservation_toml =
  res_mac :: string
  res_ip :: "string option"
  res_hostname :: "string option"

record port_forward_toml =
  pft_proto :: "string option"
  pft_external_port :: "u16 option"
  pft_internal_ip :: "string option"
  pft_internal_port :: "u16 option"
  pft_description :: "string option"

record logging_section =
  lgs_max_log_size_mb :: "u64 option"
  lgs_level :: "string option"

record config_toml =
  ct_network :: network_section
  ct_lan :: "lan_section option"
  ct_dhcp :: "dhcp_reservation_toml list option option"
  ct_system :: "bool option option"
  ct_logging :: "logging_section option"
  ct_dns :: "string list option option"
  ct_port_forwarding :: "port_forward_toml list option"

record config_lib =
  toml_from_str :: "string \<Rightarrow> config_toml option"
  mac_from_str :: "string \<Rightarrow> mac option"
  level_from_str :: "string \<Rightarrow> log_level option"

section \<open>Sections\<close>

fun is_valid_unicast_mac :: "'n net_lib \<Rightarrow> mac \<Rightarrow> bool" where
  "is_valid_unicast_mac L (MacAddr a b c d e f) =
     (if mac_is_zero L (MacAddr a b c d e f) \<or> mac_is_broadcast L (MacAddr a b c d e f) then False
      else a AND 1 = 0)"

definition parse_mac_addresses :: "'n net_lib \<Rightarrow> config_lib \<Rightarrow> network_section \<Rightarrow> router_error + mac \<times> mac" where
  "parse_mac_addresses L C net =
     and_then (ok_or (mac_from_str C (ns_wan_mac net)) Generic) (\<lambda>wan.
     if \<not> is_valid_unicast_mac L wan then Inl Generic
     else and_then (ok_or (mac_from_str C (ns_lan_mac net)) Generic) (\<lambda>lan.
       if \<not> is_valid_unicast_mac L lan then Inl Generic
       else if wan = lan then Inl Generic
       else Inr (wan, lan)))"

definition parse_lan_network ::
  "'n net_lib \<Rightarrow> string option \<Rightarrow> u8 \<Rightarrow> string \<Rightarrow> router_error + 'n \<times> string" where
  "parse_lan_network L raw prefix_len default_network =
     (let input = trim (case raw of Some s \<Rightarrow> s | None \<Rightarrow> default_network) in
      if input = [] then Inl Generic
      else if \<not> (MIN_LAN_PREFIX_LENGTH \<le> prefix_len \<and> prefix_len \<le> MAX_LAN_PREFIX_LENGTH) then Inl Generic
      else and_then (ok_or (parse_ip input) Generic) (\<lambda>base_ip.
        and_then (ok_or (net_new L base_ip prefix_len) Generic) (\<lambda>net.
        and_then (if base_ip = net_network L net then Inr (net_network L net + 1)
                  else if base_ip = net_broadcast L net then Inl Generic
                  else Inr base_ip) (\<lambda>gateway_ip.
        and_then (ok_or (net_new L gateway_ip prefix_len) Generic) (\<lambda>gateway_net.
        Inr (gateway_net, show_ip gateway_ip @ CHR ''/'' # show_nat (unat prefix_len)))))))"

definition parse_lan_subnets ::
  "'n net_lib \<Rightarrow> lan_section option \<Rightarrow> router_error + 'n \<times> 'n \<times> string \<times> string" where
  "parse_lan_subnets L lan_sec =
     (let prefix_length = (case Option.bind lan_sec ls_prefix_length of
                             Some p \<Rightarrow> p | None \<Rightarrow> DEFAULT_LAN_PREFIX_LENGTH)
      in and_then (parse_lan_network L (Option.bind lan_sec ls_primary_network) prefix_length
                     DEFAULT_PRIMARY_NETWORK) (\<lambda>(lan_net, lan_ip).
         and_then (parse_lan_network L (Option.bind lan_sec ls_fallback_network) prefix_length
                     DEFAULT_FALLBACK_NETWORK) (\<lambda>(backup_net, backup_lan_ip).
         if net_contains L lan_net (net_network L backup_net) \<or> net_contains L backup_net (net_network L lan_net)
         then Inl Generic
         else Inr (lan_net, backup_net, lan_ip, backup_lan_ip))))"

definition invalid_host :: "'n net_lib \<Rightarrow> 'n \<Rightarrow> ip \<Rightarrow> bool" where
  "invalid_host L net i \<longleftrightarrow> \<not> net_contains L net i \<or> i = net_network L net \<or> i = net_broadcast L net \<or> i = net_addr L net"

definition validate_target_ip :: "'n net_lib \<Rightarrow> ip \<Rightarrow> 'n \<Rightarrow> 'n \<Rightarrow> router_error + unit" where
  "validate_target_ip L i lan_net backup_net =
     (if invalid_host L lan_net i then Inl Generic
      else and_then (ok_or (checked_sub i (net_network L lan_net)) Generic) (\<lambda>offset.
        and_then (ok_or (checked_add (net_network L backup_net) offset) Generic) (\<lambda>backup_ip.
        if invalid_host L backup_net backup_ip then Inl Generic else Inr ())))"

definition parse_logging_config :: "config_lib \<Rightarrow> logging_section option \<Rightarrow> router_error + logging_config" where
  "parse_logging_config C logging =
     (let size = max (case Option.bind logging lgs_max_log_size_mb of Some n \<Rightarrow> n | None \<Rightarrow> 100) 1
      in and_then (case Option.bind logging lgs_level of
                     Some s \<Rightarrow> ok_or (level_from_str C s) Generic
                   | None \<Rightarrow> Inr LevelInfo) (\<lambda>level.
         Inr \<lparr> max_log_size_mb = size, log_level = level \<rparr>))"

fun dns_server_loop :: "string list \<Rightarrow> ip list \<Rightarrow> router_error + ip list" where
  "dns_server_loop [] parsed = Inr parsed"
| "dns_server_loop (s # ss) parsed =
     and_then (ok_or (parse_ip (trim s)) Generic) (\<lambda>i.
     if \<not> is_valid_upstream_resolver i then Inl Generic
     else dns_server_loop ss (if i \<in> set parsed then parsed else parsed @ [i]))"

definition parse_dns_servers :: "network_section \<Rightarrow> string list option option \<Rightarrow> router_error + ip list" where
  "parse_dns_servers net dns =
     (case (case ns_dns_servers net of Some l \<Rightarrow> Some l | None \<Rightarrow> Option.bind dns (\<lambda>d. d)) of
        None \<Rightarrow> Inr []
      | Some raw \<Rightarrow> dns_server_loop raw [])"

section \<open>Reservations\<close>

record seen =
  seen_macs :: "mac set"
  seen_ips :: "ip set"
  seen_hostnames :: "string set"

definition parse_reservation_hostname ::
  "string option \<Rightarrow> string set \<Rightarrow> router_error + string option \<times> string set" where
  "parse_reservation_hostname raw names =
     (case raw of
        None \<Rightarrow> Inr (None, names)
      | Some h \<Rightarrow>
          and_then (ok_or (sanitize_hostname h) Generic) (\<lambda>n.
          if n = ROUTER_HOSTNAME then Inl Generic
          else if n \<in> names then Inl Generic
          else Inr (Some n, insert n names)))"

definition parse_reservation ::
  "'n net_lib \<Rightarrow> config_lib \<Rightarrow> 'n \<Rightarrow> 'n \<Rightarrow> dhcp_reservation_toml \<Rightarrow> seen \<Rightarrow> router_error + static_lease \<times> seen" where
  "parse_reservation L C lan_net backup_net res s =
     and_then (ok_or (mac_from_str C (res_mac res)) Generic) (\<lambda>m.
     if \<not> is_valid_unicast_mac L m then Inl Generic
     else and_then (ok_or (res_ip res) Generic) (\<lambda>ip_str.
       and_then (ok_or (parse_ip (trim ip_str)) Generic) (\<lambda>i.
       and_then (validate_target_ip L i lan_net backup_net) (\<lambda>_.
       and_then (parse_reservation_hostname (res_hostname res) (seen_hostnames s)) (\<lambda>(h, names).
       if m \<in> seen_macs s then Inl Generic
       else if i \<in> seen_ips s then Inl Generic
       else Inr (\<lparr> sl_mac = m, sl_ip = i, sl_hostname = h \<rparr>,
                 \<lparr> seen_macs = insert m (seen_macs s), seen_ips = insert i (seen_ips s), seen_hostnames = names \<rparr>))))))"

fun reservation_loop ::
  "'n net_lib \<Rightarrow> config_lib \<Rightarrow> 'n \<Rightarrow> 'n \<Rightarrow> dhcp_reservation_toml list \<Rightarrow> seen \<Rightarrow> static_lease list
     \<Rightarrow> router_error + static_lease list" where
  "reservation_loop L C lan_net backup_net [] s leases = Inr leases"
| "reservation_loop L C lan_net backup_net (r # rs) s leases =
     and_then (parse_reservation L C lan_net backup_net r s) (\<lambda>(l, s').
     reservation_loop L C lan_net backup_net rs s' (leases @ [l]))"

definition parse_dhcp_reservations ::
  "'n net_lib \<Rightarrow> config_lib \<Rightarrow> dhcp_reservation_toml list option option \<Rightarrow> 'n \<Rightarrow> 'n \<Rightarrow> router_error + static_lease list" where
  "parse_dhcp_reservations L C dhcp lan_net backup_net =
     (case Option.bind dhcp (\<lambda>d. d) of
        None \<Rightarrow> Inr []
      | Some rs \<Rightarrow> reservation_loop L C lan_net backup_net rs
          \<lparr> seen_macs = {}, seen_ips = {}, seen_hostnames = {} \<rparr> [])"

section \<open>Port forwarding\<close>

definition validate_and_build_port_forward_rule ::
  "'n net_lib \<Rightarrow> port_forward_toml \<Rightarrow> 'n \<Rightarrow> 'n \<Rightarrow> router_error + port_forward_rule" where
  "validate_and_build_port_forward_rule L raw lan_net backup_net =
     and_then (protocol_from_str (case pft_proto raw of Some s \<Rightarrow> s | None \<Rightarrow> ''tcp'')) (\<lambda>proto.
     and_then (ok_or (pft_external_port raw) Generic) (\<lambda>ext.
     if ext = 0 then Inl Generic
     else and_then (ok_or (pft_internal_ip raw) Generic) (\<lambda>ip_str.
       and_then (ok_or (parse_ip (trim ip_str)) Generic) (\<lambda>i.
       and_then (validate_target_ip L i lan_net backup_net) (\<lambda>_.
       let port = (case pft_internal_port raw of Some p \<Rightarrow> p | None \<Rightarrow> ext) in
       if port = 0 then Inl Generic
       else Inr \<lparr> pf_protocol = proto, pf_external_port = ext, pf_internal_ip = i,
                  pf_internal_port = port, pf_description = pft_description raw \<rparr>)))))"

definition check_port_forward_conflicts ::
  "port_forward_rule \<Rightarrow> u16 set \<times> u16 set \<Rightarrow> router_error + u16 set \<times> u16 set" where
  "check_port_forward_conflicts rule bound =
     (case bound of (tcp, udp) \<Rightarrow>
       let p = pf_external_port rule;
           uses_udp = (pf_protocol rule = Udp \<or> pf_protocol rule = Both);
           uses_tcp = (pf_protocol rule = Tcp \<or> pf_protocol rule = Both)
       in if uses_udp \<and> p = CLIENT_PORT then Inl Generic
          else if uses_tcp \<and> p \<in> tcp then Inl Generic
          else if uses_udp \<and> p \<in> udp then Inl Generic
          else Inr (if uses_tcp then insert p tcp else tcp, if uses_udp then insert p udp else udp))"

fun port_forward_loop ::
  "'n net_lib \<Rightarrow> 'n \<Rightarrow> 'n \<Rightarrow> port_forward_toml list \<Rightarrow> u16 set \<times> u16 set \<Rightarrow> port_forward_rule list
     \<Rightarrow> router_error + port_forward_rule list" where
  "port_forward_loop L lan_net backup_net [] bound rules = Inr rules"
| "port_forward_loop L lan_net backup_net (raw # raws) bound rules =
     and_then (validate_and_build_port_forward_rule L raw lan_net backup_net) (\<lambda>rule.
     and_then (check_port_forward_conflicts rule bound) (\<lambda>bound'.
     port_forward_loop L lan_net backup_net raws bound' (rules @ [rule])))"

definition parse_port_forward_rules ::
  "'n net_lib \<Rightarrow> config_toml \<Rightarrow> 'n \<Rightarrow> 'n \<Rightarrow> router_error + port_forward_rule list" where
  "parse_port_forward_rules L toml lan_net backup_net =
     port_forward_loop L lan_net backup_net
       (case ct_port_forwarding toml of Some raws \<Rightarrow> raws | None \<Rightarrow> []) ({}, {}) []"

section \<open>The whole file\<close>

definition parse_config :: "'n net_lib \<Rightarrow> config_lib \<Rightarrow> string option \<Rightarrow> router_error + router_config" where
  "parse_config L C content =
     and_then (ok_or content Generic) (\<lambda>text.
     and_then (ok_or (toml_from_str C text) Generic) (\<lambda>parsed.
     and_then (parse_mac_addresses L C (ct_network parsed)) (\<lambda>(wan_mac, lan_mac).
     and_then (parse_dns_servers (ct_network parsed) (ct_dns parsed)) (\<lambda>dns_servers.
     and_then (parse_lan_subnets L (ct_lan parsed)) (\<lambda>(lan_net, backup_net, lan_ip, backup_lan_ip).
     and_then (parse_dhcp_reservations L C (ct_dhcp parsed) lan_net backup_net) (\<lambda>static_leases.
     and_then (parse_port_forward_rules L parsed lan_net backup_net) (\<lambda>port_forwards.
     and_then (parse_logging_config C (ct_logging parsed)) (\<lambda>logging.
     Inr \<lparr> rc_lan_ip = lan_ip, rc_backup_lan_ip = backup_lan_ip, rc_wan_mac = wan_mac, rc_lan_mac = lan_mac,
           rc_logging = logging,
           rc_watchdog = (case Option.bind (ct_system parsed) (\<lambda>s. s) of Some w \<Rightarrow> w | None \<Rightarrow> True),
           rc_dns_servers = dns_servers, rc_static_leases = static_leases, rc_port_forwards = port_forwards \<rparr>))))))))"

section \<open>Which configurations are accepted\<close>

definition valid_target :: "'n net_lib \<Rightarrow> 'n \<Rightarrow> 'n \<Rightarrow> ip \<Rightarrow> bool" where
  "valid_target L lan_net backup_net i \<longleftrightarrow>
     \<not> invalid_host L lan_net i
     \<and> unat (net_network L backup_net) + (unat i - unat (net_network L lan_net)) < 2 ^ 32
     \<and> \<not> invalid_host L backup_net (net_network L backup_net + (i - net_network L lan_net))"

lemma valid_targetI:
  assumes "net_laws L"
  shows "validate_target_ip L i lan_net backup_net = Inr u \<longleftrightarrow> valid_target L lan_net backup_net i"
proof -
  have "invalid_host L lan_net i \<or> net_network L lan_net \<le> i"
    using net_laws.contains[OF assms] by (auto simp: invalid_host_def)
  then show ?thesis
    by (auto simp: validate_target_ip_def valid_target_def checked_sub_Some_iff checked_add_Some_iff
        unat_sub split: if_splits)
qed

text \<open>A configured reservation and the static lease it stands for.\<close>

definition reservation_denotes ::
  "'n net_lib \<Rightarrow> config_lib \<Rightarrow> 'n \<Rightarrow> 'n \<Rightarrow> dhcp_reservation_toml \<Rightarrow> static_lease \<Rightarrow> bool" where
  "reservation_denotes L C lan_net backup_net r l \<longleftrightarrow>
     mac_from_str C (res_mac r) = Some (sl_mac l) \<and> is_valid_unicast_mac L (sl_mac l)
     \<and> (\<exists>s. res_ip r = Some s \<and> parse_ip (trim s) = Some (sl_ip l))
     \<and> valid_target L lan_net backup_net (sl_ip l)
     \<and> (case res_hostname r of
          None \<Rightarrow> sl_hostname l = None
        | Some h \<Rightarrow> \<exists>n. sanitize_hostname h = Some n \<and> n \<noteq> ROUTER_HOSTNAME \<and> sl_hostname l = Some n)"

definition lease_names :: "static_lease list \<Rightarrow> string list" where
  "lease_names ls = List.map_filter sl_hostname ls"

lemma lease_names_simps [simp]:
  "lease_names [] = []"
  "lease_names (l # ls) = (case sl_hostname l of None \<Rightarrow> lease_names ls | Some n \<Rightarrow> n # lease_names ls)"
  by (simp_all add: lease_names_def map_filter_simps split: option.split)

lemma parse_reservation_iff:
  assumes "net_laws L"
  shows "parse_reservation L C lan_net backup_net r s = Inr (l, s') \<longleftrightarrow>
     reservation_denotes L C lan_net backup_net r l
     \<and> sl_mac l \<notin> seen_macs s \<and> sl_ip l \<notin> seen_ips s \<and> set (lease_names [l]) \<inter> seen_hostnames s = {}
     \<and> s' = \<lparr> seen_macs = insert (sl_mac l) (seen_macs s), seen_ips = insert (sl_ip l) (seen_ips s),
               seen_hostnames = set (lease_names [l]) \<union> seen_hostnames s \<rparr>"
  by (cases l)
    (auto simp: parse_reservation_def reservation_denotes_def parse_reservation_hostname_def
      valid_targetI[OF assms] guard_Inr_iff simp del: if_split split: option.splits)

lemma reservation_loop_iff:
  assumes "net_laws L"
  shows "reservation_loop L C lan_net backup_net rs s acc = Inr leases \<longleftrightarrow>
     (\<exists>ls. leases = acc @ ls \<and> list_all2 (reservation_denotes L C lan_net backup_net) rs ls
       \<and> distinct (map sl_mac ls) \<and> distinct (map sl_ip ls) \<and> distinct (lease_names ls)
       \<and> sl_mac ` set ls \<inter> seen_macs s = {} \<and> sl_ip ` set ls \<inter> seen_ips s = {}
       \<and> set (lease_names ls) \<inter> seen_hostnames s = {})"
proof (induction rs arbitrary: s acc)
  case (Cons r rs)
  have "reservation_loop L C lan_net backup_net (r # rs) s acc = Inr leases \<longleftrightarrow>
    (\<exists>l s'. parse_reservation L C lan_net backup_net r s = Inr (l, s')
       \<and> reservation_loop L C lan_net backup_net rs s' (acc @ [l]) = Inr leases)" by auto
  also have "\<dots> \<longleftrightarrow> (\<exists>l ls. leases = acc @ l # ls \<and> reservation_denotes L C lan_net backup_net r l
       \<and> list_all2 (reservation_denotes L C lan_net backup_net) rs ls
       \<and> distinct (map sl_mac (l # ls)) \<and> distinct (map sl_ip (l # ls)) \<and> distinct (lease_names (l # ls))
       \<and> sl_mac ` set (l # ls) \<inter> seen_macs s = {} \<and> sl_ip ` set (l # ls) \<inter> seen_ips s = {}
       \<and> set (lease_names (l # ls)) \<inter> seen_hostnames s = {})"
    unfolding parse_reservation_iff[OF assms] Cons.IH
    by (rule ex_cong1) (auto split: option.splits)
  finally show ?case by (auto simp: list_all2_Cons1)
qed auto

text \<open>
  The reservations of the configuration are accepted exactly when every entry is well
  formed on its own (a unicast hardware address, an address that is a usable host address of
  the primary LAN and, moved to the same offset, of the fallback LAN, a host name that is a
  valid label other than the router's) and no hardware address, address or name occurs
  twice; and the static leases are then the entries, in order.
\<close>

lemma reservations_exact:
  assumes "net_laws L"
  shows "parse_dhcp_reservations L C (Some (Some rs)) lan_net backup_net = Inr leases \<longleftrightarrow>
    list_all2 (reservation_denotes L C lan_net backup_net) rs leases
    \<and> distinct (map sl_mac leases) \<and> distinct (map sl_ip leases) \<and> distinct (lease_names leases)"
  by (simp add: parse_dhcp_reservations_def reservation_loop_iff[OF assms])

text \<open>The library functions at which the witnesses run, and two LANs of eight addresses.\<close>

definition wan29 :: cidr where
  "wan29 = (167772161, 29)"

lemma wan29_eval [simp]:
  "net_addr cidr_lib wan29 = 167772161"
  "net_network cidr_lib wan29 = 167772160"
  "net_broadcast cidr_lib wan29 = 167772167"
  "net_contains cidr_lib wan29 a \<longleftrightarrow> 167772160 \<le> a \<and> a \<le> 167772167"
  by (simp_all add: cidr_eval wan29_def)

definition demo_network :: network_section where
  "demo_network = \<lparr> ns_wan_mac = ''wan'', ns_lan_mac = ''lan'', ns_dns_servers = Some [''9.9.9.9''] \<rparr>"

definition demo_reservation :: dhcp_reservation_toml where
  "demo_reservation = \<lparr> res_mac = ''nas'', res_ip = Some ''192.168.1.3'', res_hostname = Some ''NAS'' \<rparr>"

definition demo_forward :: port_forward_toml where
  "demo_forward = \<lparr> pft_proto = None, pft_external_port = Some 8080, pft_internal_ip = Some ''192.168.1.3'',
     pft_internal_port = Some 80, pft_description = None \<rparr>"

definition demo_toml :: config_toml where
  "demo_toml = \<lparr> ct_network = demo_network,
     ct_lan = Some \<lparr> ls_primary_network = None, ls_fallback_network = None, ls_prefix_length = Some 29 \<rparr>,
     ct_dhcp = Some (Some [demo_reservation]), ct_system = None, ct_logging = None, ct_dns = None,
     ct_port_forwarding = Some [demo_forward] \<rparr>"

definition demo_config_lib :: config_lib where
  "demo_config_lib = \<lparr> toml_from_str = (\<lambda>s. if s = ''demo'' then Some demo_toml else None),
     mac_from_str = (\<lambda>s. if s = ''wan'' then Some (MacAddr 2 0 0 0 0 1)
       else if s = ''lan'' then Some (MacAddr 2 0 0 0 0 2)
       else if s = ''nas'' then Some (MacAddr 2 0 0 0 0 3) else None),
     level_from_str = (\<lambda>s. None) \<rparr>"

lemma demo_address: "parse_ip (trim ''192.168.1.3'') = Some 3232235779"
  by (simp add: trim_def trim_start_def trim_end_def is_whitespace_def ascii_code_def parse_ip_def
      parse_octet_def parse_decimal_def ipv4_def is_ascii_digit_def digit_val_def)

lemma demo_nas: "sanitize_hostname ''NAS'' = Some ''nas''"
  by (simp add: sanitize_hostname_def hd_split_char trim_def trim_start_def trim_end_def is_whitespace_def
      ascii_code_def host_char_def is_ascii_alphanumeric_def is_ascii_uppercase_def to_ascii_lowercase_def
      char_lower_def char_of_def bit_iff_odd)

definition nas_lease :: static_lease where
  "nas_lease = \<lparr> sl_mac = MacAddr 2 0 0 0 0 3, sl_ip = 3232235779, sl_hostname = Some ''nas'' \<rparr>"

lemma demo_target [simp]: "validate_target_ip cidr_lib 3232235779 lan29 wan29 = Inr ()"
  by (simp add: validate_target_ip_def invalid_host_def checked_sub_Some_iff checked_add_def checked_sub_def)

lemma demo_leases:
  "parse_dhcp_reservations cidr_lib demo_config_lib (Some (Some [demo_reservation])) lan29 wan29 = Inr [nas_lease]"
  by (simp add: parse_dhcp_reservations_def demo_reservation_def parse_reservation_def demo_config_lib_def
      demo_address demo_nas nas_lease_def ROUTER_HOSTNAME_def parse_reservation_hostname_def)

lemma reservations_exact_example:
  "list_all2 (reservation_denotes cidr_lib demo_config_lib lan29 wan29) [demo_reservation] [nas_lease]
   \<and> distinct (map sl_ip [nas_lease])"
  using demo_leases reservations_exact[OF cidr.net_laws_axioms] by blast

section \<open>Accepted port forwards\<close>

definition forward_denotes :: "'n net_lib \<Rightarrow> 'n \<Rightarrow> 'n \<Rightarrow> port_forward_toml \<Rightarrow> port_forward_rule \<Rightarrow> bool" where
  "forward_denotes L lan_net backup_net raw r \<longleftrightarrow>
     protocol_from_str (case pft_proto raw of Some s \<Rightarrow> s | None \<Rightarrow> ''tcp'') = Inr (pf_protocol r)
     \<and> pft_external_port raw = Some (pf_external_port r) \<and> pf_external_port r \<noteq> 0
     \<and> (\<exists>s. pft_internal_ip raw = Some s \<and> parse_ip (trim s) = Some (pf_internal_ip r))
     \<and> valid_target L lan_net backup_net (pf_internal_ip r)
     \<and> pf_internal_port r = (case pft_internal_port raw of Some p \<Rightarrow> p | None \<Rightarrow> pf_external_port r)
     \<and> pf_internal_port r \<noteq> 0 \<and> pf_description r = pft_description raw"

fun tcp_ports :: "port_forward_rule list \<Rightarrow> u16 list" where
  "tcp_ports [] = []"
| "tcp_ports (r # rs) = (if pf_protocol r = Udp then tcp_ports rs else pf_external_port r # tcp_ports rs)"

fun udp_ports :: "port_forward_rule list \<Rightarrow> u16 list" where
  "udp_ports [] = []"
| "udp_ports (r # rs) = (if pf_protocol r = Tcp then udp_ports rs else pf_external_port r # udp_ports rs)"

lemma build_rule_iff:
  assumes "net_laws L"
  shows "validate_and_build_port_forward_rule L raw lan_net backup_net = Inr r \<longleftrightarrow>
    forward_denotes L lan_net backup_net raw r"
  by (cases r)
    (auto simp: validate_and_build_port_forward_rule_def forward_denotes_def Let_def
      valid_targetI[OF assms] guard_Inr_iff simp del: if_split split: option.splits)

lemma port_conflicts_iff:
  "check_port_forward_conflicts r (tcp, udp) = Inr b \<longleftrightarrow>
     CLIENT_PORT \<notin> set (udp_ports [r]) \<and> set (tcp_ports [r]) \<inter> tcp = {} \<and> set (udp_ports [r]) \<inter> udp = {}
     \<and> b = (set (tcp_ports [r]) \<union> tcp, set (udp_ports [r]) \<union> udp)"
  by (cases "pf_protocol r") (auto simp: check_port_forward_conflicts_def Let_def)

lemma port_forward_loop_iff:
  assumes "net_laws L"
  shows "port_forward_loop L lan_net backup_net raws (tcp, udp) acc = Inr rules \<longleftrightarrow>
     (\<exists>rs. rules = acc @ rs \<and> list_all2 (forward_denotes L lan_net backup_net) raws rs
       \<and> distinct (tcp_ports rs) \<and> distinct (udp_ports rs) \<and> CLIENT_PORT \<notin> set (udp_ports rs)
       \<and> set (tcp_ports rs) \<inter> tcp = {} \<and> set (udp_ports rs) \<inter> udp = {})"
proof (induction raws arbitrary: tcp udp acc)
  case (Cons raw raws)
  have "port_forward_loop L lan_net backup_net (raw # raws) (tcp, udp) acc = Inr rules \<longleftrightarrow>
    (\<exists>r tcp' udp'. forward_denotes L lan_net backup_net raw r
       \<and> check_port_forward_conflicts r (tcp, udp) = Inr (tcp', udp')
       \<and> port_forward_loop L lan_net backup_net raws (tcp', udp') (acc @ [r]) = Inr rules)"
    by (auto simp: build_rule_iff[OF assms])
  also have "\<dots> \<longleftrightarrow> (\<exists>r rs. rules = acc @ r # rs \<and> forward_denotes L lan_net backup_net raw r
       \<and> list_all2 (forward_denotes L lan_net backup_net) raws rs
       \<and> distinct (tcp_ports (r # rs)) \<and> distinct (udp_ports (r # rs)) \<and> CLIENT_PORT \<notin> set (udp_ports (r # rs))
       \<and> set (tcp_ports (r # rs)) \<inter> tcp = {} \<and> set (udp_ports (r # rs)) \<inter> udp = {})"
    unfolding port_conflicts_iff Cons.IH by (rule ex_cong1) auto
  finally show ?case unfolding list_all2_Cons1 by blast
qed auto

text \<open>
  The port forwards of the configuration are accepted exactly when every rule is well
  formed on its own (known protocol, non-zero ports, a target that is a usable host address
  of both LANs) and no two rules claim the same external port for the same transport
  protocol, with the DHCP client's UDP port claimed by none; \<open>both\<close> counts for TCP and UDP.
\<close>

lemma port_forwards_exact:
  assumes "net_laws L"
  shows "parse_port_forward_rules L toml lan_net backup_net = Inr rules \<longleftrightarrow>
    list_all2 (forward_denotes L lan_net backup_net)
      (case ct_port_forwarding toml of Some raws \<Rightarrow> raws | None \<Rightarrow> []) rules
    \<and> distinct (tcp_ports rules) \<and> distinct (udp_ports rules) \<and> CLIENT_PORT \<notin> set (udp_ports rules)"
  by (simp add: parse_port_forward_rules_def port_forward_loop_iff[OF assms])

text \<open>The rule of the demonstration configuration.\<close>

definition web_rule :: port_forward_rule where
  "web_rule = \<lparr> pf_protocol = Tcp, pf_external_port = 8080, pf_internal_ip = 3232235779,
     pf_internal_port = 80, pf_description = None \<rparr>"

lemma demo_rules: "parse_port_forward_rules cidr_lib demo_toml lan29 wan29 = Inr [web_rule]"
  by (simp add: parse_port_forward_rules_def demo_toml_def demo_forward_def demo_address web_rule_def
      validate_and_build_port_forward_rule_def check_port_forward_conflicts_def protocol_from_str_def
      to_ascii_lowercase_def char_lower_def is_ascii_uppercase_def ascii_code_def)

lemma port_forwards_exact_example:
  "list_all2 (forward_denotes cidr_lib lan29 wan29) [demo_forward] [web_rule]"
  using demo_rules port_forwards_exact[OF cidr.net_laws_axioms, of demo_toml lan29 wan29 "[web_rule]"]
  by (simp add: demo_toml_def)

section \<open>Accepted networks\<close>

lemma dns_server_loop_valid:
  "dns_server_loop ss acc = Inr ips \<Longrightarrow> distinct acc \<Longrightarrow> (\<forall>i \<in> set acc. is_valid_upstream_resolver i) \<Longrightarrow>
   distinct ips \<and> (\<forall>i \<in> set ips. is_valid_upstream_resolver i)"
proof (induction ss arbitrary: acc)
  case (Cons s ss)
  from Cons.prems(1) obtain i where i: "is_valid_upstream_resolver i"
    "dns_server_loop ss (if i \<in> set acc then acc else acc @ [i]) = Inr ips"
    by (auto simp: guard_Inr_iff)
  show ?case by (rule Cons.IH[OF i(2)]) (use Cons.prems(2,3) i(1) in auto)
qed simp

lemma network_successor:
  fixes a :: ip
  assumes "p \<le> 30" "a AND netmask_of p = a"
  shows "(a + 1) AND netmask_of p = a" "a + 1 \<noteq> (a + 1) OR NOT (netmask_of p)"
proof -
  have up: "unat p \<le> 30" using assms(1) by (simp add: word_le_nat_alt)
  have m: "bit (netmask_of p) i \<longleftrightarrow> 32 - unat p \<le> i \<and> i < 32" for i
    by (auto simp: netmask_of_def push_bit_minus_one_eq_not_mask bit_not_iff bit_mask_iff)
  have a: "bit a i \<Longrightarrow> 32 - unat p \<le> i" for i
    using assms(2) m[of i] by (metis bit_and_iff)
  have low: "\<not> bit a 0" "\<not> bit a 1" using a[of 0] a[of 1] up by auto
  have "a + 1 = a OR 1"
    by (rule disjunctive_add) (use low in \<open>metis bit_1_iff\<close>)
  then have b: "bit (a + 1) i \<longleftrightarrow> bit a i \<or> i = 0" for i by (auto simp: bit_or_iff bit_1_iff)
  show "(a + 1) AND netmask_of p = a"
    by (rule bit_word_eqI) (use a m up b in \<open>auto simp: bit_and_iff\<close>)
  show "a + 1 \<noteq> (a + 1) OR NOT (netmask_of p)"
  proof
    assume "a + 1 = (a + 1) OR NOT (netmask_of p)"
    then have "bit (a + 1) 1 \<longleftrightarrow> bit ((a + 1) OR NOT (netmask_of p)) 1" by simp
    then show False using b[of 1] m[of 1] low up by (simp add: bit_or_iff bit_not_iff)
  qed
qed

text \<open>An accepted LAN prefix is the one its text denotes, and the router's address is a host of it.\<close>

lemma parse_lan_network_valid:
  assumes "net_laws L" "parse_lan_network L raw p dflt = Inr (net, text)"
  shows "net_parse L text = Some net" "net_prefix_len L net = p" "8 \<le> p" "p \<le> 30"
    "net_addr L net \<in> set (net_hosts L net)"
proof -
  obtain b n g where *: "8 \<le> p" "p \<le> 30" "net_new L b p = Some n"
    "b = net_network L n \<and> g = b + 1 \<or> b \<noteq> net_network L n \<and> b \<noteq> net_broadcast L n \<and> g = b"
    "net_new L g p = Some net" "text = show_ip g @ CHR ''/'' # show_nat (unat p)"
    using assms(2)
    by (auto simp: parse_lan_network_def guard_Inr_iff Let_def MIN_LAN_PREFIX_LENGTH_def
        MAX_LAN_PREFIX_LENGTH_def split: if_splits)
  note n = net_laws.new_Some[OF assms(1) *(3)] and g = net_laws.new_Some[OF assms(1) *(5)]
  show "net_parse L text = Some net" using * net_laws.parse_text[OF assms(1)] by simp
  show "net_prefix_len L net = p" "8 \<le> p" "p \<le> 30" using g * by simp_all
  then have short: "net_prefix_len L net < 31" by (simp add: word_le_nat_alt word_less_nat_alt)
  have "g \<noteq> net_network L net \<and> g \<noteq> net_broadcast L net" using *(4)
  proof
    assume b: "b = net_network L n \<and> g = b + 1"
    then have "b AND netmask_of p = b" using n net_laws.network[OF assms(1), of n] by simp
    from network_successor[OF *(2) this] b g show ?thesis
      using net_laws.network[OF assms(1), of net] net_laws.broadcast[OF assms(1), of net] by simp
  next
    assume b: "b \<noteq> net_network L n \<and> b \<noteq> net_broadcast L n \<and> g = b"
    then have "net = n" using net_laws.net_eqI[OF assms(1), of net n] n g by simp
    with b show ?thesis by simp
  qed
  then show "net_addr L net \<in> set (net_hosts L net)"
    using net_laws.hosts_iff[OF assms(1) short] net_laws.contains_addr[OF assms(1), of net] g by simp
qed

lemma parse_lan_subnets_valid:
  assumes "net_laws L" "parse_lan_subnets L sec = Inr (lan, backup, lan_ip, backup_ip)"
  shows "net_parse L lan_ip = Some lan" "net_parse L backup_ip = Some backup"
    "net_prefix_len L backup = net_prefix_len L lan" "8 \<le> net_prefix_len L lan" "net_prefix_len L lan \<le> 30"
    "net_addr L lan \<in> set (net_hosts L lan)" "net_addr L backup \<in> set (net_hosts L backup)"
    "\<not> (\<exists>a. net_contains L lan a \<and> net_contains L backup a)"
proof -
  obtain p d e r r' where *: "parse_lan_network L r p d = Inr (lan, lan_ip)"
    "parse_lan_network L r' p e = Inr (backup, backup_ip)"
    "\<not> (net_contains L lan (net_network L backup) \<or> net_contains L backup (net_network L lan))"
    using assms(2) by (auto simp: parse_lan_subnets_def Let_def guard_Inr_iff)
  note v = parse_lan_network_valid[OF assms(1) *(1)] and w = parse_lan_network_valid[OF assms(1) *(2)]
  from v w show "net_parse L lan_ip = Some lan" "net_parse L backup_ip = Some backup"
    "net_prefix_len L backup = net_prefix_len L lan" "8 \<le> net_prefix_len L lan" "net_prefix_len L lan \<le> 30"
    "net_addr L lan \<in> set (net_hosts L lan)" "net_addr L backup \<in> set (net_hosts L backup)" by simp_all
  show "\<not> (\<exists>a. net_contains L lan a \<and> net_contains L backup a)"
    using *(3) net_laws.overlap_iff[OF assms(1)] by blast
qed

lemma list_all2_denotes_leases:
  "list_all2 (reservation_denotes L C lan backup) rs ls \<Longrightarrow> l \<in> set ls \<Longrightarrow>
   is_valid_unicast_mac L (sl_mac l) \<and> valid_target L lan backup (sl_ip l)
   \<and> (\<forall>n. sl_hostname l = Some n \<longrightarrow> clean_label n \<and> n \<noteq> ROUTER_HOSTNAME)"
  by (induction rule: list_all2_induct)
    (auto simp: reservation_denotes_def sanitize_hostname_clean split: option.splits)

lemma parse_dhcp_reservations_valid:
  assumes "net_laws L" "parse_dhcp_reservations L C dhcp lan backup = Inr ls"
  shows "distinct (map sl_mac ls)" "distinct (map sl_ip ls)" "distinct (lease_names ls)"
    "l \<in> set ls \<Longrightarrow> is_valid_unicast_mac L (sl_mac l) \<and> valid_target L lan backup (sl_ip l)
       \<and> (\<forall>n. sl_hostname l = Some n \<longrightarrow> clean_label n \<and> n \<noteq> ROUTER_HOSTNAME)"
proof -
  obtain rs where *: "list_all2 (reservation_denotes L C lan backup) rs ls"
    "distinct (map sl_mac ls)" "distinct (map sl_ip ls)" "distinct (lease_names ls)"
    using assms by (cases "Option.bind dhcp (\<lambda>d. d)")
      (auto simp: parse_dhcp_reservations_def reservation_loop_iff)
  then show "distinct (map sl_mac ls)" "distinct (map sl_ip ls)" "distinct (lease_names ls)" by simp_all
  show "is_valid_unicast_mac L (sl_mac l) \<and> valid_target L lan backup (sl_ip l)
       \<and> (\<forall>n. sl_hostname l = Some n \<longrightarrow> clean_label n \<and> n \<noteq> ROUTER_HOSTNAME)" if "l \<in> set ls"
    by (rule list_all2_denotes_leases[OF *(1) that])
qed

lemma parse_configD:
  assumes "parse_config L C content = Inr c"
  obtains parsed lan backup where
    "parse_mac_addresses L C (ct_network parsed) = Inr (rc_wan_mac c, rc_lan_mac c)"
    "parse_dns_servers (ct_network parsed) (ct_dns parsed) = Inr (rc_dns_servers c)"
    "parse_lan_subnets L (ct_lan parsed) = Inr (lan, backup, rc_lan_ip c, rc_backup_lan_ip c)"
    "parse_dhcp_reservations L C (ct_dhcp parsed) lan backup = Inr (rc_static_leases c)"
    "parse_port_forward_rules L parsed lan backup = Inr (rc_port_forwards c)"
  using assms by (auto simp: parse_config_def)

text \<open>
  C10. Every configuration the parser accepts can be run. Its two hardware addresses are
  distinct unicast addresses; the textual addresses of the primary and the fallback LAN parse
  back, have the same prefix length between 8 and 30, give the router a usable host address,
  and describe networks with no common address; the configured resolvers are distinct and
  routable; and every reservation is usable in both LANs, with unique hardware addresses,
  addresses and names, none of them the router's name.
\<close>

theorem accepted_config_valid:
  assumes "net_laws L" "parse_config L C content = Inr c"
  shows "rc_wan_mac c \<noteq> rc_lan_mac c
    \<and> is_valid_unicast_mac L (rc_wan_mac c) \<and> is_valid_unicast_mac L (rc_lan_mac c)
    \<and> distinct (rc_dns_servers c) \<and> (\<forall>i \<in> set (rc_dns_servers c). is_valid_upstream_resolver i)
    \<and> distinct (map sl_mac (rc_static_leases c)) \<and> distinct (map sl_ip (rc_static_leases c))
    \<and> distinct (lease_names (rc_static_leases c))
    \<and> (\<exists>lan backup. net_parse L (rc_lan_ip c) = Some lan \<and> net_parse L (rc_backup_lan_ip c) = Some backup
       \<and> net_prefix_len L backup = net_prefix_len L lan \<and> 8 \<le> net_prefix_len L lan \<and> net_prefix_len L lan \<le> 30
       \<and> net_addr L lan \<in> set (net_hosts L lan) \<and> net_addr L backup \<in> set (net_hosts L backup)
       \<and> \<not> (\<exists>a. net_contains L lan a \<and> net_contains L backup a)
       \<and> (\<forall>l \<in> set (rc_static_leases c). is_valid_unicast_mac L (sl_mac l) \<and> valid_target L lan backup (sl_ip l)
            \<and> (\<forall>n. sl_hostname l = Some n \<longrightarrow> clean_label n \<and> n \<noteq> ROUTER_HOSTNAME)))"
proof -
  obtain parsed :: config_toml and lan backup where p:
    "parse_mac_addresses L C (ct_network parsed) = Inr (rc_wan_mac c, rc_lan_mac c)"
    "parse_dns_servers (ct_network parsed) (ct_dns parsed) = Inr (rc_dns_servers c)"
    "parse_lan_subnets L (ct_lan parsed) = Inr (lan, backup, rc_lan_ip c, rc_backup_lan_ip c)"
    "parse_dhcp_reservations L C (ct_dhcp parsed) lan backup = Inr (rc_static_leases c)"
    by (rule parse_configD[OF assms(2)]) blast
  have macs: "rc_wan_mac c \<noteq> rc_lan_mac c" "is_valid_unicast_mac L (rc_wan_mac c)"
    "is_valid_unicast_mac L (rc_lan_mac c)"
    using p(1) by (auto simp: parse_mac_addresses_def guard_Inr_iff)
  have dns: "distinct (rc_dns_servers c) \<and> (\<forall>i \<in> set (rc_dns_servers c). is_valid_upstream_resolver i)"
    using p(2) dns_server_loop_valid[of _ "[]"] by (auto simp: parse_dns_servers_def split: option.splits)
  show ?thesis
    using macs dns parse_lan_subnets_valid[OF assms(1) p(3)] parse_dhcp_reservations_valid[OF assms(1) p(4)]
    by blast
qed

lemma demo_dns: "parse_ip (trim ''9.9.9.9'') = Some 151587081" "is_valid_upstream_resolver 151587081"
  by (simp_all add: trim_def trim_start_def trim_end_def is_whitespace_def ascii_code_def parse_ip_def
      parse_octet_def parse_decimal_def ipv4_def is_ascii_digit_def digit_val_def
      is_valid_upstream_resolver_def is_unspecified_def is_broadcast_def is_loopback_def is_multicast_def
      is_link_local_def is_documentation_def octet_def)

lemma demo_lan:
  "parse_lan_network cidr_lib None 29 DEFAULT_PRIMARY_NETWORK = Inr (lan29, show_ip 3232235777 @ ''/29'')"
  "parse_lan_network cidr_lib None 29 DEFAULT_FALLBACK_NETWORK = Inr (wan29, show_ip 167772161 @ ''/29'')"
  by (simp_all add: parse_lan_network_def DEFAULT_PRIMARY_NETWORK_def DEFAULT_FALLBACK_NETWORK_def
      trim_def trim_start_def trim_end_def is_whitespace_def ascii_code_def parse_ip_def
      parse_octet_def parse_decimal_def ipv4_def is_ascii_digit_def digit_val_def cidr_eval lan29_def wan29_def
      MIN_LAN_PREFIX_LENGTH_def MAX_LAN_PREFIX_LENGTH_def show_nat_small
      digit_char_def char_of_def bit_iff_odd)

definition demo_router_config :: router_config where
  "demo_router_config = \<lparr> rc_lan_ip = show_ip 3232235777 @ ''/29'', rc_backup_lan_ip = show_ip 167772161 @ ''/29'',
     rc_wan_mac = MacAddr 2 0 0 0 0 1, rc_lan_mac = MacAddr 2 0 0 0 0 2, rc_logging = default_logging,
     rc_watchdog = True, rc_dns_servers = [151587081], rc_static_leases = [nas_lease],
     rc_port_forwards = [web_rule] \<rparr>"

lemma demo_macs:
  "parse_mac_addresses cidr_lib demo_config_lib demo_network = Inr (MacAddr 2 0 0 0 0 1, MacAddr 2 0 0 0 0 2)"
  by (simp add: parse_mac_addresses_def demo_config_lib_def demo_network_def)

lemma demo_config_parsed: "parse_config cidr_lib demo_config_lib (Some ''demo'') = Inr demo_router_config"
proof -
  have t: "toml_from_str demo_config_lib ''demo'' = Some demo_toml" by (simp add: demo_config_lib_def)
  have "ct_network demo_toml = demo_network" "ct_dns demo_toml = None" "ct_logging demo_toml = None"
    "ct_system demo_toml = None" "ct_dhcp demo_toml = Some (Some [demo_reservation])"
    "ct_lan demo_toml = Some \<lparr> ls_primary_network = None, ls_fallback_network = None, ls_prefix_length = Some 29 \<rparr>"
    by (simp_all add: demo_toml_def)
  note f = this
  have d: "parse_dns_servers demo_network None = Inr [151587081]"
    by (simp add: parse_dns_servers_def demo_network_def demo_dns)
  have l: "parse_lan_subnets cidr_lib (ct_lan demo_toml) =
      Inr (lan29, wan29, show_ip 3232235777 @ ''/29'', show_ip 167772161 @ ''/29'')"
    by (simp add: parse_lan_subnets_def f demo_lan)
  have g: "parse_logging_config demo_config_lib None = Inr default_logging"
    by (simp add: parse_logging_config_def default_logging_def max_def word_le_nat_alt)
  show ?thesis
    by (simp add: parse_config_def t f(1-5) d l g demo_macs demo_leases demo_rules demo_router_config_def)
qed

theorem accepted_config_valid_witness:
  "parse_config cidr_lib demo_config_lib (Some ''demo'') = Inr demo_router_config
   \<and> rc_wan_mac demo_router_config \<noteq> rc_lan_mac demo_router_config
   \<and> distinct (lease_names (rc_static_leases demo_router_config))"
  using demo_config_parsed accepted_config_valid[OF cidr.net_laws_axioms demo_config_parsed] by blast

end
