(* ===== verification/Service_Controller.thy ===== *)
theory Service_Controller
  imports Prelude
begin

text \<open>
  \<open>ServiceController\<close> of \<open>services/supervisor.rs\<close>. The shutdown sender and the task handle are set
  together by \<open>start\<close> and taken together by \<open>stop\<close>, so a controller is the flag whether it has a task.
\<close>

datatype service_error = AlreadyRunning | NotRunning | ServiceIo | FailedToStart

type_synonym controller = bool

definition controller_new :: controller where
  "controller_new = False"

definition is_running :: "controller \<Rightarrow> bool" where
  "is_running c = c"

fun controller_start :: "controller \<Rightarrow> (service_error + unit) \<times> controller" where
  "controller_start c = (if is_running c then (Inl AlreadyRunning, c) else (Inr (), True))"

fun controller_stop :: "controller \<Rightarrow> (service_error + unit) \<times> controller" where
  "controller_stop c = (if is_running c then (Inr (), controller_new) else (Inl NotRunning, c))"

declare is_running_def [simp] controller_new_def [simp]

end
