(* ===== verification/Lan_Manager.thy ===== *)
theory Lan_Manager
  imports Config Service_Controller
begin

text \<open>
  The LAN manager, \<open>services/lan/manager.rs\<close>: it configures the LAN address, runs the DHCP
  server and the status page on it, and moves the LAN to the fallback network when the WAN
  lease overlaps it. The effects on the rest of the system are recorded in order in
  \<open>lr_effects\<close>; what the kernel answers (interface index, address configuration, listening
  socket, netlink) is the argument \<open>lan_env\<close>. A service object has its
  controller: it is running or not.
\<close>

section \<open>Address translation\<close>

definition is_valid_subnet_prefix :: "u8 \<Rightarrow> bool" where
  "is_valid_subnet_prefix p \<longleftrightarrow> 8 \<le> p \<and> p \<le> 30"

definition is_subnet_overlap :: "'n net_lib \<Rightarrow> 'n \<Rightarrow> 'n \<Rightarrow> bool" where
  "is_subnet_overlap L n1 n2 \<longleftrightarrow> net_contains L n1 (net_network L n2) \<or> net_contains L n2 (net_network L n1)"

definition translate_ip_to_subnet :: "'n net_lib \<Rightarrow> ip \<Rightarrow> 'n \<Rightarrow> 'n \<Rightarrow> ip option" where
  "translate_ip_to_subnet L i from_net to_net =
     (if \<not> net_contains L from_net i then None
      else Option.bind (checked_sub i (net_network L from_net)) (\<lambda>offset.
        Option.bind (checked_add (net_network L to_net) offset) (\<lambda>mapped.
        if net_contains L to_net mapped \<and> mapped \<noteq> net_addr L to_net \<and> mapped \<noteq> net_broadcast L to_net
        then Some mapped else None)))"

fun remap_leases :: "'n net_lib \<Rightarrow> 'n \<Rightarrow> 'n \<Rightarrow> static_lease list \<Rightarrow> static_lease list" where
  "remap_leases L p t [] = []"
| "remap_leases L p t (l # ls) =
     (case translate_ip_to_subnet L (sl_ip l) p t of
        Some m \<Rightarrow> \<lparr> sl_mac = sl_mac l, sl_ip = m, sl_hostname = sl_hostname l \<rparr> # remap_leases L p t ls
      | None \<Rightarrow> remap_leases L p t ls)"

definition remap_static_leases_for_subnet ::
  "'n net_lib \<Rightarrow> static_lease list \<Rightarrow> 'n \<Rightarrow> 'n \<Rightarrow> static_lease list" where
  "remap_static_leases_for_subnet L leases primary target =
     (if primary = target then leases else remap_leases L primary target leases)"

fun remap_forwards :: "'n net_lib \<Rightarrow> 'n \<Rightarrow> 'n \<Rightarrow> port_forward_rule list \<Rightarrow> port_forward_rule list" where
  "remap_forwards L p t [] = []"
| "remap_forwards L p t (r # rs) =
     (case translate_ip_to_subnet L (pf_internal_ip r) p t of
        Some m \<Rightarrow> r\<lparr> pf_internal_ip := m \<rparr> # remap_forwards L p t rs
      | None \<Rightarrow> remap_forwards L p t rs)"

definition remap_port_forwards_for_subnet ::
  "'n net_lib \<Rightarrow> port_forward_rule list \<Rightarrow> 'n \<Rightarrow> 'n \<Rightarrow> port_forward_rule list" where
  "remap_port_forwards_for_subnet L rules primary target =
     (if primary = target then rules else remap_forwards L primary target rules)"

section \<open>The runner\<close>

record dhcp_server_obj =
  ds_interface :: string
  ds_lan_ip :: string
  ds_static_leases :: "static_lease list"
  ds_running :: controller

record observability_obj =
  ob_interface :: string
  ob_lan_ip :: string
  ob_running :: controller

datatype lan_effect =
    LanHeartbeat
  | ConfigureAddress string string
  | FlushAddresses string u32
  | DhcpServerStart string string "static_lease list"
  | DhcpServerStop
  | ObservabilityStart string string
  | ObservabilityStop
  | HostEvent local_host_event
  | ConfigureFirewall string string "port_forward_rule list"

record lan_runner =
  lr_lan_interface :: string
  lr_wan_interface :: string
  lr_initial_ip :: string
  lr_current_ip :: string
  lr_backup_ip :: string
  lr_wan_lease :: wan_lease
  lr_has_local_hosts :: bool
  lr_static_leases :: "static_lease list"
  lr_port_forwards :: "port_forward_rule list"
  lr_dhcp_server :: dhcp_server_obj
  lr_observability :: observability_obj
  lr_effects :: "lan_effect list"

record lan_env =
  env_index :: "u32 option"
  env_configure :: bool
  env_listener :: bool
  env_netlink :: bool

definition runner_new ::
  "string \<Rightarrow> string \<Rightarrow> string \<Rightarrow> string \<Rightarrow> wan_lease \<Rightarrow> bool \<Rightarrow> static_lease list \<Rightarrow> port_forward_rule list \<Rightarrow> lan_runner" where
  "runner_new lan wan initial backup lease has_hosts leases forwards = \<lparr>
     lr_lan_interface = lan, lr_wan_interface = wan, lr_initial_ip = initial, lr_current_ip = initial,
     lr_backup_ip = backup, lr_wan_lease = lease, lr_has_local_hosts = has_hosts,
     lr_static_leases = leases, lr_port_forwards = forwards,
     lr_dhcp_server = \<lparr> ds_interface = lan, ds_lan_ip = initial, ds_static_leases = leases, ds_running = False \<rparr>,
     lr_observability = \<lparr> ob_interface = lan, ob_lan_ip = initial, ob_running = False \<rparr>,
     lr_effects = [] \<rparr>"

definition emit :: "lan_effect \<Rightarrow> lan_runner \<Rightarrow> lan_runner" where
  "emit e r = r\<lparr> lr_effects := lr_effects r @ [e] \<rparr>"

definition dhcp_server_start :: "lan_runner \<Rightarrow> (service_error + unit) \<times> lan_runner" where
  "dhcp_server_start r =
     (let d = lr_dhcp_server r in
      case controller_start (ds_running d) of
        (Inl e, _) \<Rightarrow> (Inl e, r)
      | (Inr u, run) \<Rightarrow>
          (Inr (), emit (DhcpServerStart (ds_interface d) (ds_lan_ip d) (ds_static_leases d))
                     (r\<lparr> lr_dhcp_server := d\<lparr> ds_running := run \<rparr> \<rparr>)))"

definition dhcp_server_stop :: "lan_runner \<Rightarrow> lan_runner" where
  "dhcp_server_stop r =
     (let d = lr_dhcp_server r in
      case controller_stop (ds_running d) of
        (Inl e, _) \<Rightarrow> r
      | (Inr u, run) \<Rightarrow> emit DhcpServerStop (r\<lparr> lr_dhcp_server := d\<lparr> ds_running := run \<rparr> \<rparr>))"

definition observability_start :: "lan_env \<Rightarrow> lan_runner \<Rightarrow> lan_runner" where
  "observability_start env r =
     (let s = lr_observability r in
      if \<not> env_listener env then r
      else case controller_start (ob_running s) of
        (Inl e, _) \<Rightarrow> r
      | (Inr u, run) \<Rightarrow> emit (ObservabilityStart (ob_interface s) (ob_lan_ip s))
                           (r\<lparr> lr_observability := s\<lparr> ob_running := run \<rparr> \<rparr>))"

definition observability_stop :: "lan_runner \<Rightarrow> lan_runner" where
  "observability_stop r =
     (let s = lr_observability r in
      case controller_stop (ob_running s) of
        (Inl e, _) \<Rightarrow> r
      | (Inr u, run) \<Rightarrow> emit ObservabilityStop (r\<lparr> lr_observability := s\<lparr> ob_running := run \<rparr> \<rparr>))"

definition stop_services :: "lan_runner \<Rightarrow> lan_runner" where
  "stop_services r = observability_stop (dhcp_server_stop r)"

definition reconfigure_lan_interface_ip :: "lan_env \<Rightarrow> string \<Rightarrow> lan_runner \<Rightarrow> lan_runner" where
  "reconfigure_lan_interface_ip env new_ip r =
     emit (ConfigureAddress (lr_lan_interface r) new_ip)
       (case env_index env of Some i \<Rightarrow> emit (FlushAddresses (lr_lan_interface r) i) r | None \<Rightarrow> r)"

definition notify_router_dns_host :: "'n net_lib \<Rightarrow> string \<Rightarrow> lan_runner \<Rightarrow> lan_runner" where
  "notify_router_dns_host L new_ip r =
     (if lr_has_local_hosts r
      then case net_parse L new_ip of
             Some n \<Rightarrow> emit (HostEvent (LhRegister ROUTER_HOSTNAME (net_addr L n))) r
           | None \<Rightarrow> r
      else r)"

fun register_names :: "static_lease list \<Rightarrow> lan_runner \<Rightarrow> lan_runner" where
  "register_names [] r = r"
| "register_names (l # ls) r =
     register_names ls
       (case sl_hostname l of Some n \<Rightarrow> emit (HostEvent (LhRegister n (sl_ip l))) r | None \<Rightarrow> r)"

definition notify_static_lease_dns_hosts :: "static_lease list \<Rightarrow> lan_runner \<Rightarrow> lan_runner" where
  "notify_static_lease_dns_hosts leases r = (if lr_has_local_hosts r then register_names leases r else r)"

definition compute_remapped_rules ::
  "'n net_lib \<Rightarrow> string \<Rightarrow> lan_runner \<Rightarrow> static_lease list \<times> port_forward_rule list" where
  "compute_remapped_rules L new_ip r =
     (case net_parse L (lr_initial_ip r) of
        None \<Rightarrow> (lr_static_leases r, lr_port_forwards r)
      | Some primary \<Rightarrow>
          (case net_parse L new_ip of
             None \<Rightarrow> (lr_static_leases r, lr_port_forwards r)
           | Some target \<Rightarrow>
               (remap_static_leases_for_subnet L (lr_static_leases r) primary target,
                remap_port_forwards_for_subnet L (lr_port_forwards r) primary target)))"

definition update_firewall_for_subnet :: "port_forward_rule list \<Rightarrow> lan_runner \<Rightarrow> lan_runner" where
  "update_firewall_for_subnet forwards r =
     emit (ConfigureFirewall (lr_wan_interface r) (lr_lan_interface r) forwards) r"

definition restart_dhcp_server_on_subnet :: "static_lease list \<Rightarrow> lan_runner \<Rightarrow> lan_runner" where
  "restart_dhcp_server_on_subnet leases r =
     snd (dhcp_server_start (r\<lparr> lr_dhcp_server := \<lparr> ds_interface = lr_lan_interface r,
            ds_lan_ip = lr_current_ip r, ds_static_leases = leases, ds_running = False \<rparr> \<rparr>))"

definition restart_observability_on_subnet :: "lan_env \<Rightarrow> lan_runner \<Rightarrow> lan_runner" where
  "restart_observability_on_subnet env r =
     observability_start env (r\<lparr> lr_observability := \<lparr> ob_interface = lr_lan_interface r,
            ob_lan_ip = lr_current_ip r, ob_running = False \<rparr> \<rparr>)"

definition shift_lan_subnet :: "'n net_lib \<Rightarrow> lan_env \<Rightarrow> string \<Rightarrow> lan_runner \<Rightarrow> lan_runner" where
  "shift_lan_subnet L env new_ip r0 =
     (let r1 = stop_services r0;
          r2 = reconfigure_lan_interface_ip env new_ip r1;
          r3 = notify_router_dns_host L new_ip (r2\<lparr> lr_current_ip := new_ip \<rparr>);
          (leases, forwards) = compute_remapped_rules L new_ip r3;
          r4 = notify_static_lease_dns_hosts leases r3;
          r5 = update_firewall_for_subnet forwards r4;
          r6 = restart_dhcp_server_on_subnet leases r5
      in restart_observability_on_subnet env r6)"

text \<open>The network of the WAN lease, when it has an address and a mask of a usable length.\<close>

definition wan_net_of :: "'n net_lib \<Rightarrow> wan_lease \<Rightarrow> 'n option" where
  "wan_net_of L lease =
     (case (wl_ip lease, wl_mask lease) of
        (Some i, Some m) \<Rightarrow>
          (case mask_to_prefix_len m of
             Inl e \<Rightarrow> None
           | Inr p \<Rightarrow> if \<not> is_valid_subnet_prefix p then None else net_new L i p)
      | _ \<Rightarrow> None)"

definition check_and_resolve :: "'n net_lib \<Rightarrow> lan_env \<Rightarrow> lan_runner \<Rightarrow> lan_runner" where
  "check_and_resolve L env r =
     (case wan_net_of L (lr_wan_lease r) of
        None \<Rightarrow> r
      | Some wan_net \<Rightarrow>
          (case net_parse L (lr_current_ip r) of
             None \<Rightarrow> r
           | Some current_net \<Rightarrow>
               if \<not> is_subnet_overlap L wan_net current_net then r
               else if lr_current_ip r = lr_backup_ip r then r
               else case net_parse L (lr_backup_ip r) of
                      None \<Rightarrow> r
                    | Some backup_net \<Rightarrow>
                        if is_subnet_overlap L wan_net backup_net then r
                        else shift_lan_subnet L env (lr_backup_ip r) r))"

section \<open>The event loop\<close>

datatype rtnl_message = NewLink | NewAddress | DelAddress | OtherRouteMessage
datatype lan_netlink_payload = LanInnerMessage rtnl_message | LanOtherPayload

fun is_address_or_link_event :: "lan_netlink_payload \<Rightarrow> bool" where
  "is_address_or_link_event (LanInnerMessage m) = (case m of NewLink \<Rightarrow> True | NewAddress \<Rightarrow> True
     | DelAddress \<Rightarrow> True | OtherRouteMessage \<Rightarrow> False)"
| "is_address_or_link_event LanOtherPayload = False"

text \<open>
  \<open>run\<close> up to its loop; the flag says whether the loop is entered. An event of the loop comes
  with the value of the WAN lease channel at that moment.
\<close>

definition lan_run_start :: "'n net_lib \<Rightarrow> lan_env \<Rightarrow> lan_runner \<Rightarrow> bool \<times> lan_runner" where
  "lan_run_start L env r0 =
     (let r1 = emit (ConfigureAddress (lr_lan_interface r0) (lr_current_ip r0)) (emit LanHeartbeat r0) in
      if \<not> env_configure env then (False, r1)
      else case dhcp_server_start r1 of
        (Inl e, r2) \<Rightarrow> (False, r2)
      | (Inr u, r2) \<Rightarrow>
          let r3 = observability_start env r2 in
          if \<not> env_netlink env then (False, stop_services r3)
          else (True, check_and_resolve L env r3))"

datatype lan_event =
    ShutdownSignal
  | HeartbeatTimer
  | WanLeaseChanged
  | WanLeaseClosed
  | NetlinkMessage lan_netlink_payload

definition lan_loop_step ::
  "'n net_lib \<Rightarrow> lan_env \<Rightarrow> wan_lease \<Rightarrow> lan_event \<Rightarrow> lan_runner \<Rightarrow> bool \<times> lan_runner" where
  "lan_loop_step L env lease ev r0 =
     (let r = emit LanHeartbeat (r0\<lparr> lr_wan_lease := lease \<rparr>) in
      case ev of
        ShutdownSignal \<Rightarrow> (False, stop_services r)
      | HeartbeatTimer \<Rightarrow> (True, emit LanHeartbeat r)
      | WanLeaseClosed \<Rightarrow> (False, stop_services r)
      | WanLeaseChanged \<Rightarrow> (True, check_and_resolve L env (emit LanHeartbeat r))
      | NetlinkMessage p \<Rightarrow> (True, if is_address_or_link_event p then check_and_resolve L env r else r))"

inductive lan_reach :: "'n net_lib \<Rightarrow> lan_runner \<Rightarrow> bool \<Rightarrow> lan_runner \<Rightarrow> bool" for L r0 where
  start: "lan_run_start L env r0 = (b, r) \<Longrightarrow> lan_reach L r0 b r"
| step: "lan_reach L r0 True r \<Longrightarrow> lan_loop_step L env lease ev r = (b, r') \<Longrightarrow> lan_reach L r0 b r'"

section \<open>Translation keeps every accepted address\<close>

lemma overlap_shared:
  assumes "net_laws L"
  shows "is_subnet_overlap L n n' \<longleftrightarrow> (\<exists>a. net_contains L n a \<and> net_contains L n' a)"
  using net_laws.overlap_iff[OF assms] by (simp add: is_subnet_overlap_def)

definition moved :: "'n net_lib \<Rightarrow> 'n \<Rightarrow> 'n \<Rightarrow> ip \<Rightarrow> ip" where
  "moved L from_net to_net i = net_network L to_net + (i - net_network L from_net)"

lemma moved_inject: "moved L f t i = moved L f t j \<longleftrightarrow> i = j"
  by (simp add: moved_def)

lemma translate_valid_target:
  assumes "net_laws L" "valid_target L lan backup i"
  shows "translate_ip_to_subnet L i lan backup = Some (moved L lan backup i)"
proof -
  have "net_network L lan \<le> i"
    using assms(2) net_laws.contains[OF assms(1)] by (auto simp: valid_target_def invalid_host_def)
  with assms(2) show ?thesis
    by (auto simp: translate_ip_to_subnet_def valid_target_def invalid_host_def moved_def checked_sub_def
        checked_add_def unat_sub)
qed

lemma remap_leases_all:
  assumes "net_laws L" "\<And>l. l \<in> set ls \<Longrightarrow> valid_target L lan backup (sl_ip l)"
  shows "remap_leases L lan backup ls = map (\<lambda>l. l\<lparr> sl_ip := moved L lan backup (sl_ip l) \<rparr>) ls"
  using assms(2) by (induction ls) (simp_all add: translate_valid_target[OF assms(1)])

lemma remap_forwards_all:
  assumes "net_laws L" "\<And>r. r \<in> set rs \<Longrightarrow> valid_target L lan backup (pf_internal_ip r)"
  shows "remap_forwards L lan backup rs = map (\<lambda>r. r\<lparr> pf_internal_ip := moved L lan backup (pf_internal_ip r) \<rparr>) rs"
  using assms(2) by (induction rs) (simp_all add: translate_valid_target[OF assms(1)])

section \<open>What a shift does\<close>

lemma emit_simps [simp]:
  "lr_effects (emit e r) = lr_effects r @ [e]"
  "lr_lan_interface (emit e r) = lr_lan_interface r" "lr_wan_interface (emit e r) = lr_wan_interface r"
  "lr_initial_ip (emit e r) = lr_initial_ip r" "lr_current_ip (emit e r) = lr_current_ip r"
  "lr_backup_ip (emit e r) = lr_backup_ip r" "lr_wan_lease (emit e r) = lr_wan_lease r"
  "lr_has_local_hosts (emit e r) = lr_has_local_hosts r" "lr_static_leases (emit e r) = lr_static_leases r"
  "lr_port_forwards (emit e r) = lr_port_forwards r" "lr_dhcp_server (emit e r) = lr_dhcp_server r"
  "lr_observability (emit e r) = lr_observability r"
  by (simp_all add: emit_def)

lemma register_names_eq:
  "register_names ls r =
     r\<lparr> lr_effects := lr_effects r @ List.map_filter (\<lambda>l. map_option (\<lambda>n. HostEvent (LhRegister n (sl_ip l))) (sl_hostname l)) ls \<rparr>"
  by (induction ls arbitrary: r) (auto simp: emit_def map_filter_simps split: option.split)

lemma stop_services_eq:
  "stop_services r = r\<lparr> lr_dhcp_server := (lr_dhcp_server r)\<lparr> ds_running := False \<rparr>,
     lr_observability := (lr_observability r)\<lparr> ob_running := False \<rparr>,
     lr_effects := lr_effects r @ (if ds_running (lr_dhcp_server r) then [DhcpServerStop] else [])
       @ (if ob_running (lr_observability r) then [ObservabilityStop] else []) \<rparr>"
  by (auto simp: stop_services_def dhcp_server_stop_def observability_stop_def emit_def Let_def)

text \<open>The effects of a shift, in order.\<close>

definition shift_effects :: "'n net_lib \<Rightarrow> lan_env \<Rightarrow> string \<Rightarrow> lan_runner \<Rightarrow> lan_effect list" where
  "shift_effects L env new_ip r =
     (let (leases, forwards) = compute_remapped_rules L new_ip r in
      (if ds_running (lr_dhcp_server r) then [DhcpServerStop] else [])
      @ (if ob_running (lr_observability r) then [ObservabilityStop] else [])
      @ (case env_index env of Some i \<Rightarrow> [FlushAddresses (lr_lan_interface r) i] | None \<Rightarrow> [])
      @ [ConfigureAddress (lr_lan_interface r) new_ip]
      @ (if lr_has_local_hosts r
         then (case net_parse L new_ip of
                 Some n \<Rightarrow> [HostEvent (LhRegister ROUTER_HOSTNAME (net_addr L n))] | None \<Rightarrow> [])
              @ List.map_filter (\<lambda>l. map_option (\<lambda>n. HostEvent (LhRegister n (sl_ip l))) (sl_hostname l)) leases
         else [])
      @ [ConfigureFirewall (lr_wan_interface r) (lr_lan_interface r) forwards,
         DhcpServerStart (lr_lan_interface r) new_ip leases]
      @ (if env_listener env then [ObservabilityStart (lr_lan_interface r) new_ip] else []))"

lemma compute_remapped_cong:
  "lr_initial_ip r' = lr_initial_ip r \<Longrightarrow> lr_static_leases r' = lr_static_leases r \<Longrightarrow>
   lr_port_forwards r' = lr_port_forwards r \<Longrightarrow> compute_remapped_rules L i r' = compute_remapped_rules L i r"
  by (simp add: compute_remapped_rules_def cong: option.case_cong)

lemma shift_lan_subnet_eq:
  "shift_lan_subnet L env new_ip r = r\<lparr>
     lr_current_ip := new_ip,
     lr_dhcp_server := \<lparr> ds_interface = lr_lan_interface r, ds_lan_ip = new_ip,
        ds_static_leases = fst (compute_remapped_rules L new_ip r), ds_running = True \<rparr>,
     lr_observability := \<lparr> ob_interface = lr_lan_interface r, ob_lan_ip = new_ip, ob_running = env_listener env \<rparr>,
     lr_effects := lr_effects r @ shift_effects L env new_ip r \<rparr>"
proof -
  obtain leases forwards where c: "compute_remapped_rules L new_ip r = (leases, forwards)" by fastforce
  define r3 where "r3 = notify_router_dns_host L new_ip
    ((reconfigure_lan_interface_ip env new_ip (stop_services r))\<lparr> lr_current_ip := new_ip \<rparr>)"
  have r3: "r3 = (stop_services r)\<lparr> lr_current_ip := new_ip, lr_effects := lr_effects (stop_services r)
      @ (case env_index env of Some i \<Rightarrow> [FlushAddresses (lr_lan_interface r) i] | None \<Rightarrow> [])
      @ [ConfigureAddress (lr_lan_interface r) new_ip]
      @ (if lr_has_local_hosts r then (case net_parse L new_ip of
             Some n \<Rightarrow> [HostEvent (LhRegister ROUTER_HOSTNAME (net_addr L n))] | None \<Rightarrow> []) else []) \<rparr>"
    by (simp add: r3_def notify_router_dns_host_def reconfigure_lan_interface_ip_def stop_services_eq emit_def
        split: option.split)
  have c3: "compute_remapped_rules L new_ip r3 = (leases, forwards)"
    by (subst compute_remapped_cong[of r3 r]) (simp_all add: r3 stop_services_eq c)
  have "shift_lan_subnet L env new_ip r = restart_observability_on_subnet env (restart_dhcp_server_on_subnet leases
      (update_firewall_for_subnet forwards (notify_static_lease_dns_hosts leases r3)))"
    unfolding shift_lan_subnet_def Let_def r3_def[symmetric] c3 by simp
  then show ?thesis
    by (simp add: r3 c restart_observability_on_subnet_def restart_dhcp_server_on_subnet_def dhcp_server_start_def
        observability_start_def update_firewall_for_subnet_def notify_static_lease_dns_hosts_def
        register_names_eq stop_services_eq shift_effects_def emit_def Let_def)
qed

lemma check_and_resolve_cases:
  "check_and_resolve L env r = r \<or>
   (lr_current_ip r \<noteq> lr_backup_ip r \<and> check_and_resolve L env r = shift_lan_subnet L env (lr_backup_ip r) r)"
  by (simp add: check_and_resolve_def split: option.split)


section \<open>Reachable runners\<close>

text \<open>Services always serve the LAN's current network with the reservations of that network.\<close>

definition lan_consistent :: "'n net_lib \<Rightarrow> lan_runner \<Rightarrow> lan_runner \<Rightarrow> bool" where
  "lan_consistent L r0 r \<longleftrightarrow>
     lr_initial_ip r = lr_initial_ip r0 \<and> lr_backup_ip r = lr_backup_ip r0
     \<and> lr_static_leases r = lr_static_leases r0 \<and> lr_port_forwards r = lr_port_forwards r0
     \<and> ds_lan_ip (lr_dhcp_server r) = lr_current_ip r \<and> ob_lan_ip (lr_observability r) = lr_current_ip r
     \<and> (lr_current_ip r = lr_initial_ip r \<and> ds_static_leases (lr_dhcp_server r) = lr_static_leases r
        \<or> lr_current_ip r = lr_backup_ip r
          \<and> ds_static_leases (lr_dhcp_server r) = fst (compute_remapped_rules L (lr_backup_ip r) r))"

lemma consistent_frame:
  assumes "lan_consistent L r0 r" "lr_initial_ip r' = lr_initial_ip r" "lr_backup_ip r' = lr_backup_ip r"
    "lr_current_ip r' = lr_current_ip r" "lr_static_leases r' = lr_static_leases r"
    "lr_port_forwards r' = lr_port_forwards r"
    "ds_lan_ip (lr_dhcp_server r') = ds_lan_ip (lr_dhcp_server r)"
    "ds_static_leases (lr_dhcp_server r') = ds_static_leases (lr_dhcp_server r)"
    "ob_lan_ip (lr_observability r') = ob_lan_ip (lr_observability r)"
  shows "lan_consistent L r0 r'"
  using assms compute_remapped_cong[of r' r L "lr_backup_ip r"] by (auto simp: lan_consistent_def)

lemma consistent_emit: "lan_consistent L r0 r \<Longrightarrow> lan_consistent L r0 (emit e r)"
  by (erule consistent_frame) simp_all

lemma consistent_lease: "lan_consistent L r0 r \<Longrightarrow> lan_consistent L r0 (r\<lparr> lr_wan_lease := l \<rparr>)"
  by (erule consistent_frame) simp_all

lemma consistent_stop: "lan_consistent L r0 r \<Longrightarrow> lan_consistent L r0 (stop_services r)"
  by (erule consistent_frame) (simp_all add: stop_services_eq)

lemma consistent_dhcp_start: "lan_consistent L r0 r \<Longrightarrow> lan_consistent L r0 (snd (dhcp_server_start r))"
  by (erule consistent_frame) (simp_all add: dhcp_server_start_def Let_def)

lemma consistent_observability: "lan_consistent L r0 r \<Longrightarrow> lan_consistent L r0 (observability_start env r)"
  by (erule consistent_frame) (simp_all add: observability_start_def Let_def)

lemma consistent_check: "lan_consistent L r0 r \<Longrightarrow> lan_consistent L r0 (check_and_resolve L env r)"
  using check_and_resolve_cases[of L env r]
    compute_remapped_cong[of "shift_lan_subnet L env (lr_backup_ip r) r" r L "lr_backup_ip r"]
  by (auto simp: lan_consistent_def shift_lan_subnet_eq)

lemmas consistent_intros = consistent_emit consistent_lease consistent_stop consistent_check
  consistent_observability

lemma consistent_start:
  assumes "lan_consistent L r0 r" "lan_run_start L env r = (b, r')"
  shows "lan_consistent L r0 r'"
proof -
  let ?r1 = "emit (ConfigureAddress (lr_lan_interface r) (lr_current_ip r)) (emit LanHeartbeat r)"
  have r1: "lan_consistent L r0 ?r1" by (intro consistent_intros assms(1))
  obtain x r2 where d: "dhcp_server_start ?r1 = (x, r2)" by fastforce
  with consistent_dhcp_start[OF r1] have r2: "lan_consistent L r0 r2" by simp
  have "r' \<in> {?r1, r2, stop_services (observability_start env r2), check_and_resolve L env (observability_start env r2)}"
    using assms(2) d by (auto simp: lan_run_start_def Let_def split: if_splits sum.splits)
  then show ?thesis using r1 r2 by (auto intro: consistent_intros)
qed

lemma consistent_step:
  "lan_consistent L r0 r \<Longrightarrow> lan_loop_step L env lease ev r = (b, r') \<Longrightarrow> lan_consistent L r0 r'"
  by (cases ev) (auto simp: lan_loop_step_def Let_def split: if_splits intro: consistent_intros)

lemma reach_consistent:
  "lan_reach L r0 b r \<Longrightarrow> lan_consistent L r0 r0 \<Longrightarrow> lan_consistent L r0 r"
  by (induction rule: lan_reach.induct) (blast intro: consistent_start consistent_step)+

lemma new_consistent: "lan_consistent L (runner_new lan wan i bk l h ls fs) (runner_new lan wan i bk l h ls fs)"
  by (simp add: lan_consistent_def runner_new_def)

text \<open>The runner that \<open>LanManager\<close> builds from an accepted configuration.\<close>

definition runner_of_config :: "router_config \<Rightarrow> string \<Rightarrow> string \<Rightarrow> wan_lease \<Rightarrow> bool \<Rightarrow> lan_runner" where
  "runner_of_config c lan wan lease has_hosts =
     runner_new lan wan (rc_lan_ip c) (rc_backup_lan_ip c) lease has_hosts (rc_static_leases c) (rc_port_forwards c)"

lemma moved_host:
  assumes "valid_target L lan backup i"
  shows "\<not> invalid_host L backup (moved L lan backup i)"
  using assms by (simp add: valid_target_def moved_def)

lemma config_networks:
  assumes "net_laws L" "parse_config L C content = Inr c"
  obtains lan backup where "net_parse L (rc_lan_ip c) = Some lan" "net_parse L (rc_backup_lan_ip c) = Some backup"
    "lan \<noteq> backup"
    "\<And>l. l \<in> set (rc_static_leases c) \<Longrightarrow> valid_target L lan backup (sl_ip l)"
    "distinct (map sl_ip (rc_static_leases c))"
proof -
  obtain parsed :: config_toml and lan backup where p:
    "parse_lan_subnets L (ct_lan parsed) = Inr (lan, backup, rc_lan_ip c, rc_backup_lan_ip c)"
    "parse_dhcp_reservations L C (ct_dhcp parsed) lan backup = Inr (rc_static_leases c)"
    by (rule parse_configD[OF assms(2)]) blast
  note n = parse_lan_subnets_valid[OF assms(1) p(1)] and r = parse_dhcp_reservations_valid[OF assms(1) p(2)]
  have "lan \<noteq> backup" using n(8) net_laws.contains_addr[OF assms(1)] by blast
  with n r that show thesis by blast
qed

lemma served_leases:
  assumes "net_laws L" "parse_config L C content = Inr c"
    "lan_reach L (runner_of_config c lan_if wan_if lease has_hosts) running r"
  obtains net f where "ds_lan_ip (lr_dhcp_server r) = lr_current_ip r" "ob_lan_ip (lr_observability r) = lr_current_ip r"
    "net_parse L (lr_current_ip r) = Some net"
    "ds_static_leases (lr_dhcp_server r) = map (\<lambda>l. l\<lparr> sl_ip := f (sl_ip l) \<rparr>) (rc_static_leases c)"
    "distinct (map (\<lambda>l. f (sl_ip l)) (rc_static_leases c))"
    "\<And>l. l \<in> set (rc_static_leases c) \<Longrightarrow> \<not> invalid_host L net (f (sl_ip l))"
proof -
  let ?r0 = "runner_of_config c lan_if wan_if lease has_hosts"
  obtain lan backup where n: "net_parse L (rc_lan_ip c) = Some lan" "net_parse L (rc_backup_lan_ip c) = Some backup"
    "lan \<noteq> backup" "\<And>l. l \<in> set (rc_static_leases c) \<Longrightarrow> valid_target L lan backup (sl_ip l)"
    "distinct (map sl_ip (rc_static_leases c))"
    by (rule config_networks[OF assms(1,2)]) blast
  have "lan_consistent L ?r0 r"
    by (rule reach_consistent[OF assms(3)]) (simp add: runner_of_config_def new_consistent)
  then have c: "lr_initial_ip r = rc_lan_ip c" "lr_backup_ip r = rc_backup_lan_ip c"
    "lr_static_leases r = rc_static_leases c"
    "ds_lan_ip (lr_dhcp_server r) = lr_current_ip r" "ob_lan_ip (lr_observability r) = lr_current_ip r"
    "lr_current_ip r = rc_lan_ip c \<and> ds_static_leases (lr_dhcp_server r) = rc_static_leases c
     \<or> lr_current_ip r = rc_backup_lan_ip c
       \<and> ds_static_leases (lr_dhcp_server r) = fst (compute_remapped_rules L (lr_backup_ip r) r)"
    by (auto simp: lan_consistent_def runner_of_config_def runner_new_def)
  have m: "fst (compute_remapped_rules L (lr_backup_ip r) r) =
      map (\<lambda>l. l\<lparr> sl_ip := moved L lan backup (sl_ip l) \<rparr>) (rc_static_leases c)"
    using n(3) by (simp add: compute_remapped_rules_def c n(1,2) remap_static_leases_for_subnet_def
        remap_leases_all[OF assms(1) n(4)])
  have d: "distinct (map (\<lambda>l. moved L lan backup (sl_ip l)) (rc_static_leases c))"
    using n(5) by (auto simp: distinct_map inj_on_def moved_inject)
  from c(6) show ?thesis
  proof
    assume "lr_current_ip r = rc_lan_ip c \<and> ds_static_leases (lr_dhcp_server r) = rc_static_leases c"
    then show ?thesis using that[of lan "\<lambda>i. i"] n c by (simp add: valid_target_def)
  next
    assume "lr_current_ip r = rc_backup_lan_ip c
       \<and> ds_static_leases (lr_dhcp_server r) = fst (compute_remapped_rules L (lr_backup_ip r) r)"
    then show ?thesis using that[of backup "moved L lan backup"] n(2) c(4,5) d m moved_host[OF n(4)] by simp
  qed
qed

text \<open>
  C4. From an accepted configuration to the running DHCP server: whatever sequence of WAN
  leases and link events the LAN manager sees, both services it runs are configured for its
  current network, and the DHCP server's reservations are all the configured ones, in
  order, with the same hardware addresses and names, at addresses that are distinct, usable
  hosts of that network. The move to the fallback network loses and corrupts no reservation.
\<close>

theorem reservations_survive_shift:
  assumes "net_laws L" "parse_config L C content = Inr c"
    "lan_reach L (runner_of_config c lan_if wan_if lease has_hosts) running r"
  shows "ds_lan_ip (lr_dhcp_server r) = lr_current_ip r \<and> ob_lan_ip (lr_observability r) = lr_current_ip r
    \<and> (\<exists>net. net_parse L (lr_current_ip r) = Some net
         \<and> (let served = ds_static_leases (lr_dhcp_server r) in
            map sl_mac served = map sl_mac (rc_static_leases c)
            \<and> map sl_hostname served = map sl_hostname (rc_static_leases c)
            \<and> distinct (map sl_ip served) \<and> (\<forall>l \<in> set served. \<not> invalid_host L net (sl_ip l))))"
proof -
  obtain net f where "ds_lan_ip (lr_dhcp_server r) = lr_current_ip r" "ob_lan_ip (lr_observability r) = lr_current_ip r"
      "net_parse L (lr_current_ip r) = Some net"
      "ds_static_leases (lr_dhcp_server r) = map (\<lambda>l. l\<lparr> sl_ip := f (sl_ip l) \<rparr>) (rc_static_leases c)"
      "distinct (map (\<lambda>l. f (sl_ip l)) (rc_static_leases c))"
      "\<And>l. l \<in> set (rc_static_leases c) \<Longrightarrow> \<not> invalid_host L net (f (sl_ip l))"
    by (rule served_leases[OF assms]) blast
  then show ?thesis by (simp add: comp_def)
qed

section \<open>A run\<close>

text \<open>A WAN lease inside the primary LAN, and the runner of the demonstration configuration.\<close>

definition clash_lease :: wan_lease where
  "clash_lease = \<lparr> wl_ip = Some 3232235781, wl_mask = Some 4294967288, wl_gateway = None, wl_dns_servers = [] \<rparr>"

definition demo_env :: lan_env where
  "demo_env = \<lparr> env_index = Some 3, env_configure = True, env_listener = True, env_netlink = True \<rparr>"

definition demo_runner :: lan_runner where
  "demo_runner = runner_of_config demo_router_config ''lan'' ''wan'' clash_lease True"

lemma mask29: "mask_to_prefix_len 4294967288 = Inr 29"
proof -
  have "prefix_len_to_mask 29 = 4294967288"
    by (simp add: prefix_len_to_mask_def push_bit_minus_one_eq_not_mask mask_eq_exp_minus_1)
  with mask_roundtrip[of 29] show ?thesis by simp
qed

lemma demo_parse: "net_parse cidr_lib (show_ip a @ ''/29'') = Some (a, 29)"
  using cidr.parse_text[of a 29] by (simp add: show_nat_small digit_char_def char_of_def bit_iff_odd cidr_lib_def)

lemma clash_net: "wan_net_of cidr_lib clash_lease = Some (3232235781, 29)"
  by (simp add: wan_net_of_def clash_lease_def mask29 is_valid_subnet_prefix_def cidr_lib_def)


lemma demo_start: "fst (lan_run_start cidr_lib demo_env demo_runner)"
  by (simp add: lan_run_start_def demo_env_def dhcp_server_start_def demo_runner_def runner_of_config_def
      runner_new_def Let_def)

theorem reservations_survive_shift_witness:
  "\<exists>r. lan_reach cidr_lib demo_runner True r \<and> ds_lan_ip (lr_dhcp_server r) = lr_current_ip r
     \<and> map sl_mac (ds_static_leases (lr_dhcp_server r)) = [MacAddr 2 0 0 0 0 3]"
proof -
  obtain r where "lan_run_start cidr_lib demo_env demo_runner = (True, r)"
    using demo_start by (cases "lan_run_start cidr_lib demo_env demo_runner") auto
  then have reach: "lan_reach cidr_lib demo_runner True r" by (rule lan_reach.start)
  have "map sl_mac (rc_static_leases demo_router_config) = [MacAddr 2 0 0 0 0 3]"
    by (simp add: demo_router_config_def nas_lease_def)
  with reach reservations_survive_shift[OF cidr.net_laws_axioms demo_config_parsed reach[unfolded demo_runner_def]]
  show ?thesis unfolding Let_def by metis
qed

end
