(* ===== verification/Dhcp_Client.thy ===== *)
theory Dhcp_Client
  imports Packet Rate_Limiter
begin

text \<open>
  The unprivileged DHCP client of the WAN side, \<open>services/dhcp_client/worker.rs\<close>. The nested
  loops of \<open>run\<close>, \<open>discover_phase\<close>, \<open>request_phase\<close>, \<open>bound_phase\<close> and \<open>renew_lease\<close> wait at a few
  points only; each of these waits is a constructor of \<open>client_phase\<close> with the local variables
  that are live there, and \<open>client_step\<close> is the code from one wait to the next. A wait ends
  with a frame from the parent, the end of its time, or the end of the channel.

  One clock reading serves one step. \<open>rand::random\<close> and the success of sending to the parent
  are fields of the environment.
\<close>

section \<open>Data\<close>

definition DEFAULT_LEASE_SECS :: u32 where "DEFAULT_LEASE_SECS = 3600"
definition MAX_RETRY_DELAY_SECS :: u32 where "MAX_RETRY_DELAY_SECS = 64"
definition INITIAL_RETRY_DELAY_SECS :: u32 where "INITIAL_RETRY_DELAY_SECS = 4"
definition DEFAULT_SUBNET_MASK :: ip where "DEFAULT_SUBNET_MASK = ipv4 255 255 255 0"
definition SOCKET_RESTART_DELAY_SECS :: nat where "SOCKET_RESTART_DELAY_SECS = 5"
definition BOUND_HEARTBEAT_INTERVAL_SECS :: nat where "BOUND_HEARTBEAT_INTERVAL_SECS = 3"

datatype dhcp_error =
    DeIo
  | DeProtocol string
  | DeNak
  | DeInterfaceNotFound string
  | DeRtNetlink

record dhcp_offer =
  of_ip :: ip
  of_server :: "ip option"

record dhcp_ack =
  ak_ip :: ip
  ak_mask :: ip
  ak_gateway :: "ip option"
  ak_server :: "ip option"
  ak_lease_secs :: u32
  ak_dns :: "ip list"

record lease_options =
  lo_mask :: ip
  lo_gateway :: "ip option"
  lo_dns :: "ip list"
  lo_lease_secs :: u32

datatype parse_ack_result = PaAck dhcp_ack | PaNak | PaNone

section \<open>Replies of the server\<close>

definition get_server_identifier :: "dhcp_message \<Rightarrow> ip option" where
  "get_server_identifier m =
     (case msg_opts m CodeServerIdentifier of Some (OptServerIdentifier i) \<Rightarrow> Some i | _ \<Rightarrow> None)"

definition parse_lease_options :: "dhcp_message \<Rightarrow> lease_options" where
  "parse_lease_options m = \<lparr>
     lo_mask = (case msg_opts m CodeSubnetMask of Some (OptSubnetMask k) \<Rightarrow> k | _ \<Rightarrow> DEFAULT_SUBNET_MASK),
     lo_gateway = (case msg_opts m CodeRouter of
                     Some (OptRouter routers) \<Rightarrow> (if routers \<noteq> [] then Some (hd routers) else None)
                   | _ \<Rightarrow> None),
     lo_dns = (case msg_opts m CodeDomainNameServer of Some (OptDomainNameServer l) \<Rightarrow> l | _ \<Rightarrow> []),
     lo_lease_secs = (case msg_opts m CodeAddressLeaseTime of
                        Some (OptAddressLeaseTime t) \<Rightarrow> t | _ \<Rightarrow> DEFAULT_LEASE_SECS) \<rparr>"

definition parse_offer :: "dhcp_message \<Rightarrow> u32 \<Rightarrow> dhcp_offer option" where
  "parse_offer m xid =
     (if msg_xid m \<noteq> xid then None
      else case msg_opts m CodeMessageType of
        Some (OptMessageType MtOffer) \<Rightarrow> Some \<lparr> of_ip = msg_yiaddr m, of_server = get_server_identifier m \<rparr>
      | _ \<Rightarrow> None)"

definition parse_ack_nak :: "dhcp_message \<Rightarrow> u32 \<Rightarrow> parse_ack_result" where
  "parse_ack_nak m xid =
     (if msg_xid m \<noteq> xid then PaNone
      else case msg_opts m CodeMessageType of
        Some (OptMessageType MtAck) \<Rightarrow>
          (let opts = parse_lease_options m in
           PaAck \<lparr> ak_ip = msg_yiaddr m, ak_mask = lo_mask opts, ak_gateway = lo_gateway opts,
                   ak_server = get_server_identifier m, ak_lease_secs = lo_lease_secs opts,
                   ak_dns = lo_dns opts \<rparr>)
      | Some (OptMessageType MtNak) \<Rightarrow> PaNak
      | _ \<Rightarrow> PaNone)"

text \<open>The test in \<open>recv_dhcp_packet\<close>: a DHCP message for the client port and this client.\<close>

definition own_packet :: "pnet_lib \<Rightarrow> dhcp_lib \<Rightarrow> mac \<Rightarrow> bytes \<Rightarrow> dhcp_message option" where
  "own_packet P D mac frame =
     (case parse_dhcp_payload P D frame CLIENT_PORT of
        Some m \<Rightarrow> if take (length (octets mac)) (msg_chaddr m) = octets mac then Some m else None
      | None \<Rightarrow> None)"

section \<open>Timers\<close>

definition calculate_next_delay :: "u32 \<Rightarrow> u32" where
  "calculate_next_delay current_delay =
     (let doubled = current_delay * 2 in
      if doubled > MAX_RETRY_DELAY_SECS then MAX_RETRY_DELAY_SECS else doubled)"

text \<open>\<open>Duration::from_secs_f64\<close>: the nearest nanosecond, ties to even.\<close>

definition from_secs_f64 :: "rat \<Rightarrow> duration" where
  "from_secs_f64 x =
     (let n = \<lfloor>x * of_nat nanos_per_sec\<rfloor>; rest = x * of_nat nanos_per_sec - of_int n
      in nat (if rest > 1 / 2 \<or> rest = 1 / 2 \<and> odd n then n + 1 else n))"

definition get_jittered_duration :: "(rat \<Rightarrow> f64) \<Rightarrow> rat \<Rightarrow> u32 \<Rightarrow> duration" where
  "get_jittered_duration rnd random base_secs =
     (let jitter = random * 2 - 1;
          secs = max (rnd (of_nat (unat base_secs) + jitter)) 1
      in from_secs_f64 secs)"

definition half_of_remaining :: "u32 \<Rightarrow> u32" where
  "half_of_remaining remaining = (if remaining > 60 then max (remaining div 2) 60 else max (remaining div 2) 1)"

definition saturating_sub32 :: "u32 \<Rightarrow> u32 \<Rightarrow> u32" where
  "saturating_sub32 a b = (if b \<le> a then a - b else 0)"

definition calculate_renewal_params :: "u32 \<Rightarrow> u32 \<Rightarrow> u32 \<Rightarrow> ip option \<Rightarrow> u32 \<times> ip \<times> bool" where
  "calculate_renewal_params current_elapsed t2_secs lease_secs server_ip =
     (if t2_secs \<le> current_elapsed
      then (half_of_remaining (saturating_sub32 lease_secs current_elapsed), - 1, True)
      else (half_of_remaining (saturating_sub32 t2_secs current_elapsed),
            case server_ip of Some s \<Rightarrow> s | None \<Rightarrow> - 1, False))"

text \<open>\<open>(lease_secs as f64 * 0.875) as u32\<close>: both factors and the product are exact in \<open>f64\<close>.\<close>

definition t2_of :: "u32 \<Rightarrow> u32" where
  "t2_of lease_secs = of_nat (unat lease_secs * 7 div 8)"

section \<open>The state machine\<close>

datatype client_phase =
    Discovering u32 u32 instant
  | Requesting u32 dhcp_offer u32 instant
  | Holding dhcp_ack instant instant
  | Renewing dhcp_ack instant u32 "instant option" instant
  | Backoff instant
  | BackoffSleep instant
  | Stopped

record client_env =
  ce_now :: instant
  ce_xid :: u32
  ce_random :: rat
  ce_rnd :: "rat \<Rightarrow> f64"
  ce_send_ok :: bool

datatype client_event = ClFrame bytes | ClTimer | ClClosed | ClRecvError

type_synonym client_out = "dhcp_client_to_parent list \<times> client_phase"

definition after_sending :: "client_env \<Rightarrow> dhcp_client_to_parent list \<Rightarrow> client_out \<Rightarrow> client_out" where
  "after_sending env ms r = ((if ce_send_ok env then ms else []) @ fst r, snd r)"

text \<open>The end of \<open>execute_phases\<close> in \<open>run\<close>, with \<open>handle_phase_failure\<close> up to its wait.\<close>

definition IPC_CLOSED :: dhcp_error where
  "IPC_CLOSED = DeProtocol ''IPC closed by parent''"

definition phase_failed :: "client_env \<Rightarrow> dhcp_error \<Rightarrow> client_out" where
  "phase_failed env e =
     (if e = IPC_CLOSED then ([], Stopped)
      else after_sending env [ClearWanLease] ([], Backoff (ce_now env + from_secs SOCKET_RESTART_DELAY_SECS)))"

definition elapsed_secs :: "client_env \<Rightarrow> instant \<Rightarrow> u32" where
  "elapsed_secs env since = of_nat (as_secs (ce_now env - since))"

definition discover_round :: "client_env \<Rightarrow> u32 \<Rightarrow> u32 \<Rightarrow> client_out" where
  "discover_round env xid delay =
     after_sending env [ClientHeartbeat, SendDiscover xid]
       ([], Discovering xid delay (ce_now env + get_jittered_duration (ce_rnd env) (ce_random env) delay))"

definition discover_phase :: "client_env \<Rightarrow> client_out" where
  "discover_phase env = discover_round env (ce_xid env) INITIAL_RETRY_DELAY_SECS"

definition request_round :: "client_env \<Rightarrow> u32 \<Rightarrow> dhcp_offer \<Rightarrow> u32 \<Rightarrow> client_out" where
  "request_round env xid off delay =
     after_sending env [ClientHeartbeat, SendRequest xid (of_ip off) (of_server off) 0]
       ([], Requesting xid off delay (ce_now env + get_jittered_duration (ce_rnd env) (ce_random env) delay))"

definition request_phase :: "client_env \<Rightarrow> u32 \<Rightarrow> dhcp_offer \<Rightarrow> client_out" where
  "request_phase env xid off = request_round env xid off INITIAL_RETRY_DELAY_SECS"

definition apply_lease_config :: "dhcp_ack \<Rightarrow> dhcp_client_to_parent" where
  "apply_lease_config ack =
     ApplyWanLease (ak_ip ack)
       (case mask_to_prefix_len (ak_mask ack) of Inr p \<Rightarrow> p | Inl e \<Rightarrow> 24)
       (case ak_gateway ack of Some g \<Rightarrow> g | None \<Rightarrow> 0)
       (ak_dns ack)"

definition renewal_failed :: "client_env \<Rightarrow> dhcp_error \<Rightarrow> client_out" where
  "renewal_failed env e = after_sending env [ClearWanLease] (phase_failed env e)"

text \<open>One pass of the loop of \<open>renew_lease\<close>.\<close>

definition renew_lease :: "client_env \<Rightarrow> dhcp_ack \<Rightarrow> instant \<Rightarrow> u32 \<Rightarrow> instant option \<Rightarrow> client_out" where
  "renew_lease env ack bound_at xid renew_sent =
     after_sending env [ClientHeartbeat]
       (let elapsed = elapsed_secs env bound_at in
        if ak_lease_secs ack \<le> elapsed then renewal_failed env (DeProtocol ''Lease expired during renewal'')
        else case calculate_renewal_params elapsed (t2_of (ak_lease_secs ack)) (ak_lease_secs ack) (ak_server ack) of
          (retry_interval, _, in_rebinding) \<Rightarrow>
            let should_send = (case renew_sent of None \<Rightarrow> True | Some t \<Rightarrow> retry_interval \<le> elapsed_secs env t);
                target = (if in_rebinding then None else ak_server ack);
                deadline = ce_now env + from_secs (unat retry_interval)
            in if should_send
               then after_sending env [SendRequest xid (ak_ip ack) target (ak_ip ack)]
                      ([], Renewing ack bound_at xid (Some (ce_now env)) deadline)
               else ([], Renewing ack bound_at xid renew_sent deadline))"

text \<open>One pass of the loop of \<open>bound_phase\<close>; when T1 is reached it enters \<open>renew_lease\<close>.\<close>

definition bound_loop :: "client_env \<Rightarrow> dhcp_ack \<Rightarrow> instant \<Rightarrow> client_out" where
  "bound_loop env ack bound_at =
     (let elapsed = elapsed_secs env bound_at; t1_secs = ak_lease_secs ack div 2 in
      if ak_lease_secs ack \<le> elapsed
      then after_sending env [ClearWanLease] (phase_failed env (DeProtocol ''Lease expired''))
      else if elapsed < t1_secs
      then after_sending env [ClientHeartbeat]
             ([], Holding ack bound_at
                    (ce_now env + from_secs (min BOUND_HEARTBEAT_INTERVAL_SECS (unat (t1_secs - elapsed)))))
      else renew_lease env ack bound_at (ce_xid env) None)"

definition bound_phase :: "client_env \<Rightarrow> dhcp_ack \<Rightarrow> client_out" where
  "bound_phase env ack =
     (if ce_send_ok env
      then after_sending env [apply_lease_config ack] (bound_loop env ack (ce_now env))
      else phase_failed env DeIo)"

text \<open>A wait that was not answered: go on waiting until its deadline.\<close>

definition still_waiting :: "client_env \<Rightarrow> instant \<Rightarrow> client_phase \<Rightarrow> client_out \<Rightarrow> client_out" where
  "still_waiting env deadline ph next_round = (if ce_now env < deadline then ([], ph) else next_round)"

fun client_step :: "pnet_lib \<Rightarrow> dhcp_lib \<Rightarrow> mac \<Rightarrow> client_env \<Rightarrow> client_event \<Rightarrow> client_phase \<Rightarrow> client_out" where
  "client_step P D mac env ev (Discovering xid delay deadline) =
     (let again = still_waiting env deadline (Discovering xid delay deadline)
                    (discover_round env xid (calculate_next_delay delay))
      in case ev of
        ClFrame f \<Rightarrow>
          (case Option.bind (own_packet P D mac f) (\<lambda>m. parse_offer m xid) of
             Some off \<Rightarrow> request_phase env xid off
           | None \<Rightarrow> again)
      | ClTimer \<Rightarrow> again
      | ClClosed \<Rightarrow> phase_failed env IPC_CLOSED
      | ClRecvError \<Rightarrow> phase_failed env DeIo)"
| "client_step P D mac env ev (Requesting xid off delay deadline) =
     (let again = still_waiting env deadline (Requesting xid off delay deadline)
                    (request_round env xid off (calculate_next_delay delay))
      in case ev of
        ClFrame f \<Rightarrow>
          (case map_option (\<lambda>m. parse_ack_nak m xid) (own_packet P D mac f) of
             Some (PaAck ack) \<Rightarrow> bound_phase env ack
           | Some PaNak \<Rightarrow> phase_failed env DeNak
           | _ \<Rightarrow> again)
      | ClTimer \<Rightarrow> again
      | ClClosed \<Rightarrow> phase_failed env IPC_CLOSED
      | ClRecvError \<Rightarrow> phase_failed env DeIo)"
| "client_step P D mac env ev (Holding ack bound_at wake) =
     (case ev of
        ClFrame f \<Rightarrow> bound_loop env ack bound_at
      | ClTimer \<Rightarrow> still_waiting env wake (Holding ack bound_at wake) (bound_loop env ack bound_at)
      | ClClosed \<Rightarrow> after_sending env [ClearWanLease] (phase_failed env IPC_CLOSED)
      | ClRecvError \<Rightarrow> after_sending env [ClearWanLease] (phase_failed env IPC_CLOSED))"
| "client_step P D mac env ev (Renewing ack bound_at xid renew_sent deadline) =
     (let again = still_waiting env deadline (Renewing ack bound_at xid renew_sent deadline)
                    (renew_lease env ack bound_at xid renew_sent)
      in case ev of
        ClFrame f \<Rightarrow>
          (case map_option (\<lambda>m. parse_ack_nak m xid) (own_packet P D mac f) of
             Some (PaAck new_ack) \<Rightarrow> bound_phase env new_ack
           | Some PaNak \<Rightarrow> renewal_failed env DeNak
           | _ \<Rightarrow> again)
      | ClTimer \<Rightarrow> again
      | ClClosed \<Rightarrow> renewal_failed env IPC_CLOSED
      | ClRecvError \<Rightarrow> renewal_failed env DeIo)"
| "client_step P D mac env ev (Backoff deadline) =
     (case ev of
        ClFrame f \<Rightarrow> ([], BackoffSleep (ce_now env + from_secs SOCKET_RESTART_DELAY_SECS))
      | ClTimer \<Rightarrow> still_waiting env deadline (Backoff deadline) (discover_phase env)
      | ClClosed \<Rightarrow> ([], Stopped)
      | ClRecvError \<Rightarrow> ([], Stopped))"
| "client_step P D mac env ev (BackoffSleep deadline) =
     still_waiting env deadline (BackoffSleep deadline) (discover_phase env)"
| "client_step P D mac env ev Stopped = ([], Stopped)"

end
