(* ===== verification/Network.thy ===== *)
theory Network
  imports Utils
begin

text \<open>
  Interface configuration through netlink, \<open>network.rs\<close>. The kernel and the crate \<open>rtnetlink\<close>
  are not part of the source: their requests are the fields of \<open>netlink\<close>, functions on a kernel
  state of arbitrary type that answer and return the new state. A function of the source is a
  function on that state; \<open>try_nl\<close> is the operator \<open>?\<close>.
\<close>

section \<open>Requests\<close>

record link =
  ln_index :: u32
  ln_up :: bool

text \<open>An address of an interface: interface, family (whether IPv4), prefix length and attributes.\<close>

datatype address_attribute = AttrLocal ip | AttrOther nat

record address_msg =
  am_index :: u32
  am_inet :: bool
  am_prefix :: u8
  am_attrs :: "address_attribute list"

datatype add_result = AddOk | AddExists | AddFailed

record 'k netlink =
  nl_connect :: "'k \<Rightarrow> bool"
  nl_find_link :: "string \<Rightarrow> 'k \<Rightarrow> router_error + link option"
  nl_set_up :: "u32 \<Rightarrow> 'k \<Rightarrow> bool \<times> 'k"
  nl_addresses :: "'k \<Rightarrow> (router_error + address_msg) list"
  nl_add :: "u32 \<Rightarrow> ip \<Rightarrow> u8 \<Rightarrow> 'k \<Rightarrow> add_result \<times> 'k"
  nl_del :: "address_msg \<Rightarrow> 'k \<Rightarrow> bool \<times> 'k"
  nl_default_route :: "ip \<Rightarrow> u32 \<Rightarrow> 'k \<Rightarrow> bool \<times> 'k"
  nl_write_file :: "string \<Rightarrow> string \<Rightarrow> 'k \<Rightarrow> bool \<times> 'k"

type_synonym ('k, 'e, 'a) nl = "'k \<Rightarrow> ('e + 'a) \<times> 'k"

definition try_nl :: "('k, 'e, 'a) nl \<Rightarrow> ('a \<Rightarrow> ('k, 'e, 'b) nl) \<Rightarrow> ('k, 'e, 'b) nl" where
  "try_nl m f k = (case m k of (Inl e, k') \<Rightarrow> (Inl e, k') | (Inr x, k') \<Rightarrow> f x k')"

definition check_nl :: "'e \<Rightarrow> ('k \<Rightarrow> bool \<times> 'k) \<Rightarrow> ('k, 'e, unit) nl" where
  "check_nl e request k = (case request k of (ok, k') \<Rightarrow> (if ok then Inr () else Inl e, k'))"

definition new_connection :: "'k netlink \<Rightarrow> ('k, router_error, unit) nl" where
  "new_connection N k = ((if nl_connect N k then Inr () else Inl Io), k)"

definition find_link :: "'k netlink \<Rightarrow> string \<Rightarrow> ('k, router_error, link option) nl" where
  "find_link N name k = (nl_find_link N name k, k)"

section \<open>Operations\<close>

definition get_interface_index :: "'k netlink \<Rightarrow> string \<Rightarrow> 'k \<Rightarrow> u32 option" where
  "get_interface_index N name k =
     (if \<not> nl_connect N k then None
      else case nl_find_link N name k of Inr (Some l) \<Rightarrow> Some (ln_index l) | _ \<Rightarrow> None)"

fun flush_loop :: "'k netlink \<Rightarrow> u32 \<Rightarrow> (router_error + address_msg) list \<Rightarrow> ('k, router_error, unit) nl" where
  "flush_loop N index [] k = (Inr (), k)"
| "flush_loop N index (Inl e # msgs) k = (Inl e, k)"
| "flush_loop N index (Inr a # msgs) k =
     flush_loop N index msgs (if am_index a = index \<and> am_inet a then snd (nl_del N a k) else k)"

definition flush_ipv4_addresses :: "'k netlink \<Rightarrow> u32 \<Rightarrow> ('k, router_error, unit) nl" where
  "flush_ipv4_addresses N index =
     try_nl (new_connection N) (\<lambda>_ k. flush_loop N index (nl_addresses N k) k)"

definition is_expected :: "ip \<Rightarrow> u8 \<Rightarrow> address_msg \<Rightarrow> bool" where
  "is_expected i p a \<longleftrightarrow> (\<exists>attr \<in> set (am_attrs a). attr = AttrLocal i) \<and> am_prefix a = p"

text \<open>The loop of \<open>configure_interface_ip\<close>; its result is \<open>already_configured\<close>.\<close>

fun stale_loop :: "'k netlink \<Rightarrow> u32 \<Rightarrow> ip \<Rightarrow> u8 \<Rightarrow> bool \<Rightarrow> (router_error + address_msg) list \<Rightarrow> ('k, router_error, bool) nl" where
  "stale_loop N index i p found [] k = (Inr found, k)"
| "stale_loop N index i p found (Inl e # msgs) k = (Inl e, k)"
| "stale_loop N index i p found (Inr a # msgs) k =
     (if am_index a = index \<and> am_inet a
      then if is_expected i p a then stale_loop N index i p True msgs k
           else stale_loop N index i p found msgs (snd (nl_del N a k))
      else stale_loop N index i p found msgs k)"

definition add_missing :: "'k netlink \<Rightarrow> u32 \<Rightarrow> ip \<Rightarrow> u8 \<Rightarrow> ('k, router_error, unit) nl" where
  "add_missing N index i p k =
     (case nl_add N index i p k of
        (AddOk, k') \<Rightarrow> (Inr (), k')
      | (AddExists, k') \<Rightarrow> (Inr (), k')
      | (AddFailed, k') \<Rightarrow> (Inl Netlink, k'))"

definition configure_interface_ip :: "'n net_lib \<Rightarrow> 'k netlink \<Rightarrow> string \<Rightarrow> string \<Rightarrow> ('k, router_error, bool) nl" where
  "configure_interface_ip L N name ip_cidr =
     try_nl (new_connection N) (\<lambda>_.
     try_nl (find_link N name) (\<lambda>found.
     case found of
       None \<Rightarrow> (\<lambda>k. (Inr False, k))
     | Some l \<Rightarrow>
         (case net_parse L ip_cidr of
            None \<Rightarrow> (\<lambda>k. (Inl AddrParse, k))
          | Some net \<Rightarrow>
              let i = net_addr L net; p = net_prefix_len L net in
              try_nl (\<lambda>k. stale_loop N (ln_index l) i p False (nl_addresses N k) k) (\<lambda>already_configured.
              if already_configured then (\<lambda>k. (Inr True, k))
              else try_nl (add_missing N (ln_index l) i p) (\<lambda>_ k. (Inr True, k))))))"

definition ensure_interface_up :: "'k netlink \<Rightarrow> string \<Rightarrow> ('k, router_error, bool) nl" where
  "ensure_interface_up N name =
     try_nl (new_connection N) (\<lambda>_.
     try_nl (find_link N name) (\<lambda>found.
     case found of
       None \<Rightarrow> (\<lambda>k. (Inr False, k))
     | Some l \<Rightarrow>
         if ln_up l then (\<lambda>k. (Inr True, k))
         else try_nl (check_nl Netlink (nl_set_up N (ln_index l))) (\<lambda>_ k. (Inr True, k))))"

text \<open>\<open>configure_interface\<close>: a failed address assignment is only logged.\<close>

definition configure_interface :: "'n net_lib \<Rightarrow> 'k netlink \<Rightarrow> string \<Rightarrow> 'n option \<Rightarrow> ('k, router_error, unit) nl" where
  "configure_interface L N name ip_net =
     try_nl (find_link N name) (\<lambda>found.
     case found of
       None \<Rightarrow> (\<lambda>k. (Inl (InterfaceNotFound name), k))
     | Some l \<Rightarrow>
         try_nl (check_nl Netlink (nl_set_up N (ln_index l))) (\<lambda>_ k.
         (Inr (), case ip_net of
                    Some net \<Rightarrow> snd (nl_add N (ln_index l) (net_addr L net) (net_prefix_len L net) k)
                  | None \<Rightarrow> k)))"

definition PROC_IP_FORWARD_PATH :: string where
  "PROC_IP_FORWARD_PATH = ''/proc/sys/net/ipv4/ip_forward''"
definition PROC_RP_FILTER_ALL_PATH :: string where
  "PROC_RP_FILTER_ALL_PATH = ''/proc/sys/net/ipv4/conf/all/rp_filter''"
definition PROC_RP_FILTER_DEFAULT_PATH :: string where
  "PROC_RP_FILTER_DEFAULT_PATH = ''/proc/sys/net/ipv4/conf/default/rp_filter''"
definition STRICT_RP_FILTER_VALUE :: string where "STRICT_RP_FILTER_VALUE = ''1''"

definition enable_strict_reverse_path_filtering :: "'k netlink \<Rightarrow> ('k, router_error, unit) nl" where
  "enable_strict_reverse_path_filtering N k =
     (Inr (), snd (nl_write_file N PROC_RP_FILTER_DEFAULT_PATH STRICT_RP_FILTER_VALUE
                (snd (nl_write_file N PROC_RP_FILTER_ALL_PATH STRICT_RP_FILTER_VALUE k))))"

definition configure_network_init :: "'n net_lib \<Rightarrow> 'k netlink \<Rightarrow> ('k, router_error, unit) nl" where
  "configure_network_init L N =
     try_nl (check_nl Io (nl_write_file N PROC_IP_FORWARD_PATH ''1'')) (\<lambda>_.
     try_nl (enable_strict_reverse_path_filtering N) (\<lambda>_.
     try_nl (new_connection N) (\<lambda>_ k. (Inr (), snd (configure_interface L N ''lo'' None k)))))"

section \<open>What the kernel promises\<close>

definition on_link :: "u32 \<Rightarrow> address_msg \<Rightarrow> bool" where
  "on_link index a \<longleftrightarrow> am_index a = index \<and> am_inet a"

text \<open>
  \<open>addrs k\<close> are the addresses and \<open>links k\<close> the interface numbers of kernel state \<open>k\<close>. Every request may be
  refused, and then changes nothing of these. An answered query tells the truth; a dump may
  break off. A deletion that is granted removes the address, and may take other addresses of the same
  interface and family with it, as Linux removes the secondary addresses of a primary one. An
  addition that is granted lists one more address, and one that reports an existing address is right.
  No request changes the number of an interface, nor do requests on links and routes change addresses.
\<close>

definition dumps :: "'k netlink \<Rightarrow> ('k \<Rightarrow> address_msg list) \<Rightarrow> 'k \<Rightarrow> bool" where
  "dumps N addrs k \<longleftrightarrow> nl_addresses N k = map Inr (addrs k)
     \<or> (\<exists>as e. nl_addresses N k = map Inr as @ [Inl e] \<and> set as \<subseteq> set (addrs k))"

definition deletes_address :: "'k netlink \<Rightarrow> ('k \<Rightarrow> address_msg list) \<Rightarrow> 'k \<Rightarrow> address_msg \<Rightarrow> bool" where
  "deletes_address N addrs k a \<longleftrightarrow>
     (if fst (nl_del N a k)
      then \<exists>keep. addrs (snd (nl_del N a k)) = filter keep (addrs k) \<and> \<not> keep a
             \<and> (\<forall>b. \<not> keep b \<longrightarrow> b = a \<or> am_index b = am_index a \<and> am_inet b = am_inet a)
      else addrs (snd (nl_del N a k)) = addrs k)"

definition adds_address :: "'k netlink \<Rightarrow> ('k \<Rightarrow> address_msg list) \<Rightarrow> 'k \<Rightarrow> u32 \<Rightarrow> ip \<Rightarrow> u8 \<Rightarrow> bool" where
  "adds_address N addrs k index i p \<longleftrightarrow>
     (case nl_add N index i p k of
        (AddOk, k') \<Rightarrow> \<exists>xs ys a. addrs k = xs @ ys \<and> addrs k' = xs @ a # ys \<and> on_link index a \<and> is_expected i p a
      | (AddExists, k') \<Rightarrow> addrs k' = addrs k \<and> (\<exists>a \<in> set (addrs k). on_link index a \<and> is_expected i p a)
      | (AddFailed, k') \<Rightarrow> addrs k' = addrs k)"

definition kernel_laws :: "'k netlink \<Rightarrow> ('k \<Rightarrow> address_msg list) \<Rightarrow> ('k \<Rightarrow> string \<Rightarrow> u32 option) \<Rightarrow> bool" where
  "kernel_laws N addrs links \<longleftrightarrow>
     (\<forall>k. dumps N addrs k)
     \<and> (\<forall>k name r. nl_find_link N name k = Inr r \<longrightarrow> links k name = map_option ln_index r)
     \<and> (\<forall>k a. deletes_address N addrs k a \<and> links (snd (nl_del N a k)) = links k)
     \<and> (\<forall>k index i p. adds_address N addrs k index i p \<and> links (snd (nl_add N index i p k)) = links k)
     \<and> (\<forall>k index. addrs (snd (nl_set_up N index k)) = addrs k \<and> links (snd (nl_set_up N index k)) = links k)
     \<and> (\<forall>k gw index. addrs (snd (nl_default_route N gw index k)) = addrs k
          \<and> links (snd (nl_default_route N gw index k)) = links k)"

text \<open>Two conditions that do not always hold: deletions are granted, and they take nothing else with them.\<close>

definition grants_deletions :: "'k netlink \<Rightarrow> ('k \<Rightarrow> address_msg list) \<Rightarrow> bool" where
  "grants_deletions N addrs \<longleftrightarrow> (\<forall>k. \<forall>a \<in> set (addrs k). fst (nl_del N a k))"

definition keeps_secondaries :: "'k netlink \<Rightarrow> ('k \<Rightarrow> address_msg list) \<Rightarrow> bool" where
  "keeps_secondaries N addrs \<longleftrightarrow> (\<forall>k a. set (addrs k) - {a} \<subseteq> set (addrs (snd (nl_del N a k))))"

definition expected_on :: "('k \<Rightarrow> address_msg list) \<Rightarrow> u32 \<Rightarrow> ip \<Rightarrow> u8 \<Rightarrow> 'k \<Rightarrow> bool" where
  "expected_on addrs index i p k \<longleftrightarrow> (\<exists>a \<in> set (addrs k). on_link index a \<and> is_expected i p a)"

lemma kernel_facts:
  assumes "kernel_laws N addrs links"
  shows "dumps N addrs k"
    "nl_find_link N name k = Inr r \<Longrightarrow> links k name = map_option ln_index r"
    "deletes_address N addrs k a" "links (snd (nl_del N a k)) = links k"
    "adds_address N addrs k index i p" "links (snd (nl_add N index i p k)) = links k"
    "addrs (snd (nl_set_up N index k)) = addrs k" "links (snd (nl_set_up N index k)) = links k"
    "addrs (snd (nl_default_route N gw index k)) = addrs k" "links (snd (nl_default_route N gw index k)) = links k"
  using assms by (simp_all add: kernel_laws_def)

text \<open>A deletion on an interface leaves the others alone, removes nothing else than addresses there, and adds nothing.\<close>

lemma deletion:
  assumes "kernel_laws N addrs links" "on_link index a"
  shows "filter (\<lambda>b. \<not> on_link index b) (addrs (snd (nl_del N a k))) = filter (\<lambda>b. \<not> on_link index b) (addrs k)"
    "set (addrs (snd (nl_del N a k))) \<subseteq> set (addrs k)"
    "grants_deletions N addrs \<Longrightarrow> a \<notin> set (addrs (snd (nl_del N a k)))"
proof -
  note d = kernel_facts(3)[OF assms(1), of k a, unfolded deletes_address_def]
  show "filter (\<lambda>b. \<not> on_link index b) (addrs (snd (nl_del N a k))) = filter (\<lambda>b. \<not> on_link index b) (addrs k)"
  proof (cases "fst (nl_del N a k)")
    case True
    then obtain keep where keep: "addrs (snd (nl_del N a k)) = filter keep (addrs k)"
        "\<forall>b. \<not> keep b \<longrightarrow> b = a \<or> am_index b = am_index a \<and> am_inet b = am_inet a"
      using d by auto
    have "filter (\<lambda>b. \<not> on_link index b) (filter keep (addrs k)) = filter (\<lambda>b. keep b \<and> \<not> on_link index b) (addrs k)"
      by (simp add: conj_commute)
    also have "\<dots> = filter (\<lambda>b. \<not> on_link index b) (addrs k)"
      by (rule filter_cong) (use keep(2) assms(2) in \<open>auto simp: on_link_def\<close>)
    finally show ?thesis by (simp add: keep(1))
  qed (use d in simp)
  show "set (addrs (snd (nl_del N a k))) \<subseteq> set (addrs k)" using d by (auto split: if_splits)
  show "a \<notin> set (addrs (snd (nl_del N a k)))" if "grants_deletions N addrs"
    using d that by (cases "a \<in> set (addrs k)") (auto simp: grants_deletions_def split: if_splits)
qed

text \<open>What a series of deletions on one interface does to the addresses.\<close>

definition pruned :: "('k \<Rightarrow> address_msg list) \<Rightarrow> ('k \<Rightarrow> string \<Rightarrow> u32 option) \<Rightarrow> u32 \<Rightarrow> 'k \<Rightarrow> 'k \<Rightarrow> bool" where
  "pruned addrs links index k k' \<longleftrightarrow>
     filter (\<lambda>b. \<not> on_link index b) (addrs k') = filter (\<lambda>b. \<not> on_link index b) (addrs k)
     \<and> set (addrs k') \<subseteq> set (addrs k) \<and> links k' = links k"

lemma pruned_refl [simp]: "pruned addrs links index k k"
  by (simp add: pruned_def)

lemma pruned_trans: "pruned addrs links index k k1 \<Longrightarrow> pruned addrs links index k1 k2 \<Longrightarrow> pruned addrs links index k k2"
  by (auto simp: pruned_def)

lemma pruned_del:
  "kernel_laws N addrs links \<Longrightarrow> on_link index a \<Longrightarrow> pruned addrs links index k (snd (nl_del N a k))"
  using deletion(1,2)[of N addrs links index a k] kernel_facts(4)[of N addrs links a k] by (simp add: pruned_def)

lemma flush_loop_ok:
  assumes "kernel_laws N addrs links"
  shows "flush_loop N index ms k = (r, k') \<Longrightarrow>
    pruned addrs links index k k'
    \<and> (grants_deletions N addrs \<longrightarrow> r = Inr () \<longrightarrow> (\<forall>a. Inr a \<in> set ms \<longrightarrow> on_link index a \<longrightarrow> a \<notin> set (addrs k')))
    \<and> (\<forall>e. r = Inl e \<longrightarrow> Inl e \<in> set ms)"
proof (induction ms arbitrary: k)
  case (Cons m ms)
  show ?case
  proof (cases m)
    case (Inr a)
    show ?thesis
    proof (cases "on_link index a")
      case True
      let ?k = "snd (nl_del N a k)"
      from True Cons.prems Inr have l: "flush_loop N index ms ?k = (r, k')" by (simp add: on_link_def)
      have "a \<notin> set (addrs k')" if "grants_deletions N addrs"
        using Cons.IH[OF l] deletion(3)[OF assms True that, of k] by (auto simp: pruned_def)
      with Cons.IH[OF l] pruned_trans[OF pruned_del[OF assms True]] Inr show ?thesis by auto
    next
      case False
      with Cons Inr show ?thesis by (auto simp: on_link_def split: if_splits)
    qed
  qed (use Cons.prems in auto)
qed auto

lemma flush_ok:
  assumes "kernel_laws N addrs links" "flush_ipv4_addresses N index k = (r, k')"
  shows "pruned addrs links index k k'"
    and "grants_deletions N addrs \<Longrightarrow> r = Inr () \<Longrightarrow> a \<in> set (addrs k') \<Longrightarrow> \<not> on_link index a"
proof -
  consider "k' = k" "r = Inl Io" | "flush_loop N index (nl_addresses N k) k = (r, k')"
    using assms(2) by (auto simp: flush_ipv4_addresses_def try_nl_def new_connection_def split: if_splits)
  note cs = this
  show "pruned addrs links index k k'" by (rule cs) (use flush_loop_ok[OF assms(1)] in auto)
  show "\<not> on_link index a" if g: "grants_deletions N addrs" "r = Inr ()" "a \<in> set (addrs k')"
  proof (rule cs)
    assume l: "flush_loop N index (nl_addresses N k) k = (r, k')"
    have full: "nl_addresses N k = map Inr (addrs k)"
    proof (rule ccontr)
      assume "nl_addresses N k \<noteq> map Inr (addrs k)"
      then obtain as e where "nl_addresses N k = map Inr as @ [Inl e]" using kernel_facts(1)[OF assms(1), of k] by (auto simp: dumps_def)
      moreover have "fst (flush_loop N index (map Inr xs @ [Inl e]) k) = Inl e" for xs k by (induction xs arbitrary: k) auto
      ultimately show False using l g(2) by (metis Inl_Inr_False fst_conv)
    qed
    from flush_loop_ok[OF assms(1) l] g full show ?thesis by (auto simp: pruned_def)
  qed (use g in simp)
qed

lemma stale_loop_ok:
  assumes "kernel_laws N addrs links"
  shows "stale_loop N index i p found ms k = (r, k') \<Longrightarrow>
    pruned addrs links index k k'
    \<and> (\<forall>b. r = Inr b \<longrightarrow> b = (found \<or> (\<exists>a. Inr a \<in> set ms \<and> on_link index a \<and> is_expected i p a))
        \<and> (grants_deletions N addrs \<longrightarrow>
             (\<forall>a. Inr a \<in> set ms \<longrightarrow> on_link index a \<longrightarrow> \<not> is_expected i p a \<longrightarrow> a \<notin> set (addrs k')))
        \<and> range Inr \<supseteq> set ms)
    \<and> (keeps_secondaries N addrs \<longrightarrow> (\<forall>a \<in> set (addrs k). is_expected i p a \<longrightarrow> a \<in> set (addrs k')))
    \<and> (\<forall>e. r = Inl e \<longrightarrow> Inl e \<in> set ms)"
proof (induction ms arbitrary: k found)
  case (Cons m ms)
  show ?case
  proof (cases m)
    case (Inr a)
    consider (stale) "on_link index a" "\<not> is_expected i p a" | (good) "on_link index a" "is_expected i p a"
      | (other) "\<not> on_link index a" by blast
    then show ?thesis
    proof cases
      case stale
      let ?k = "snd (nl_del N a k)"
      from stale Cons.prems Inr have l: "stale_loop N index i p found ms ?k = (r, k')" by (simp add: on_link_def)
      note ih = Cons.IH[OF l]
      have "a \<notin> set (addrs k')" if "grants_deletions N addrs"
        using ih deletion(3)[OF assms stale(1) that, of k] by (auto simp: pruned_def)
      moreover have "b \<in> set (addrs k')" if "keeps_secondaries N addrs" "b \<in> set (addrs k)" "is_expected i p b" for b
      proof -
        from that(3) stale(2) have "b \<noteq> a" by auto
        with that(1,2) have "b \<in> set (addrs ?k)" unfolding keeps_secondaries_def by blast
        with ih that show ?thesis by blast
      qed
      ultimately show ?thesis using ih pruned_trans[OF pruned_del[OF assms stale(1)]] Inr stale by auto
    next
      case good
      with Cons.prems Inr have l: "stale_loop N index i p True ms k = (r, k')" by (simp add: on_link_def)
      from Cons.IH[OF l] good Inr show ?thesis by auto
    next
      case other
      with Cons.prems Inr have l: "stale_loop N index i p found ms k = (r, k')" by (simp add: on_link_def split: if_splits)
      from Cons.IH[OF l] other Inr show ?thesis by auto
    qed
  qed (use Cons.prems in auto)
qed auto

lemma add_missing_ok:
  assumes "kernel_laws N addrs links" "add_missing N index i p k = (r, k')"
  shows "filter (\<lambda>b. \<not> on_link index b) (addrs k') = filter (\<lambda>b. \<not> on_link index b) (addrs k)"
    "links k' = links k" "a \<in> set (addrs k') \<Longrightarrow> on_link index a \<Longrightarrow> a \<in> set (addrs k) \<or> is_expected i p a"
    "r = Inr () \<Longrightarrow> expected_on addrs index i p k'" "r = Inr () \<or> r = Inl Netlink"
    "r = Inl Netlink \<longleftrightarrow> fst (nl_add N index i p k) = AddFailed"
proof -
  obtain x k1 where n: "nl_add N index i p k = (x, k1)" by fastforce
  then have k': "k' = k1" "r = (if x = AddFailed then Inl Netlink else Inr ())"
    using assms(2) by (auto simp: add_missing_def split: add_result.splits)
  show "links k' = links k" using kernel_facts(6)[OF assms(1), of index i p k] n k' by simp
  note a = kernel_facts(5)[OF assms(1), of k index i p, unfolded adds_address_def n prod.case]
  show "filter (\<lambda>b. \<not> on_link index b) (addrs k') = filter (\<lambda>b. \<not> on_link index b) (addrs k)"
    using a k'(1) by (auto split: add_result.splits)
  show "a \<in> set (addrs k') \<Longrightarrow> on_link index a \<Longrightarrow> a \<in> set (addrs k) \<or> is_expected i p a" for a
    using a k'(1) by (auto split: add_result.splits)
  show "r = Inr () \<Longrightarrow> expected_on addrs index i p k'"
    using a k' by (auto simp: expected_on_def split: add_result.splits if_splits)
  show "r = Inr () \<or> r = Inl Netlink" "r = Inl Netlink \<longleftrightarrow> fst (nl_add N index i p k) = AddFailed" using k' n by auto
qed

text \<open>The two loops of \<open>configure_interface_ip\<close> on an existing interface \<open>x\<close>.\<close>

lemma configured:
  assumes "kernel_laws N addrs links"
    "try_nl (\<lambda>k. stale_loop N x i p False (nl_addresses N k) k) (\<lambda>already.
       if already then (\<lambda>k. (Inr True, k)) else try_nl (add_missing N x i p) (\<lambda>_ k. (Inr True, k))) k = (r, k')"
  shows "filter (\<lambda>a. \<not> on_link x a) (addrs k') = filter (\<lambda>a. \<not> on_link x a) (addrs k)"
    "\<forall>a \<in> set (addrs k'). on_link x a \<longrightarrow> a \<in> set (addrs k) \<or> is_expected i p a"
    "r = Inr True \<or> (\<exists>e. r = Inl e \<and> (Inl e \<in> set (nl_addresses N k) \<or> (\<exists>k1. fst (nl_add N x i p k1) = AddFailed)))"
    "r = Inr True \<and> grants_deletions N addrs \<longrightarrow> (\<forall>a \<in> set (addrs k'). on_link x a \<longrightarrow> is_expected i p a)"
    "r = Inr True \<and> (expected_on addrs x i p k \<longrightarrow> keeps_secondaries N addrs) \<longrightarrow> expected_on addrs x i p k'"
proof -
  obtain r1 k1 where s: "stale_loop N x i p False (nl_addresses N k) k = (r1, k1)" by fastforce
  note k1 = stale_loop_ok[OF assms(1) s]
  have all: "nl_addresses N k = map Inr (addrs k)" if "r1 = Inr b" for b
    using k1 that kernel_facts(1)[OF assms(1), of k] by (auto simp: dumps_def)
  have gone: "is_expected i p b" if "r1 = Inr c" "grants_deletions N addrs" "b \<in> set (addrs k1)" "on_link x b" for b c
    using k1 all[OF that(1)] that by (auto simp: pruned_def image_iff)
  consider (err) e where "r1 = Inl e" "r = Inl e" "k' = k1"
    | (old) "r1 = Inr True" "r = Inr True" "k' = k1"
    | (fresh) "r1 = Inr False" "add_missing N x i p k1 = (Inr (), k')" "r = Inr True"
    | (refused) e where "r1 = Inr False" "add_missing N x i p k1 = (Inl e, k')" "r = Inl e"
    using assms(2) s by (auto simp: try_nl_def split: sum.splits prod.splits if_splits)
  note cs = this
  note new = add_missing_ok[OF assms(1)]
  show "filter (\<lambda>a. \<not> on_link x a) (addrs k') = filter (\<lambda>a. \<not> on_link x a) (addrs k)"
    by (rule cs) (use k1 new(1)[of x i p k1 _ k'] in \<open>auto simp: pruned_def\<close>)
  show "\<forall>a \<in> set (addrs k'). on_link x a \<longrightarrow> a \<in> set (addrs k) \<or> is_expected i p a"
    by (rule cs) (use k1 new(3)[of x i p k1 _ k'] in \<open>auto simp: pruned_def\<close>)
  show "r = Inr True \<or> (\<exists>e. r = Inl e \<and> (Inl e \<in> set (nl_addresses N k) \<or> (\<exists>k1. fst (nl_add N x i p k1) = AddFailed)))"
    by (rule cs) (use k1 new(5,6)[of x i p k1 _ k'] in auto)
  show "r = Inr True \<and> grants_deletions N addrs \<longrightarrow> (\<forall>a \<in> set (addrs k'). on_link x a \<longrightarrow> is_expected i p a)"
    by (rule cs) (use gone new(3)[of x i p k1 _ k'] in auto)
  show "r = Inr True \<and> (expected_on addrs x i p k \<longrightarrow> keeps_secondaries N addrs) \<longrightarrow> expected_on addrs x i p k'"
    by (rule cs) (use k1 all new(4)[of x i p k1 _ k'] in \<open>auto simp: expected_on_def\<close>)
qed


section \<open>A concrete kernel\<close>

text \<open>
  Interfaces by name and a list of addresses that are never refused. An address is secondary when an earlier one of
  the list has its interface, prefix and network; deleting a primary address deletes its secondaries.
\<close>

type_synonym plain_kernel = "(string \<times> link) list \<times> address_msg list \<times> (ip \<times> u32) option"

definition local_of :: "address_msg \<Rightarrow> ip" where
  "local_of a = (case am_attrs a of AttrLocal i # _ \<Rightarrow> i | _ \<Rightarrow> 0)"

definition same_subnet :: "address_msg \<Rightarrow> address_msg \<Rightarrow> bool" where
  "same_subnet a b \<longleftrightarrow> am_index a = am_index b \<and> am_inet a = am_inet b \<and> am_prefix a = am_prefix b
     \<and> drop_bit (32 - unat (am_prefix a)) (local_of a) = drop_bit (32 - unat (am_prefix a)) (local_of b)"

definition remove_address :: "address_msg \<Rightarrow> address_msg list \<Rightarrow> address_msg list" where
  "remove_address a as =
     (case filter (same_subnet a) as of
        b # _ \<Rightarrow> if b = a then filter (\<lambda>c. \<not> same_subnet a c) as else removeAll a as
      | [] \<Rightarrow> as)"

definition plain_netlink :: "plain_kernel netlink" where
  "plain_netlink = \<lparr>
     nl_connect = (\<lambda>k. True),
     nl_find_link = (\<lambda>name (links, as, rt). Inr (map_of links name)),
     nl_set_up = (\<lambda>x (links, as, rt).
       (True, map (\<lambda>(n, l). (n, if ln_index l = x then l\<lparr> ln_up := True \<rparr> else l)) links, as, rt)),
     nl_addresses = (\<lambda>(links, as, rt). map Inr as),
     nl_add = (\<lambda>x i p (links, as, rt).
       if list_ex (\<lambda>a. on_link x a \<and> is_expected i p a) as then (AddExists, links, as, rt)
       else (AddOk, links, as @ [\<lparr> am_index = x, am_inet = True, am_prefix = p, am_attrs = [AttrLocal i] \<rparr>], rt)),
     nl_del = (\<lambda>a (links, as, rt). if a \<in> set as then (True, links, remove_address a as, rt) else (False, links, as, rt)),
     nl_default_route = (\<lambda>gw x (links, as, rt). (True, links, as, Some (gw, x))),
     nl_write_file = (\<lambda>path content k. (True, k)) \<rparr>"

definition plain_addrs :: "plain_kernel \<Rightarrow> address_msg list" where
  "plain_addrs k = fst (snd k)"

definition plain_indices :: "plain_kernel \<Rightarrow> string \<Rightarrow> u32 option" where
  "plain_indices k name = map_option ln_index (map_of (fst k) name)"

lemma same_subnet_refl [simp]: "same_subnet a a"
  by (simp add: same_subnet_def)

lemma remove_address_filter:
  assumes "a \<in> set as"
  shows "\<exists>keep. remove_address a as = filter keep as \<and> \<not> keep a
    \<and> (\<forall>b. \<not> keep b \<longrightarrow> b = a \<or> am_index b = am_index a \<and> am_inet b = am_inet a)"
proof -
  obtain b bs where f: "filter (same_subnet a) as = b # bs"
    using assms by (cases "filter (same_subnet a) as") (auto simp: filter_empty_conv)
  show ?thesis
  proof (cases "b = a")
    case True
    then show ?thesis using f by (intro exI[of _ "\<lambda>c. \<not> same_subnet a c"]) (auto simp: remove_address_def same_subnet_def)
  next
    case False
    then show ?thesis using f
      by (intro exI[of _ "\<lambda>c. c \<noteq> a"]) (auto simp: remove_address_def removeAll_filter_not_eq intro: filter_cong)
  qed
qed

lemma appended: "P a \<Longrightarrow> \<exists>xs ys. b = xs @ ys \<and> (\<exists>a'. b @ [a] = xs @ a' # ys \<and> P a')"
  by (rule exI[of _ b], rule exI[of _ "[]"]) simp

lemma plain_kernel_laws: "kernel_laws plain_netlink plain_addrs plain_indices"
proof -
  have "deletes_address plain_netlink plain_addrs k a \<and> plain_indices (snd (nl_del plain_netlink a k)) = plain_indices k" for k a
    using remove_address_filter[of a "plain_addrs k"]
    by (cases k) (auto simp: deletes_address_def plain_netlink_def plain_addrs_def plain_indices_def fun_eq_iff)
  moreover have "adds_address plain_netlink plain_addrs k index i p \<and> plain_indices (snd (nl_add plain_netlink index i p k)) = plain_indices k"
    for k index i p
    by (cases k) (auto simp: adds_address_def plain_netlink_def plain_addrs_def plain_indices_def list_ex_iff on_link_def
        is_expected_def fun_eq_iff intro!: appended)
  moreover have "plain_indices (snd (nl_set_up plain_netlink index k)) = plain_indices k" for index k
    by (cases k) (auto simp: plain_netlink_def plain_indices_def map_of_map fun_eq_iff option.map_comp comp_def intro!: option.map_cong)
  ultimately show ?thesis
    by (auto simp: kernel_laws_def dumps_def plain_netlink_def plain_addrs_def plain_indices_def fun_eq_iff split: prod.splits)
qed

lemma plain_grants: "grants_deletions plain_netlink plain_addrs"
  by (auto simp: grants_deletions_def plain_netlink_def plain_addrs_def)

definition lan_address :: "ip \<Rightarrow> u8 \<Rightarrow> address_msg" where
  "lan_address i p = \<lparr> am_index = 2, am_inet = True, am_prefix = p, am_attrs = [AttrLocal i] \<rparr>"

definition demo_kernel :: plain_kernel where
  "demo_kernel = ([(''lan'', \<lparr> ln_index = 2, ln_up = True \<rparr>)], [lan_address 9 8], None)"

definition lan_cidr :: string where
  "lan_cidr = show_ip 3232235777 @ CHR ''/'' # show_nat (unat (29 :: u8))"

lemma lan_views:
  "net_parse cidr_lib lan_cidr = Some (3232235777, 29)" "net_addr cidr_lib (a, b) = a" "net_prefix_len cidr_lib (a, b) = b"
  unfolding lan_cidr_def cidr.parse_text by (simp_all add: cidr_lib_def)

lemma lan_link: "nl_find_link plain_netlink ''lan'' demo_kernel = Inr (Some \<lparr> ln_index = 2, ln_up = True \<rparr>)"
  by (simp add: plain_netlink_def demo_kernel_def)


text \<open>
  The exception is real: with the requested address as a secondary of a stale one, the loop sees it, deletes
  the stale address and with it the requested one, and reports success for an interface without any address.
\<close>

lemma secondary_address_lost:
  "\<exists>k'. configure_interface_ip cidr_lib plain_netlink ''lan'' lan_cidr
       (fst demo_kernel, [lan_address 3232235778 29, lan_address 3232235777 29], None) = (Inr True, k') \<and> plain_addrs k' = []"
proof -
  have "same_subnet (lan_address 3232235778 29) (lan_address 3232235777 29)"
    by (simp add: same_subnet_def lan_address_def local_of_def drop_bit_eq_div)
  then show ?thesis
    by (simp add: configure_interface_ip_def try_nl_def new_connection_def find_link_def plain_netlink_def demo_kernel_def
        lan_views Let_def is_expected_def remove_address_def plain_addrs_def) (simp add: lan_address_def)
qed

end
