(* ===== verification/Dhcp_Client_Parent.thy ===== *)
theory Dhcp_Client_Parent
  imports Dhcp_Client Network
begin

text \<open>
  The privileged side of the DHCP client, \<open>services/dhcp_client/manager.rs\<close>, with the message
  builders of \<open>services/dhcp_client/worker.rs\<close> that it calls: it puts the worker's requests on
  the wire, publishes the lease to the other services and configures the WAN interface. The
  lease channel has receivers all the time (the DNS forwarder and the LAN manager hold one), so
  publishing succeeds. Error texts are not modelled.
\<close>

section \<open>Messages to the server\<close>

definition build_discover_message :: "dhcp_lib \<Rightarrow> mac \<Rightarrow> u32 \<Rightarrow> dhcp_message" where
  "build_discover_message D mac xid =
     insert_option (OptParameterRequestList [CodeSubnetMask, CodeRouter, CodeDomainNameServer])
       (insert_option (OptMessageType MtDiscover)
         (set_chaddr (octets mac)
           ((message_default D)\<lparr> msg_opcode := BootRequest, msg_xid := xid, msg_broadcast := True \<rparr>)))"

definition build_request_message :: "dhcp_lib \<Rightarrow> mac \<Rightarrow> u32 \<Rightarrow> ip \<Rightarrow> ip option \<Rightarrow> ip \<Rightarrow> dhcp_message" where
  "build_request_message D mac xid requested server ciaddr =
     (let m0 = set_chaddr (octets mac)
                 ((message_default D)\<lparr> msg_opcode := BootRequest, msg_xid := xid, msg_ciaddr := ciaddr \<rparr>);
          m1 = (if is_unspecified ciaddr
                then let m = insert_option (OptRequestedIpAddress requested) (m0\<lparr> msg_broadcast := True \<rparr>)
                     in case server of Some s \<Rightarrow> insert_option (OptServerIdentifier s) m | None \<Rightarrow> m
                else m0)
      in insert_option (OptMessageType MtRequest) m1)"

datatype wan_effect = WanFrame bytes | WanHeartbeat

definition wan_frame :: "router_error + bytes \<Rightarrow> wan_effect list" where
  "wan_frame r = (case r of Inr f \<Rightarrow> [WanFrame f] | Inl e \<Rightarrow> [])"

definition handle_send_discover :: "'n net_lib \<Rightarrow> pnet_lib \<Rightarrow> dhcp_lib \<Rightarrow> mac \<Rightarrow> u32 \<Rightarrow> wan_effect list" where
  "handle_send_discover L P D mac xid =
     (case message_encode D (build_discover_message D mac xid) of
        None \<Rightarrow> []
      | Some payload \<Rightarrow>
          wan_frame (build_raw_packet P mac (mac_broadcast L) 0 (- 1) CLIENT_PORT SERVER_PORT payload))"

definition handle_send_request ::
  "'n net_lib \<Rightarrow> pnet_lib \<Rightarrow> dhcp_lib \<Rightarrow> mac \<Rightarrow> u32 \<Rightarrow> ip \<Rightarrow> ip option \<Rightarrow> ip \<Rightarrow> wan_effect list" where
  "handle_send_request L P D mac xid requested server ciaddr =
     (case message_encode D (build_request_message D mac xid requested server ciaddr) of
        None \<Rightarrow> []
      | Some payload \<Rightarrow>
          (case (if is_unspecified ciaddr then (0, - 1)
                 else (ciaddr, case server of Some s \<Rightarrow> s | None \<Rightarrow> - 1)) of
             (sip, dip) \<Rightarrow>
               wan_frame (build_raw_packet P mac (mac_broadcast L) sip dip CLIENT_PORT SERVER_PORT payload)))"

section \<open>The WAN interface\<close>

definition is_valid_gateway :: "'n net_lib \<Rightarrow> ip \<Rightarrow> ip \<Rightarrow> u8 \<Rightarrow> bool" where
  "is_valid_gateway L gw i prefix_len \<longleftrightarrow> \<not> is_unspecified gw \<and> \<not> is_broadcast gw
     \<and> (case net_new L i prefix_len of Some net \<Rightarrow> net_contains L net gw | None \<Rightarrow> False)"

definition map_err :: "('e \<Rightarrow> 'f) \<Rightarrow> ('k, 'e, 'a) nl \<Rightarrow> ('k, 'f, 'a) nl" where
  "map_err f m k = (case m k of (Inl e, k') \<Rightarrow> (Inl (f e), k') | (Inr x, k') \<Rightarrow> (Inr x, k'))"

definition deconfigure_wan :: "'k netlink \<Rightarrow> string \<Rightarrow> ip \<Rightarrow> ip \<Rightarrow> ('k, dhcp_error, unit) nl" where
  "deconfigure_wan N iface i smask k =
     (case mask_to_prefix_len smask of
        Inl e \<Rightarrow> (Inl (DeProtocol []), k)
      | Inr p \<Rightarrow>
          (case get_interface_index N iface k of
             None \<Rightarrow> (Inl (DeInterfaceNotFound iface), k)
           | Some index \<Rightarrow> map_err (\<lambda>_. DeProtocol []) (flush_ipv4_addresses N index) k))"

definition configure_wan ::
  "'n net_lib \<Rightarrow> 'k netlink \<Rightarrow> string \<Rightarrow> ip \<Rightarrow> ip \<Rightarrow> ip option \<Rightarrow> ('k, dhcp_error, unit) nl" where
  "configure_wan L N iface i smask gateway k0 =
     (case mask_to_prefix_len smask of
        Inl e \<Rightarrow> (Inl (DeProtocol []), k0)
      | Inr p \<Rightarrow>
          (case get_interface_index N iface k0 of
             None \<Rightarrow> (Inl (DeInterfaceNotFound iface), k0)
           | Some index \<Rightarrow>
               try_nl (map_err (\<lambda>_. DeProtocol []) (flush_ipv4_addresses N index)) (\<lambda>_.
               try_nl (map_err (\<lambda>_. DeIo) (new_connection N)) (\<lambda>_.
               try_nl (check_nl DeRtNetlink (nl_set_up N index)) (\<lambda>_.
               try_nl (check_nl DeRtNetlink (\<lambda>k. case nl_add N index i p k of (r, k') \<Rightarrow> (r = AddOk, k'))) (\<lambda>_ k.
               (Inr (), case gateway of
                          Some gw \<Rightarrow> if is_valid_gateway L gw i p then snd (nl_default_route N gw index k) else k
                        | None \<Rightarrow> k))))) k0))"

section \<open>The lease\<close>

definition apply_parent_lease ::
  "'n net_lib \<Rightarrow> 'k netlink \<Rightarrow> string \<Rightarrow> ip \<Rightarrow> ip \<Rightarrow> ip \<Rightarrow> ip list \<Rightarrow> wan_lease \<times> 'k \<Rightarrow> wan_lease \<times> 'k" where
  "apply_parent_lease L N iface i smask gateway dns = (\<lambda>(lease, k).
     let new_lease = \<lparr> wl_ip = Some i, wl_mask = Some smask, wl_gateway = Some gateway, wl_dns_servers = dns \<rparr> in
     if lease \<noteq> new_lease then (new_lease, snd (configure_wan L N iface i smask (Some gateway) k))
     else (lease, k))"

definition clear_parent_lease :: "'k netlink \<Rightarrow> string \<Rightarrow> wan_lease \<times> 'k \<Rightarrow> wan_lease \<times> 'k" where
  "clear_parent_lease N iface = (\<lambda>(lease, k).
     (default_wan_lease,
      case (wl_ip lease, wl_mask lease) of
        (Some i, Some m) \<Rightarrow> snd (deconfigure_wan N iface i m k)
      | _ \<Rightarrow> k))"

record 'n wan_setup =
  ws_net :: "'n net_lib"
  ws_pnet :: pnet_lib
  ws_dhcp :: dhcp_lib
  ws_interface :: string
  ws_mac :: mac
  ws_monitored :: bool

definition client_heartbeat :: "'n wan_setup \<Rightarrow> wan_effect list" where
  "client_heartbeat W = (if ws_monitored W then [WanHeartbeat] else [])"

fun handle_client_ipc_msg ::
  "'n wan_setup \<Rightarrow> 'k netlink \<Rightarrow> dhcp_client_to_parent \<Rightarrow> wan_lease \<times> 'k \<Rightarrow> wan_effect list \<times> wan_lease \<times> 'k" where
  "handle_client_ipc_msg W N (SendDiscover xid) s =
     (client_heartbeat W @ handle_send_discover (ws_net W) (ws_pnet W) (ws_dhcp W) (ws_mac W) xid, s)"
| "handle_client_ipc_msg W N (SendRequest xid requested server ciaddr) s =
     (client_heartbeat W @ handle_send_request (ws_net W) (ws_pnet W) (ws_dhcp W) (ws_mac W) xid requested server ciaddr, s)"
| "handle_client_ipc_msg W N (ApplyWanLease i prefix_len gateway dns) s =
     (client_heartbeat W,
      apply_parent_lease (ws_net W) N (ws_interface W) i (prefix_len_to_mask prefix_len) gateway dns s)"
| "handle_client_ipc_msg W N ClientHeartbeat s = (client_heartbeat W, s)"
| "handle_client_ipc_msg W N ClearWanLease s = (client_heartbeat W, clear_parent_lease N (ws_interface W) s)"

definition handle_all :: "'n wan_setup \<Rightarrow> 'k netlink \<Rightarrow> dhcp_client_to_parent list \<Rightarrow> wan_lease \<times> 'k \<Rightarrow> wan_lease \<times> 'k" where
  "handle_all W N ms s = fold (\<lambda>m s. snd (handle_client_ipc_msg W N m s)) ms s"

text \<open>One turn of \<open>run_parent_dhcp_monitor\<close>: what goes to the worker and whether the loop goes on.\<close>

datatype client_monitor_event =
    SocketFrame bytes bool
  | SocketReadError
  | ClientMsg dhcp_client_to_parent
  | ClientChannelClosed
  | ClientChannelError

fun client_monitor_step ::
  "'n wan_setup \<Rightarrow> 'k netlink \<Rightarrow> client_monitor_event \<Rightarrow> wan_lease \<times> 'k
     \<Rightarrow> dhcp_client_parent_to_worker list \<times> wan_effect list \<times> (wan_lease \<times> 'k) \<times> bool" where
  "client_monitor_step W N (SocketFrame f sent) s =
     (if sent then ([ClientRawPacket (take 2048 f)], [], s, True) else ([], [], s, False))"
| "client_monitor_step W N SocketReadError s = ([], [], s, True)"
| "client_monitor_step W N (ClientMsg m) s = (case handle_client_ipc_msg W N m s of (e, s') \<Rightarrow> ([], e, s', True))"
| "client_monitor_step W N ClientChannelClosed s = ([], [], s, False)"
| "client_monitor_step W N ClientChannelError s = ([], [], s, False)"

section \<open>Configuring the interface\<close>

definition no_address :: "('k \<Rightarrow> address_msg list) \<Rightarrow> u32 \<Rightarrow> 'k \<Rightarrow> bool" where
  "no_address addrs index k \<longleftrightarrow> (\<forall>a \<in> set (addrs k). \<not> on_link index a)"

definition has_address :: "('k \<Rightarrow> address_msg list) \<Rightarrow> u32 \<Rightarrow> ip \<Rightarrow> u8 \<Rightarrow> 'k \<Rightarrow> bool" where
  "has_address addrs index i p k \<longleftrightarrow>
     (\<forall>a \<in> set (addrs k). on_link index a \<longrightarrow> is_expected i p a) \<and> (\<exists>a \<in> set (addrs k). on_link index a)"

lemma index_of_link:
  assumes "kernel_laws N addrs links" "links k name = Some index"
  shows "get_interface_index N name k = None \<or> get_interface_index N name k = Some index"
  using kernel_facts(2)[OF assms(1), of name k] assms(2)
  by (auto simp: get_interface_index_def split: sum.splits option.splits)

text \<open>
  Both calls keep the interface numbers. When they report success, and deletions are granted, the interface has no
  address left, or exactly the new one.
\<close>

lemma deconfigure_wan_ok:
  assumes law: "kernel_laws N addrs links" and ix: "links k iface = Some index"
    and d: "deconfigure_wan N iface i smask k = (r, k')"
  shows "links k' = links k" "r = Inr () \<Longrightarrow> grants_deletions N addrs \<Longrightarrow> no_address addrs index k'"
proof -
  consider "k' = k" "r \<noteq> Inr ()" | r1 where "flush_ipv4_addresses N index k = (r1, k')" "r = Inr () \<longleftrightarrow> r1 = Inr ()"
    using d index_of_link[OF law ix] by (auto simp: deconfigure_wan_def map_err_def split: sum.splits option.splits prod.splits)
  note cs = this
  show "links k' = links k" by (rule cs) (auto dest!: flush_ok(1)[OF law] simp: pruned_def)
  assume ok: "r = Inr ()" "grants_deletions N addrs"
  show "no_address addrs index k'"
    by (rule cs) (use ok flush_ok(2)[OF law _ ok(2)] in \<open>auto simp: no_address_def\<close>)
qed

lemma configure_wan_ok:
  assumes law: "kernel_laws N addrs links" and ix: "links k iface = Some index" and p: "mask_to_prefix_len smask = Inr p"
    and c: "configure_wan L N iface i smask gateway k = (r, k')"
  shows "links k' = links k" "r = Inr () \<Longrightarrow> grants_deletions N addrs \<Longrightarrow> has_address addrs index i p k'"
proof -
  obtain r1 k1 where f: "flush_ipv4_addresses N index k = (r1, k1)" by fastforce
  obtain u k2 where u: "nl_set_up N index k1 = (u, k2)" by fastforce
  obtain x k3 where x: "nl_add N index i p k2 = (x, k3)" by fastforce
  have k2: "addrs k2 = addrs k1" "links k2 = links k1" using kernel_facts(7,8)[OF law, of index k1] u by simp_all
  have k3: "links k3 = links k2" using kernel_facts(6)[OF law, of index i p k2] x by simp
  have l1: "links k1 = links k" using flush_ok(1)[OF law f] by (simp add: pruned_def)
  note rt = kernel_facts(9,10)[OF law, where k = k3 and index = index]
  consider (fail) "r \<noteq> Inr ()" "k' \<in> {k, k1, k2, k3}"
    | (good) "r1 = Inr ()" "x = AddOk" "k' = k3 \<or> (\<exists>gw. k' = snd (nl_default_route N gw index k3))"
    using c index_of_link[OF law ix] f u x
    by (auto simp: configure_wan_def p map_err_def try_nl_def new_connection_def check_nl_def
        split: option.splits sum.splits if_splits prod.splits)
  note cs = this
  show "links k' = links k" by (rule cs) (use l1 k2(2) k3 rt(2) in auto)
  assume ok: "r = Inr ()" and g: "grants_deletions N addrs"
  show "has_address addrs index i p k'"
  proof (rule cs)
    assume o: "r1 = Inr ()" "x = AddOk" "k' = k3 \<or> (\<exists>gw. k' = snd (nl_default_route N gw index k3))"
    obtain xs ys a where "addrs k2 = xs @ ys" "addrs k3 = xs @ a # ys" "on_link index a" "is_expected i p a"
      using kernel_facts(5)[OF law, of k2 index i p] x o(2) by (auto simp: adds_address_def)
    moreover have "addrs k' = addrs k3" using o(3) rt(1) by auto
    ultimately show ?thesis
      using flush_ok(2)[OF law f g o(1)] k2(1) unfolding has_address_def by auto
  qed (use ok in simp)
qed

text \<open>
  The default route never leaves the leased network: it is added exactly when the gateway of the
  lease is an ordinary address inside that network.
\<close>

lemma wan_gateway_on_link:
  assumes "mask_to_prefix_len smask = Inr p" "net_new L i p = Some net"
    "configure_wan L N iface i smask (Some gw) k = (Inr (), k')"
  shows "\<exists>k1 index. get_interface_index N iface k = Some index
    \<and> k' = (if gw \<noteq> 0 \<and> gw \<noteq> - 1 \<and> net_contains L net gw then snd (nl_default_route N gw index k1) else k1)
    \<and> configure_wan L N iface i smask None k = (Inr (), k1)"
  using assms
  by (auto simp: configure_wan_def try_nl_def check_nl_def map_err_def is_valid_gateway_def is_unspecified_def
      is_broadcast_def split: option.splits sum.splits prod.splits if_splits)

end
