(* ===== verification/Wan.thy ===== *)
theory Wan
  imports Dhcp_Client_Parent Packet_Wire
begin

text \<open>
  The WAN side as a whole: the DHCP client, its parent and the kernel. The parent handles the
  client's messages in order, and a wait of the client ends at its deadline at the latest. Runs are those
  of one worker process from its start with no lease, whose messages reach the parent.
\<close>

section \<open>Runs\<close>

fun in_time :: "instant \<Rightarrow> client_phase \<Rightarrow> bool" where
  "in_time now (Discovering _ _ d) \<longleftrightarrow> now \<le> d"
| "in_time now (Requesting _ _ _ d) \<longleftrightarrow> now \<le> d"
| "in_time now (Holding _ _ d) \<longleftrightarrow> now \<le> d"
| "in_time now (Renewing _ _ _ _ d) \<longleftrightarrow> now \<le> d"
| "in_time now (Backoff d) \<longleftrightarrow> now \<le> d"
| "in_time now (BackoffSleep d) \<longleftrightarrow> now \<le> d"
| "in_time now Stopped \<longleftrightarrow> True"

text \<open>
  With the parent's state goes whether its latest attempt to configure or to deconfigure the interface
  succeeded; a failure is only logged by the parent.
\<close>

definition latest_ok :: "'n wan_setup \<Rightarrow> 'k netlink \<Rightarrow> dhcp_client_to_parent \<Rightarrow> wan_lease \<times> 'k \<Rightarrow> bool \<Rightarrow> bool" where
  "latest_ok W N m s ok =
     (case m of
        ApplyWanLease i p gw dns \<Rightarrow>
          if fst s \<noteq> \<lparr> wl_ip = Some i, wl_mask = Some (prefix_len_to_mask p), wl_gateway = Some gw, wl_dns_servers = dns \<rparr>
          then fst (configure_wan (ws_net W) N (ws_interface W) i (prefix_len_to_mask p) (Some gw) (snd s)) = Inr () else ok
      | ClearWanLease \<Rightarrow>
          (case (wl_ip (fst s), wl_mask (fst s)) of
             (Some i, Some m) \<Rightarrow> fst (deconfigure_wan N (ws_interface W) i m (snd s)) = Inr ()
           | _ \<Rightarrow> ok)
      | _ \<Rightarrow> ok)"

definition track_msg :: "'n wan_setup \<Rightarrow> 'k netlink \<Rightarrow> dhcp_client_to_parent \<Rightarrow> bool \<times> wan_lease \<times> 'k \<Rightarrow> bool \<times> wan_lease \<times> 'k" where
  "track_msg W N m s = (latest_ok W N m (snd s) (fst s), snd (handle_client_ipc_msg W N m (snd s)))"

definition track :: "'n wan_setup \<Rightarrow> 'k netlink \<Rightarrow> dhcp_client_to_parent list \<Rightarrow> bool \<times> wan_lease \<times> 'k \<Rightarrow> bool \<times> wan_lease \<times> 'k" where
  "track W N ms s = fold (track_msg W N) ms s"

inductive wan_reach :: "'n wan_setup \<Rightarrow> 'k netlink \<Rightarrow> 'k \<Rightarrow> instant \<Rightarrow> client_phase \<Rightarrow> bool \<times> wan_lease \<times> 'k \<Rightarrow> bool"
  for W N k0 where
  wan_start: "discover_phase env = (out, ph) \<Longrightarrow> ce_send_ok env \<Longrightarrow>
    wan_reach W N k0 (ce_now env) ph (track W N out (True, default_wan_lease, k0))"
| wan_event: "wan_reach W N k0 t ph s \<Longrightarrow> t \<le> ce_now env \<Longrightarrow> in_time (ce_now env) ph \<Longrightarrow> ce_send_ok env \<Longrightarrow>
    client_step (ws_pnet W) (ws_dhcp W) (ws_mac W) env ev ph = (out, ph') \<Longrightarrow>
    wan_reach W N k0 (ce_now env) ph' (track W N out s)"

section \<open>The lease, the address and the phase agree\<close>

definition prefix_of_ack :: "dhcp_ack \<Rightarrow> u8" where
  "prefix_of_ack ack = (case mask_to_prefix_len (ak_mask ack) of Inr p \<Rightarrow> p | Inl e \<Rightarrow> 24)"

definition lease_of_ack :: "dhcp_ack \<Rightarrow> wan_lease" where
  "lease_of_ack ack = \<lparr> wl_ip = Some (ak_ip ack), wl_mask = Some (prefix_len_to_mask (prefix_of_ack ack)),
     wl_gateway = Some (case ak_gateway ack of Some g \<Rightarrow> g | None \<Rightarrow> 0), wl_dns_servers = ak_dns ack \<rparr>"

fun held :: "client_phase \<Rightarrow> dhcp_ack option" where
  "held (Holding ack _ _) = Some ack"
| "held (Renewing ack _ _ _ _) = Some ack"
| "held _ = None"

definition wan_matches ::
  "'n wan_setup \<Rightarrow> 'k netlink \<Rightarrow> ('k \<Rightarrow> address_msg list) \<Rightarrow> ('k \<Rightarrow> string \<Rightarrow> u32 option) \<Rightarrow> u32 \<Rightarrow> dhcp_ack option
     \<Rightarrow> bool \<times> wan_lease \<times> 'k \<Rightarrow> bool" where
  "wan_matches W N addrs links index h s \<longleftrightarrow> (case s of (ok, lease, k) \<Rightarrow>
     links k (ws_interface W) = Some index
     \<and> (case h of
          None \<Rightarrow> lease = default_wan_lease \<and> (ok \<and> grants_deletions N addrs \<longrightarrow> no_address addrs index k)
        | Some ack \<Rightarrow> lease = lease_of_ack ack
            \<and> (ok \<and> grants_deletions N addrs \<longrightarrow> has_address addrs index (ak_ip ack) (prefix_of_ack ack) k)))"

lemma prefix_of_ack_le: "prefix_of_ack ack \<le> 32"
proof (cases "mask_to_prefix_len (ak_mask ack)")
  case (Inr p)
  then obtain n where "p = of_nat n" "n \<le> 32"
    by (fastforce simp: mask_to_prefix_len_def split: if_splits)
  then have "p \<le> 32" using unat_of_nat_le[of n "32 :: u8"] by (simp add: word_le_nat_alt)
  with Inr show ?thesis by (simp add: prefix_of_ack_def)
qed (simp add: prefix_of_ack_def word_le_nat_alt)

lemma clear_matches:
  assumes "kernel_laws N addrs links" "wan_matches W N addrs links index h s"
  shows "wan_matches W N addrs links index None (track_msg W N ClearWanLease s)"
proof -
  obtain ok lease k where s: "s = (ok, lease, k)" by (metis surj_pair)
  show ?thesis
  proof (cases h)
    case None
    with assms(2) show ?thesis
      by (simp add: s wan_matches_def track_msg_def latest_ok_def clear_parent_lease_def default_wan_lease_def)
  next
    case (Some ack)
    obtain r k' where d: "deconfigure_wan N (ws_interface W) (ak_ip ack) (prefix_len_to_mask (prefix_of_ack ack)) k = (r, k')"
      by fastforce
    from assms(2) Some s have l: "lease = lease_of_ack ack" "links k (ws_interface W) = Some index"
      by (simp_all add: wan_matches_def)
    from deconfigure_wan_ok[OF assms(1) l(2) d] l show ?thesis
      by (simp add: s wan_matches_def track_msg_def latest_ok_def clear_parent_lease_def lease_of_ack_def d)
  qed
qed

lemma apply_lease_msg:
  "apply_lease_config ack = ApplyWanLease (ak_ip ack) (prefix_of_ack ack) (case ak_gateway ack of Some g \<Rightarrow> g | None \<Rightarrow> 0) (ak_dns ack)"
  by (simp add: apply_lease_config_def prefix_of_ack_def)

text \<open>
  A lease that is already published is not configured again, whether or not its address is on the interface:
  after a failed attempt, renewals of the same lease do not repeat it.
\<close>

lemma same_lease_not_retried:
  "track_msg W N (apply_lease_config ack) (ok, lease_of_ack ack, k) = (ok, lease_of_ack ack, k)"
  by (simp add: track_msg_def latest_ok_def apply_lease_msg apply_parent_lease_def Let_def lease_of_ack_def)

lemma apply_matches:
  assumes law: "kernel_laws N addrs links" and m: "wan_matches W N addrs links index h s"
  shows "wan_matches W N addrs links index (Some ack) (track_msg W N (apply_lease_config ack) s)"
proof -
  obtain ok lease k where s: "s = (ok, lease, k)" by (metis surj_pair)
  from m s have l: "links k (ws_interface W) = Some index" by (simp add: wan_matches_def)
  show ?thesis
  proof (cases "lease = lease_of_ack ack")
    case True
    with m s obtain a where h: "h = Some a" by (auto simp: wan_matches_def lease_of_ack_def default_wan_lease_def split: option.splits)
    with True m s have "lease_of_ack a = lease_of_ack ack" by (simp add: wan_matches_def)
    then have e: "ak_ip a = ak_ip ack" "prefix_len_to_mask (prefix_of_ack a) = prefix_len_to_mask (prefix_of_ack ack)"
      by (simp_all add: lease_of_ack_def)
    have "prefix_of_ack a = prefix_of_ack ack"
      by (rule sum.inject(2)[THEN iffD1, OF trans[OF mask_roundtrip[OF prefix_of_ack_le, of a, symmetric]
              trans[OF arg_cong[OF e(2), where f = mask_to_prefix_len] mask_roundtrip[OF prefix_of_ack_le, of ack]]]])
    with m s h e(1) True have "wan_matches W N addrs links index (Some ack) s" by (simp add: wan_matches_def)
    then show ?thesis using True by (simp add: s same_lease_not_retried)
  next
    case False
    obtain r k' where c: "configure_wan (ws_net W) N (ws_interface W) (ak_ip ack) (prefix_len_to_mask (prefix_of_ack ack))
        (Some (case ak_gateway ack of Some g \<Rightarrow> g | None \<Rightarrow> 0)) k = (r, k')" by fastforce
    from configure_wan_ok[OF law l mask_roundtrip[OF prefix_of_ack_le] c] False l show ?thesis
      by (simp add: s apply_lease_msg track_msg_def latest_ok_def apply_parent_lease_def Let_def c wan_matches_def lease_of_ack_def)
  qed
qed

lemma track_simps [simp]:
  "track W N [] s = s"
  "track W N (m # ms) s = track W N ms (track_msg W N m s)"
  "track W N (ms @ ms') s = track W N ms' (track W N ms s)"
  by (simp_all add: track_def)

lemma track_other [simp]:
  "track_msg W N ClientHeartbeat s = s" "track_msg W N (SendDiscover xid) s = s"
  "track_msg W N (SendRequest xid req srv ci) s = s"
  by (simp_all add: track_msg_def latest_ok_def)

lemma handle_all_simps [simp]:
  "handle_all W N [] s = s"
  "handle_all W N (m # ms) s = handle_all W N ms (snd (handle_client_ipc_msg W N m s))"
  "handle_all W N (ms @ ms') s = handle_all W N ms' (handle_all W N ms s)"
  by (simp_all add: handle_all_def)

text \<open>The outcome of one step leaves the three in agreement.\<close>

definition out_matches ::
  "'n wan_setup \<Rightarrow> 'k netlink \<Rightarrow> ('k \<Rightarrow> address_msg list) \<Rightarrow> ('k \<Rightarrow> string \<Rightarrow> u32 option) \<Rightarrow> u32 \<Rightarrow> bool \<times> wan_lease \<times> 'k \<Rightarrow> client_out \<Rightarrow> bool" where
  "out_matches W N addrs links index s r \<longleftrightarrow> wan_matches W N addrs links index (held (snd r)) (track W N (fst r) s)"

lemma sending_simps:
  "ce_send_ok env \<Longrightarrow> fst (after_sending env ms r) = ms @ fst r"
  "snd (after_sending env ms r) = snd r"
  by (simp_all add: after_sending_def)

lemma sending_matches:
  "ce_send_ok env \<Longrightarrow> out_matches W N addrs links index s (after_sending env ms r)
     \<longleftrightarrow> out_matches W N addrs links index (track W N ms s) r"
  by (simp add: out_matches_def sending_simps)

lemma failed_matches:
  assumes "ce_send_ok env" "kernel_laws N addrs links" "wan_matches W N addrs links index None s"
  shows "out_matches W N addrs links index s (phase_failed env e)"
  using assms(3) clear_matches[OF assms(2,3)]
  by (simp add: phase_failed_def out_matches_def sending_simps(1)[OF assms(1)] sending_simps(2))

lemma cleared_failed_matches:
  assumes "ce_send_ok env" "kernel_laws N addrs links" "wan_matches W N addrs links index h s"
  shows "out_matches W N addrs links index s (after_sending env [ClearWanLease] (phase_failed env e))"
  using failed_matches[OF assms(1,2) clear_matches[OF assms(2,3)]] by (simp add: sending_matches[OF assms(1)])

lemma renew_matches:
  assumes "ce_send_ok env" "kernel_laws N addrs links" "wan_matches W N addrs links index (Some ack) s"
  shows "out_matches W N addrs links index s (renew_lease env ack bound_at xid sent)"
proof -
  have "out_matches W N addrs links index s ([], Renewing ack bound_at x y z)" for x y z
    using assms(3) by (simp add: out_matches_def)
  then show ?thesis
    using cleared_failed_matches[OF assms]
    by (simp add: renew_lease_def sending_matches[OF assms(1)] renewal_failed_def Let_def split: prod.split)
qed

lemma bound_loop_matches:
  assumes "ce_send_ok env" "kernel_laws N addrs links" "wan_matches W N addrs links index (Some ack) s"
  shows "out_matches W N addrs links index s (bound_loop env ack bound_at)"
proof -
  have "out_matches W N addrs links index s ([], Holding ack bound_at z)" for z
    using assms(3) by (simp add: out_matches_def)
  then show ?thesis
    using cleared_failed_matches[OF assms] renew_matches[OF assms]
    by (simp add: bound_loop_def Let_def sending_matches[OF assms(1)])
qed

lemma bound_matches:
  assumes "ce_send_ok env" "kernel_laws N addrs links" "wan_matches W N addrs links index h s"
  shows "out_matches W N addrs links index s (bound_phase env ack)"
  using bound_loop_matches[OF assms(1,2) apply_matches[OF assms(2,3)]] assms(1)
  by (simp add: bound_phase_def sending_matches)

lemma discover_matches:
  assumes "ce_send_ok env" "wan_matches W N addrs links index None s"
  shows "out_matches W N addrs links index s (discover_round env xid delay)"
    "out_matches W N addrs links index s (request_round env xid off delay)"
  using assms(2)
  by (simp_all add: discover_round_def request_round_def out_matches_def sending_simps(1)[OF assms(1)] sending_simps(2))

lemma waiting_matches:
  assumes "out_matches W N addrs links index s next_round" "wan_matches W N addrs links index (held ph) s"
  shows "out_matches W N addrs links index s (still_waiting env d ph next_round)"
  using assms by (simp add: still_waiting_def out_matches_def)

lemma step_matches:
  assumes ok: "ce_send_ok env" and law: "kernel_laws N addrs links" and m: "wan_matches W N addrs links index (held ph) s"
  shows "out_matches W N addrs links index s (client_step P D mac env ev ph)"
proof (cases ph)
  case (Discovering xid delay d)
  with m have c: "wan_matches W N addrs links index None s" by simp
  note rounds = waiting_matches[OF discover_matches(1)[OF ok c], of "Discovering xid delay d", simplified, OF c]
    failed_matches[OF ok law c] discover_matches(2)[OF ok c]
  show ?thesis unfolding Discovering
    by (cases ev) (simp_all add: Let_def rounds request_phase_def split: option.split)
next
  case (Requesting xid off delay d)
  with m have c: "wan_matches W N addrs links index None s" by simp
  note rounds = waiting_matches[OF discover_matches(2)[OF ok c], of "Requesting xid off delay d", simplified, OF c]
    failed_matches[OF ok law c] bound_matches[OF ok law c]
  show ?thesis unfolding Requesting
    by (cases ev) (simp_all add: Let_def rounds split: option.split parse_ack_result.split)
next
  case (Holding ack b w)
  with m have c: "wan_matches W N addrs links index (Some ack) s" by simp
  note rounds = waiting_matches[OF bound_loop_matches[OF ok law c], of "Holding ack b w", simplified, OF c]
    cleared_failed_matches[OF ok law c] bound_loop_matches[OF ok law c]
  show ?thesis unfolding Holding by (cases ev) (simp_all add: rounds)
next
  case (Renewing ack b xid sent d)
  with m have c: "wan_matches W N addrs links index (Some ack) s" by simp
  note rounds = waiting_matches[OF renew_matches[OF ok law c], of "Renewing ack b xid sent d", simplified, OF c]
    cleared_failed_matches[OF ok law c] bound_matches[OF ok law c]
  show ?thesis unfolding Renewing
    by (cases ev) (simp_all add: Let_def rounds renewal_failed_def split: option.split parse_ack_result.split)
next
  case (Backoff d)
  with m have c: "wan_matches W N addrs links index None s" by simp
  note rounds = waiting_matches[OF discover_matches(1)[OF ok c], of "Backoff d", simplified, OF c]
  show ?thesis unfolding Backoff by (cases ev) (use c in \<open>simp_all add: rounds discover_phase_def out_matches_def[of _ _ _ _ _ _ "(_, _)"]\<close>)
next
  case (BackoffSleep d)
  with m have c: "wan_matches W N addrs links index None s" by simp
  show ?thesis unfolding BackoffSleep
    using waiting_matches[OF discover_matches(1)[OF ok c], of "BackoffSleep d", simplified, OF c]
    by (simp add: discover_phase_def)
next
  case Stopped
  with m show ?thesis by (simp add: out_matches_def)
qed

section \<open>No lease is kept past its time\<close>

text \<open>A wait in a bound phase ends less than a second after the end of the lease.\<close>

fun timed :: "instant \<Rightarrow> client_phase \<Rightarrow> bool" where
  "timed t (Holding ack b w) \<longleftrightarrow> b \<le> t \<and> w < b + from_secs (unat (ak_lease_secs ack) + 1)"
| "timed t (Renewing ack b x sent d) \<longleftrightarrow> b \<le> t \<and> d < b + from_secs (unat (ak_lease_secs ack) + 1)"
| "timed t _ \<longleftrightarrow> True"

lemma elapsed_exact:
  assumes "ce_now env < b + from_secs (unat (lease :: u32) + 1)"
  shows "unat (elapsed_secs env b) = as_secs (ce_now env - b)"
proof -
  have "ce_now env - b < (unat lease + 1) * nanos_per_sec" using assms by (simp add: from_secs_def)
  then have "as_secs (ce_now env - b) < unat lease + 1" unfolding as_secs_def by (rule less_mult_imp_div_less)
  then show ?thesis unfolding elapsed_secs_def by (intro unat_of_nat_le[of _ lease]) simp
qed

lemma wait_within_lease:
  assumes "b \<le> ce_now env" "as_secs (ce_now env - b) + n \<le> l"
  shows "ce_now env + from_secs n < b + from_secs (l + 1)"
proof -
  let ?d = "ce_now env - b"
  have "?d < (as_secs ?d + 1) * nanos_per_sec" using dividend_less_div_times[of nanos_per_sec ?d] by (simp add: as_secs_def)
  moreover have "(as_secs ?d + n) * nanos_per_sec \<le> l * nanos_per_sec" using assms(2) by (rule mult_le_mono1)
  ultimately show ?thesis using assms(1) by (simp add: from_secs_def algebra_simps)
qed

lemma half_of_remaining_le: "0 < unat r \<Longrightarrow> unat (half_of_remaining r) \<le> unat r"
  by (auto simp: half_of_remaining_def max_def word_less_nat_alt word_le_nat_alt unat_div)

lemma renewal_wait_le:
  assumes "calculate_renewal_params e (t2_of l) l srv = (r, x)" "e < l"
  shows "unat e + unat r \<le> unat l"
proof -
  have t2: "unat (t2_of l) = unat l * 7 div 8" unfolding t2_of_def by (rule unat_of_nat_le[of _ l]) simp
  have "0 < unat l - unat e" "unat (l - e) = unat l - unat e"
    using assms(2) by (simp_all add: word_less_nat_alt unat_sub word_le_nat_alt)
  moreover have "unat (t2_of l - e) = unat (t2_of l) - unat e" "0 < unat (t2_of l) - unat e" if "e < t2_of l"
    using that by (simp_all add: word_less_nat_alt unat_sub word_le_nat_alt)
  ultimately show ?thesis
    using assms half_of_remaining_le[of "l - e"] half_of_remaining_le[of "t2_of l - e"] t2
    by (auto simp: calculate_renewal_params_def saturating_sub32_def not_le split: if_splits)
qed

lemma failed_timed [simp]: "timed t (snd (phase_failed env e))"
  by (simp add: phase_failed_def sending_simps)

lemma renew_timed:
  assumes "b \<le> ce_now env" "unat (elapsed_secs env b) = as_secs (ce_now env - b)"
  shows "timed (ce_now env) (snd (renew_lease env ack b xid sent))"
proof (cases "ak_lease_secs ack \<le> elapsed_secs env b")
  case True
  then show ?thesis by (simp add: renew_lease_def sending_simps renewal_failed_def Let_def)
next
  case False
  obtain r x y where p: "calculate_renewal_params (elapsed_secs env b) (t2_of (ak_lease_secs ack)) (ak_lease_secs ack) (ak_server ack)
      = (r, x, y)" by (metis prod_cases3)
  from renewal_wait_le[OF p] False assms(2) have "as_secs (ce_now env - b) + unat r \<le> unat (ak_lease_secs ack)"
    by (simp add: not_le)
  from wait_within_lease[OF assms(1) this] False assms(1) show ?thesis
    by (simp add: renew_lease_def sending_simps Let_def p)
qed

lemma bound_loop_timed:
  assumes "b \<le> ce_now env" "unat (elapsed_secs env b) = as_secs (ce_now env - b)"
  shows "timed (ce_now env) (snd (bound_loop env ack b))"
proof -
  let ?e = "elapsed_secs env b" and ?t1 = "ak_lease_secs ack div 2"
  have "ce_now env + from_secs (min BOUND_HEARTBEAT_INTERVAL_SECS (unat (?t1 - ?e)))
      < b + from_secs (unat (ak_lease_secs ack) + 1)" if "?e < ?t1"
  proof (rule wait_within_lease[OF assms(1)])
    have "unat (?t1 - ?e) = unat ?t1 - unat ?e" "unat ?e \<le> unat ?t1"
      using that by (simp_all add: unat_sub word_le_nat_alt word_less_nat_alt)
    moreover have "unat ?t1 \<le> unat (ak_lease_secs ack)" by (simp add: unat_div)
    ultimately show "as_secs (ce_now env - b) + min BOUND_HEARTBEAT_INTERVAL_SECS (unat (?t1 - ?e)) \<le> unat (ak_lease_secs ack)"
      using assms(2) by simp
  qed
  with assms(1) renew_timed[OF assms] show ?thesis by (simp add: bound_loop_def Let_def sending_simps)
qed

lemma bound_timed: "timed (ce_now env) (snd (bound_phase env ack))"
  using bound_loop_timed[of "ce_now env" env ack]
  by (simp add: bound_phase_def sending_simps elapsed_secs_def as_secs_def)

lemma round_timed [simp]:
  "timed t (snd (discover_round env xid delay))" "timed t (snd (request_round env xid off delay))"
  by (simp_all add: discover_round_def request_round_def sending_simps)

lemma waiting_timed:
  "timed t ph \<Longrightarrow> t \<le> ce_now env \<Longrightarrow> timed (ce_now env) (snd r) \<Longrightarrow> timed (ce_now env) (snd (still_waiting env d ph r))"
  by (cases ph) (auto simp: still_waiting_def)

lemma step_timed:
  assumes "timed t ph" "t \<le> ce_now env" "in_time (ce_now env) ph"
  shows "timed (ce_now env) (snd (client_step P D mac env ev ph))"
proof (cases ph)
  case (Holding ack b w)
  with assms have b: "b \<le> ce_now env" "ce_now env < b + from_secs (unat (ak_lease_secs ack) + 1)" by auto
  note l = bound_loop_timed[OF b(1) elapsed_exact[OF b(2)], of ack]
  from waiting_timed[OF assms(1,2) l] l show ?thesis unfolding Holding by (cases ev) (simp_all add: sending_simps)
next
  case (Renewing ack b xid sent d)
  with assms have b: "b \<le> ce_now env" "ce_now env < b + from_secs (unat (ak_lease_secs ack) + 1)" by auto
  from waiting_timed[OF assms(1,2) renew_timed[OF b(1) elapsed_exact[OF b(2)], of ack xid sent]] bound_timed
  show ?thesis unfolding Renewing
    by (cases ev) (simp_all add: Let_def renewal_failed_def sending_simps split: option.split parse_ack_result.split)
next
  case (Discovering xid delay d)
  from waiting_timed[OF assms(1,2)] show ?thesis unfolding Discovering
    by (cases ev) (simp_all add: Let_def request_phase_def split: option.split)
next
  case (Requesting xid off delay d)
  from waiting_timed[OF assms(1,2)] bound_timed show ?thesis unfolding Requesting
    by (cases ev) (simp_all add: Let_def split: option.split parse_ack_result.split)
next
  case (Backoff d)
  from waiting_timed[OF assms(1,2)] show ?thesis unfolding Backoff by (cases ev) (simp_all add: discover_phase_def)
next
  case (BackoffSleep d)
  from waiting_timed[OF assms(1,2)] show ?thesis unfolding BackoffSleep by (simp add: discover_phase_def)
qed simp

lemma wan_reach_ok:
  assumes "wan_reach W N k0 t ph s" "kernel_laws N addrs links"
    "links k0 (ws_interface W) = Some index" "no_address addrs index k0"
  shows "wan_matches W N addrs links index (held ph) s \<and> timed t ph"
  using assms(1)
proof (induction rule: wan_reach.induct)
  case (wan_start env out ph)
  have "wan_matches W N addrs links index None (True, default_wan_lease, k0)" using assms(3,4) by (simp add: wan_matches_def)
  from discover_matches(1)[OF wan_start(2) this, of "ce_xid env" INITIAL_RETRY_DELAY_SECS] wan_start(1)
    round_timed(1)[of "ce_now env" env "ce_xid env" INITIAL_RETRY_DELAY_SECS]
  show ?case by (simp add: discover_phase_def out_matches_def)
next
  case (wan_event t ph s env ev out ph')
  then have m: "wan_matches W N addrs links index (held ph) s" and i: "timed t ph" by simp_all
  from step_matches[OF wan_event(4) assms(2) m, of "ws_pnet W" "ws_dhcp W" "ws_mac W" ev]
    step_timed[OF i wan_event(2,3), of "ws_pnet W" "ws_dhcp W" "ws_mac W" ev] wan_event(5)
  show ?case by (simp add: out_matches_def)
qed


section \<open>A run that obtains a lease\<close>

lemma dhcp_frame: "\<exists>f. \<forall>D. parse_dhcp_payload wire_pnet D f CLIENT_PORT = message_decode D [b]"
proof -
  from pnet_laws.frame_layers[OF wire.pnet_laws_axioms, of "[b]" "MacAddr 2 0 0 0 0 9" "MacAddr 2 0 0 0 0 2" 1 2 67 CLIENT_PORT]
  obtain f where f: "length f = 42 + length [b]" "eth_ethertype wire_pnet f = ETHERTYPE_IPV4"
    "ip_ok wire_pnet (eth_payload wire_pnet f)" "ip_protocol wire_pnet (eth_payload wire_pnet f) = PROTO_UDP"
    "udp_ok wire_pnet (ip_payload wire_pnet (eth_payload wire_pnet f))"
    "udp_destination wire_pnet (ip_payload wire_pnet (eth_payload wire_pnet f)) = CLIENT_PORT"
    "udp_payload wire_pnet (ip_payload wire_pnet (eth_payload wire_pnet f)) = [b]"
    by (auto simp: MAX_RAW_PACKET_PAYLOAD_def)
  moreover have "eth_ok wire_pnet f" using f(1) by (simp add: wire.views(1))
  ultimately have "parse_dhcp_payload wire_pnet D f CLIENT_PORT = message_decode D [b]" for D
    by (simp add: parse_dhcp_payload_def Let_def)
  then show ?thesis by blast
qed

definition server_reply :: "message_type \<Rightarrow> dhcp_message" where
  "server_reply mt = \<lparr> msg_opcode = BootReply, msg_xid = 7, msg_broadcast = True, msg_ciaddr = 0, msg_yiaddr = 3232235778,
     msg_siaddr = 0, msg_giaddr = 0, msg_hlen = 6, msg_chaddr = octets (MacAddr 2 0 0 0 0 2),
     msg_opts = [CodeMessageType \<mapsto> OptMessageType mt, CodeAddressLeaseTime \<mapsto> OptAddressLeaseTime 86400,
                 CodeServerIdentifier \<mapsto> OptServerIdentifier 3232235777] \<rparr>"

definition server_codec :: dhcp_lib where
  "server_codec = \<lparr> message_default = demo_discover, message_encode = (\<lambda>_. Some [1]),
     message_decode = (\<lambda>b. if b = [1] then Some (server_reply MtOffer) else Some (server_reply MtAck)) \<rparr>"

definition demo_wan :: "cidr wan_setup" where
  "demo_wan = \<lparr> ws_net = cidr_lib, ws_pnet = wire_pnet, ws_dhcp = server_codec, ws_interface = ''wan'',
     ws_mac = MacAddr 2 0 0 0 0 2, ws_monitored = True \<rparr>"

definition wan_kernel :: plain_kernel where
  "wan_kernel = ([(''wan'', \<lparr> ln_index = 3, ln_up = True \<rparr>)], [], None)"

definition client_env_at :: "instant \<Rightarrow> client_env" where
  "client_env_at t = \<lparr> ce_now = t, ce_xid = 7, ce_random = 1 / 2, ce_rnd = (\<lambda>x. x), ce_send_ok = True \<rparr>"

definition demo_ack :: dhcp_ack where
  "demo_ack = \<lparr> ak_ip = 3232235778, ak_mask = DEFAULT_SUBNET_MASK, ak_gateway = None, ak_server = Some 3232235777,
     ak_lease_secs = 86400, ak_dns = [] \<rparr>"

lemma demo_wan_simps:
  "ws_pnet demo_wan = wire_pnet" "ws_dhcp demo_wan = server_codec" "ws_mac demo_wan = MacAddr 2 0 0 0 0 2"
  by (simp_all add: demo_wan_def)

lemma client_env_simps [simp]:
  "ce_now (client_env_at t) = t" "ce_xid (client_env_at t) = 7" "ce_send_ok (client_env_at t)"
  by (simp_all add: client_env_at_def)

lemma demo_replies:
  "own_packet wire_pnet server_codec (MacAddr 2 0 0 0 0 2) f = Some (server_reply MtOffer) \<Longrightarrow>
   \<exists>d. client_step wire_pnet server_codec (MacAddr 2 0 0 0 0 2) (client_env_at 0) (ClFrame f) (Discovering 7 4 d0)
     = ([ClientHeartbeat, SendRequest 7 3232235778 (Some 3232235777) 0],
        Requesting 7 \<lparr> of_ip = 3232235778, of_server = Some 3232235777 \<rparr> 4 d)"
  "own_packet wire_pnet server_codec (MacAddr 2 0 0 0 0 2) g = Some (server_reply MtAck) \<Longrightarrow>
   \<exists>w. client_step wire_pnet server_codec (MacAddr 2 0 0 0 0 2) (client_env_at 0) (ClFrame g) (Requesting 7 off 4 d0)
     = ([apply_lease_config demo_ack, ClientHeartbeat], Holding demo_ack 0 w)"
  by (simp_all add: server_reply_def parse_offer_def parse_ack_nak_def get_server_identifier_def parse_lease_options_def
      Let_def request_phase_def request_round_def after_sending_def INITIAL_RETRY_DELAY_SECS_def bound_phase_def
      bound_loop_def elapsed_secs_def as_secs_def demo_ack_def word_less_nat_alt word_le_nat_alt)

lemma demo_prefix: "prefix_of_ack demo_ack = 24"
proof -
  have "DEFAULT_SUBNET_MASK = prefix_len_to_mask 24"
    by (simp add: DEFAULT_SUBNET_MASK_def ipv4_def prefix_len_to_mask_def mask_eq_exp_minus_1 word_less_nat_alt)
  with mask_roundtrip[of 24] show ?thesis
    by (simp only: prefix_of_ack_def demo_ack_def dhcp_ack.simps) (simp add: word_le_nat_alt)
qed

lemma demo_configured:
  "\<exists>lease k. track_msg demo_wan plain_netlink (apply_lease_config demo_ack) (True, default_wan_lease, wan_kernel) = (True, lease, k)"
proof -
  have m: "mask_to_prefix_len (prefix_len_to_mask 24) = Inr 24" by (rule mask_roundtrip) (simp add: word_le_nat_alt)
  have "fst (configure_wan cidr_lib plain_netlink ''wan'' i (prefix_len_to_mask 24) gw wan_kernel) = Inr ()" for i gw
    by (simp add: configure_wan_def m get_interface_index_def plain_netlink_def wan_kernel_def flush_ipv4_addresses_def
        try_nl_def new_connection_def map_err_def check_nl_def)
  then have "fst (track_msg demo_wan plain_netlink (apply_lease_config demo_ack) (True, default_wan_lease, wan_kernel))"
    by (simp add: track_msg_def latest_ok_def apply_lease_msg demo_prefix demo_wan_def default_wan_lease_def)
  then show ?thesis by (metis (full_types) prod.collapse)
qed

lemma demo_wan_run:
  "\<exists>w lease k. wan_reach demo_wan plain_netlink wan_kernel 0 (Holding demo_ack 0 w) (True, lease, k)"
proof -
  obtain f g where f: "\<And>D. parse_dhcp_payload wire_pnet D f CLIENT_PORT = message_decode D [1]"
    and g: "\<And>D. parse_dhcp_payload wire_pnet D g CLIENT_PORT = message_decode D [2]"
    using dhcp_frame[of 1] dhcp_frame[of 2] by blast
  have own: "own_packet wire_pnet server_codec (MacAddr 2 0 0 0 0 2) f = Some (server_reply MtOffer)"
    "own_packet wire_pnet server_codec (MacAddr 2 0 0 0 0 2) g = Some (server_reply MtAck)"
    by (simp_all add: own_packet_def f g server_codec_def server_reply_def)
  obtain d1 where 1: "discover_phase (client_env_at 0) = ([ClientHeartbeat, SendDiscover 7], Discovering 7 4 d1)"
    by (auto simp: discover_phase_def discover_round_def after_sending_def INITIAL_RETRY_DELAY_SECS_def)
  note 2 = demo_replies(1)[OF own(1)] and 3 = demo_replies(2)[OF own(2)]
  let ?reach = "wan_reach demo_wan plain_netlink wan_kernel (ce_now (client_env_at 0))"
  have r1: "?reach (Discovering 7 4 d1) (True, default_wan_lease, wan_kernel)"
    using wan_start[OF 1, of demo_wan plain_netlink wan_kernel] by simp
  obtain d2 where r2: "?reach (Requesting 7 \<lparr> of_ip = 3232235778, of_server = Some 3232235777 \<rparr> 4 d2) (True, default_wan_lease, wan_kernel)"
    using 2[of d1] wan_event[OF r1, of "client_env_at 0" "ClFrame f"] unfolding demo_wan_simps by fastforce
  obtain w where "?reach (Holding demo_ack 0 w) (track_msg demo_wan plain_netlink (apply_lease_config demo_ack) (True, default_wan_lease, wan_kernel))"
    using 3[of _ d2] wan_event[OF r2, of "client_env_at 0" "ClFrame g"] unfolding demo_wan_simps by fastforce
  then show ?thesis using demo_configured by (metis client_env_simps(1))
qed


end
