(* ===== verification/Watchdog.thy ===== *)
theory Watchdog
  imports Prelude
begin

text \<open>
  The hardware watchdog, \<open>init/watchdog.rs\<close>: services report heartbeats over a bounded channel,
  and a periodic task pets the device while every expected service is fresh. The device file is
  a list of bytes written to it; logging is not modelled.
\<close>

definition DEFAULT_WATCHDOG_INTERVAL_SECS :: nat where "DEFAULT_WATCHDOG_INTERVAL_SECS = 5"
definition DEFAULT_HEARTBEAT_TIMEOUT_SECS :: nat where "DEFAULT_HEARTBEAT_TIMEOUT_SECS = 30"
definition HEARTBEAT_CHANNEL_CAPACITY :: nat where "HEARTBEAT_CHANNEL_CAPACITY = 64"
definition KEEPALIVE_BYTE :: u8 where "KEEPALIVE_BYTE = 0"
definition MAGIC_CLOSE_BYTE :: u8 where "MAGIC_CLOSE_BYTE = 86"
definition MONITORED_SERVICE_COUNT :: nat where "MONITORED_SERVICE_COUNT = 4"

datatype monitored_service = MsDnsForwarder | MsInterfaceMonitor | MsDhcpClient | MsLanManager

fun service_index :: "monitored_service \<Rightarrow> nat" where
  "service_index MsDnsForwarder = 0"
| "service_index MsInterfaceMonitor = 1"
| "service_index MsDhcpClient = 2"
| "service_index MsLanManager = 3"

fun service_name :: "monitored_service \<Rightarrow> string" where
  "service_name MsDnsForwarder = ''dns-forwarder''"
| "service_name MsInterfaceMonitor = ''interface-monitor''"
| "service_name MsDhcpClient = ''dhcp-client''"
| "service_name MsLanManager = ''lan-manager''"

type_synonym liveness_map = "instant option list"

definition send_service_heartbeat :: "bool \<Rightarrow> monitored_service \<Rightarrow> monitored_service list \<Rightarrow> monitored_service list" where
  "send_service_heartbeat has_tx service queue =
     (if has_tx \<and> length queue < HEARTBEAT_CHANNEL_CAPACITY then queue @ [service] else queue)"

section \<open>The device\<close>

record linux_watchdog =
  lw_open :: bool
  lw_written :: bytes
  lw_driver_timeout :: "duration option"

text \<open>\<open>open\<close>, with the result of the \<open>WDIOC_GETTIMEOUT\<close> request.\<close>

definition watchdog_open :: "(bool \<times> int) \<Rightarrow> linux_watchdog" where
  "watchdog_open reply = \<lparr> lw_open = True, lw_written = [],
     lw_driver_timeout = (case reply of (ok, hw_timeout) \<Rightarrow>
       if ok \<and> hw_timeout > 0 then Some (from_secs (nat hw_timeout)) else None) \<rparr>"

definition keepalive :: "bool \<Rightarrow> linux_watchdog \<Rightarrow> bool \<times> linux_watchdog" where
  "keepalive write_ok w =
     (if \<not> lw_open w then (False, w)
      else if write_ok then (True, w\<lparr> lw_written := lw_written w @ [KEEPALIVE_BYTE] \<rparr>)
      else (False, w))"

definition disarm :: "bool \<Rightarrow> linux_watchdog \<Rightarrow> bool \<times> linux_watchdog" where
  "disarm write_ok w =
     (if lw_open w
      then if write_ok then (True, w\<lparr> lw_open := False, lw_written := lw_written w @ [MAGIC_CLOSE_BYTE] \<rparr>)
           else (False, w\<lparr> lw_open := False \<rparr>)
      else (True, w))"

section \<open>The monitor\<close>

definition drain_heartbeats :: "instant \<Rightarrow> monitored_service list \<Rightarrow> liveness_map \<Rightarrow> liveness_map" where
  "drain_heartbeats now queue liveness = fold (\<lambda>s l. l[service_index s := Some now]) queue liveness"

fun evaluate_health :: "instant \<Rightarrow> monitored_service list \<Rightarrow> liveness_map \<Rightarrow> duration \<Rightarrow> bool" where
  "evaluate_health now [] liveness limit = True"
| "evaluate_health now (s # ss) liveness limit =
     (case liveness ! service_index s of
        Some seen \<Rightarrow> if now - seen \<le> limit then evaluate_health now ss liveness limit else False
      | None \<Rightarrow> False)"

definition watchdog_interval :: "duration option \<Rightarrow> duration" where
  "watchdog_interval driver_timeout =
     (let base_interval = from_secs DEFAULT_WATCHDOG_INTERVAL_SECS in
      case driver_timeout of
        Some hw \<Rightarrow> if hw div 2 < base_interval \<and> 0 < hw div 2 then hw div 2 else base_interval
      | None \<Rightarrow> base_interval)"

definition initial_liveness :: "instant \<Rightarrow> monitored_service list \<Rightarrow> liveness_map" where
  "initial_liveness start expected =
     fold (\<lambda>s l. l[service_index s := Some start]) expected (replicate MONITORED_SERVICE_COUNT None)"

record watchdog_state =
  wd_device :: linux_watchdog
  wd_liveness :: liveness_map

text \<open>One tick: the shutdown flag, the heartbeats queued and whether writing works; \<open>None\<close> ends the task.\<close>

record tick =
  tk_now :: instant
  tk_queue :: "monitored_service list"
  tk_shutdown :: bool
  tk_write_ok :: bool

definition watchdog_tick :: "monitored_service list \<Rightarrow> tick \<Rightarrow> watchdog_state \<Rightarrow> watchdog_state \<times> bool" where
  "watchdog_tick expected tk w =
     (if tk_shutdown tk then (w\<lparr> wd_device := snd (disarm (tk_write_ok tk) (wd_device w)) \<rparr>, False)
      else
        let live = drain_heartbeats (tk_now tk) (tk_queue tk) (wd_liveness w) in
        if evaluate_health (tk_now tk) expected live (from_secs DEFAULT_HEARTBEAT_TIMEOUT_SECS)
        then (w\<lparr> wd_liveness := live, wd_device := snd (keepalive (tk_write_ok tk) (wd_device w)) \<rparr>, True)
        else (w\<lparr> wd_liveness := live \<rparr>, True))"

definition watchdog_start :: "monitored_service list \<Rightarrow> instant \<Rightarrow> linux_watchdog \<Rightarrow> watchdog_state" where
  "watchdog_start expected now dev = \<lparr> wd_device = dev, wd_liveness = initial_liveness now expected \<rparr>"

fun start_watchdog_monitor :: "monitored_service list \<Rightarrow> tick list \<Rightarrow> watchdog_state \<Rightarrow> watchdog_state" where
  "start_watchdog_monitor expected [] w = w"
| "start_watchdog_monitor expected (tk # tks) w =
     (case watchdog_tick expected tk w of
        (w', go) \<Rightarrow> if go then start_watchdog_monitor expected tks w' else w')"

section \<open>The device is petted exactly while the services are alive\<close>

lemma service_index_less [simp]: "service_index s < 4"
  by (cases s) simp_all

lemma service_index_inject [simp]: "service_index s = service_index s' \<longleftrightarrow> s = s'"
  by (cases s; cases s') simp_all

lemma mark_all:
  "length l = 4 \<Longrightarrow> length (fold (\<lambda>s l. l[service_index s := Some t]) ss l) = 4
    \<and> fold (\<lambda>s l. l[service_index s := Some t]) ss l ! service_index s = (if s \<in> set ss then Some t else l ! service_index s)"
  by (induction ss arbitrary: l) (auto simp: nth_list_update)

lemma evaluate_health_iff:
  "evaluate_health now ss l limit \<longleftrightarrow> (\<forall>s \<in> set ss. \<exists>t. l ! service_index s = Some t \<and> now - t \<le> limit)"
  by (induction ss) (auto split: option.splits)

text \<open>A service is fresh at \<open>now\<close> after some ticks when one of them, or the start, is recent enough and saw it.\<close>

definition fresh_after :: "instant \<Rightarrow> instant \<Rightarrow> tick list \<Rightarrow> monitored_service \<Rightarrow> bool" where
  "fresh_after now start tks s \<longleftrightarrow>
     now - start \<le> from_secs 30 \<or> (\<exists>tk \<in> set tks. s \<in> set (tk_queue tk) \<and> now - tk_now tk \<le> from_secs 30)"

definition last_seen_ok :: "instant \<Rightarrow> tick list \<Rightarrow> monitored_service list \<Rightarrow> watchdog_state \<Rightarrow> bool" where
  "last_seen_ok start tks expected w \<longleftrightarrow> length (wd_liveness w) = 4
     \<and> (\<forall>s \<in> set expected. \<exists>t. wd_liveness w ! service_index s = Some t
          \<and> (\<forall>now. now - t \<le> from_secs 30 \<longleftrightarrow> fresh_after now start tks s))"

lemma seen_latest:
  assumes "\<forall>now. now - t \<le> from_secs 30 \<longleftrightarrow> fresh_after now start tks s"
    "\<forall>x \<in> set tks. tk_now x \<le> tk_now tk" "start \<le> tk_now tk"
  shows "now - (if s \<in> set (tk_queue tk) then tk_now tk else t) \<le> from_secs 30 \<longleftrightarrow> fresh_after now start (tks @ [tk]) s"
proof (cases "s \<in> set (tk_queue tk)")
  case True
  have "now - tk_now tk \<le> now - tk_now x" if "x \<in> set tks" for x using assms(2) that by (simp add: diff_le_mono2)
  then have "now - tk_now tk \<le> from_secs 30" if "fresh_after now start tks s"
    using that assms(3) unfolding fresh_after_def by (meson diff_le_mono2 order_trans)
  with True show ?thesis by (auto simp: fresh_after_def)
qed (use assms(1) in \<open>auto simp: fresh_after_def\<close>)

lemma tick_seen:
  assumes "last_seen_ok start tks expected w" "\<forall>x \<in> set tks. tk_now x \<le> tk_now tk" "start \<le> tk_now tk"
    "\<not> tk_shutdown tk" "watchdog_tick expected tk w = (w', go)"
  shows "last_seen_ok start (tks @ [tk]) expected w' \<and> go
    \<and> wd_device w' = (if \<forall>s \<in> set expected. fresh_after (tk_now tk) start (tks @ [tk]) s
                      then snd (keepalive (tk_write_ok tk) (wd_device w)) else wd_device w)"
proof -
  let ?l = "drain_heartbeats (tk_now tk) (tk_queue tk) (wd_liveness w)"
  have len: "length (wd_liveness w) = 4" using assms(1) by (simp add: last_seen_ok_def)
  have seen: "\<exists>t. ?l ! service_index s = Some t \<and> (\<forall>now. now - t \<le> from_secs 30 \<longleftrightarrow> fresh_after now start (tks @ [tk]) s)"
    if s: "s \<in> set expected" for s
  proof -
    obtain t where t: "wd_liveness w ! service_index s = Some t"
      "\<forall>now. now - t \<le> from_secs 30 \<longleftrightarrow> fresh_after now start tks s" using assms(1) s by (auto simp: last_seen_ok_def)
    have "?l ! service_index s = Some (if s \<in> set (tk_queue tk) then tk_now tk else t)"
      using mark_all[OF len, of "tk_now tk" "tk_queue tk" s] t(1) by (simp add: drain_heartbeats_def)
    with seen_latest[OF t(2) assms(2,3)] show ?thesis by blast
  qed
  then have h: "evaluate_health (tk_now tk) expected ?l (from_secs 30)
      \<longleftrightarrow> (\<forall>s \<in> set expected. fresh_after (tk_now tk) start (tks @ [tk]) s)"
    unfolding evaluate_health_iff by (metis option.inject)
  have l: "last_seen_ok start (tks @ [tk]) expected (w\<lparr> wd_liveness := ?l, wd_device := d \<rparr>)" for d
    using seen mark_all[OF len] by (simp add: last_seen_ok_def drain_heartbeats_def)
  show ?thesis
    using assms(4,5) h l[of "wd_device w"] l by (auto simp: watchdog_tick_def Let_def DEFAULT_HEARTBEAT_TIMEOUT_SECS_def split: if_splits)
qed

lemma run_append:
  "\<forall>tk \<in> set tks. \<not> tk_shutdown tk \<Longrightarrow>
   start_watchdog_monitor expected (tks @ rest) w = start_watchdog_monitor expected rest (start_watchdog_monitor expected tks w)"
  by (induction tks arbitrary: w) (auto simp: watchdog_tick_def Let_def)

definition healthy_at :: "monitored_service list \<Rightarrow> instant \<Rightarrow> tick list \<Rightarrow> nat \<Rightarrow> bool" where
  "healthy_at expected start tks i \<longleftrightarrow>
     (\<forall>s \<in> set expected. fresh_after (tk_now (tks ! i)) start (take (Suc i) tks) s)"

lemma healthy_prefix: "i < length tks \<Longrightarrow> healthy_at expected start (tks @ rest) i = healthy_at expected start tks i"
  by (simp add: healthy_at_def nth_append)

text \<open>A run with writes that may fail: a service that was last heard of at \<open>t\<close> keeps later ticks from writing.\<close>

lemma run_seen:
  assumes "sorted (start # map tk_now tks)" "\<forall>tk \<in> set tks. \<not> tk_shutdown tk"
  shows "last_seen_ok start tks expected (start_watchdog_monitor expected tks (watchdog_start expected start dev))"
  using assms
proof (induction tks rule: rev_induct)
  case Nil
  have len: "length (replicate MONITORED_SERVICE_COUNT None :: liveness_map) = 4" by (simp add: MONITORED_SERVICE_COUNT_def)
  from mark_all[OF len, of start expected] show ?case
    by (simp add: last_seen_ok_def watchdog_start_def initial_liveness_def fresh_after_def)
next
  case (snoc tk tks)
  let ?w = "start_watchdog_monitor expected tks (watchdog_start expected start dev)"
  from snoc.prems have t: "sorted (start # map tk_now tks)" "\<forall>x \<in> set tks. tk_now x \<le> tk_now tk" "start \<le> tk_now tk"
    by (auto simp: sorted_append)
  obtain w' go where w': "watchdog_tick expected tk ?w = (w', go)" by fastforce
  have "last_seen_ok start tks expected ?w" using snoc.IH[OF t(1)] snoc.prems(2) by simp
  from tick_seen[OF this t(2,3) _ w'] snoc.prems(2) show ?case by (simp add: run_append w')
qed

lemma starved:
  assumes "sorted (start # map tk_now (tks @ [tk]))" "\<forall>x \<in> set (tks @ [tk]). \<not> tk_shutdown x"
    "s \<in> set expected" "\<forall>x \<in> set (tks @ [tk]). s \<in> set (tk_queue x) \<longrightarrow> tk_now x \<le> t" "start \<le> t"
    "t + from_secs 30 < tk_now tk"
  shows "wd_device (start_watchdog_monitor expected (tks @ [tk]) (watchdog_start expected start dev))
    = wd_device (start_watchdog_monitor expected tks (watchdog_start expected start dev))"
proof -
  let ?w = "start_watchdog_monitor expected tks (watchdog_start expected start dev)"
  have t: "sorted (start # map tk_now tks)" "\<forall>x \<in> set tks. tk_now x \<le> tk_now tk" "start \<le> tk_now tk"
    using assms(1) by (auto simp: sorted_append)
  obtain w' go where w': "watchdog_tick expected tk ?w = (w', go)" by fastforce
  have seen: "last_seen_ok start tks expected ?w" using run_seen[OF t(1)] assms(2) by simp
  have "\<not> fresh_after (tk_now tk) start (tks @ [tk]) s" using assms(4-6) by (fastforce simp: fresh_after_def)
  with tick_seen[OF seen t(2,3) _ w'] assms(2,3) show ?thesis by (auto simp: run_append w')
qed

definition pets :: "monitored_service list \<Rightarrow> instant \<Rightarrow> tick list \<Rightarrow> bytes" where
  "pets expected start tks = replicate (length (filter (healthy_at expected start tks) [0..<length tks])) 0"

lemma pets_snoc:
  "pets expected start (tks @ [tk]) =
     pets expected start tks @ (if \<forall>s \<in> set expected. fresh_after (tk_now tk) start (tks @ [tk]) s then [0] else [])"
proof -
  have "filter (healthy_at expected start (tks @ [tk])) [0..<length tks] = filter (healthy_at expected start tks) [0..<length tks]"
    by (rule filter_cong) (auto simp: healthy_prefix)
  then show ?thesis by (simp add: pets_def healthy_at_def replicate_append_same)
qed

definition ticks_ok :: "instant \<Rightarrow> tick list \<Rightarrow> bool" where
  "ticks_ok start tks \<longleftrightarrow> sorted (start # map tk_now tks) \<and> (\<forall>tk \<in> set tks. \<not> tk_shutdown tk \<and> tk_write_ok tk)"

lemma run_pets:
  assumes "ticks_ok start tks" "lw_open dev"
  shows "let w = start_watchdog_monitor expected tks (watchdog_start expected start dev) in
    last_seen_ok start tks expected w \<and> lw_open (wd_device w)
    \<and> lw_written (wd_device w) = lw_written dev @ pets expected start tks"
  using assms(1)
proof (induction tks rule: rev_induct)
  case Nil
  have len: "length (replicate MONITORED_SERVICE_COUNT None :: liveness_map) = 4" by (simp add: MONITORED_SERVICE_COUNT_def)
  from mark_all[OF len, of start expected] assms(2) show ?case
    by (simp add: last_seen_ok_def watchdog_start_def initial_liveness_def fresh_after_def pets_def)
next
  case (snoc tk tks)
  let ?w = "start_watchdog_monitor expected tks (watchdog_start expected start dev)"
  from snoc.prems have t: "ticks_ok start tks" "\<forall>x \<in> set tks. tk_now x \<le> tk_now tk" "start \<le> tk_now tk" "\<not> tk_shutdown tk"
    "tk_write_ok tk" by (auto simp: ticks_ok_def sorted_append)
  obtain w' go where w': "watchdog_tick expected tk ?w = (w', go)" by fastforce
  from snoc.IH[OF t(1)] have ih: "last_seen_ok start tks expected ?w" "lw_open (wd_device ?w)"
    "lw_written (wd_device ?w) = lw_written dev @ pets expected start tks" by (simp_all add: Let_def)
  have run: "start_watchdog_monitor expected (tks @ [tk]) (watchdog_start expected start dev) = w'"
    using tick_seen[OF ih(1) t(2-4) w'] t(1) by (simp add: run_append ticks_ok_def w')
  from tick_seen[OF ih(1) t(2-4) w'] ih(2,3) t(5) show ?case
    by (simp add: run pets_snoc keepalive_def KEEPALIVE_BYTE_def Let_def)
qed

text \<open>
  C24. The hardware watchdog is petted exactly while the system is alive: at each tick one keepalive
  byte is written if every expected service was heard from within the last thirty seconds (or
  the monitor started within them), and none otherwise; a clean shutdown writes the closing
  byte, and nothing is written afterwards. The time between two ticks is at most half the
  timeout of the device, whatever that is.
\<close>

theorem watchdog_pets_exactly:
  assumes "ticks_ok start tks" "lw_open dev" "tk_shutdown stop" "tk_write_ok stop"
  shows "lw_written (wd_device (start_watchdog_monitor expected tks (watchdog_start expected start dev)))
      = lw_written dev @ pets expected start tks
    \<and> lw_written (wd_device (start_watchdog_monitor expected (tks @ stop # rest) (watchdog_start expected start dev)))
      = lw_written dev @ pets expected start tks @ [86]
    \<and> (0 < hw \<longrightarrow> watchdog_interval (Some (from_secs hw)) \<le> from_secs hw div 2)"
proof -
  let ?w = "start_watchdog_monitor expected tks (watchdog_start expected start dev)"
  from run_pets[OF assms(1,2), of expected] have w: "lw_open (wd_device ?w)"
    "lw_written (wd_device ?w) = lw_written dev @ pets expected start tks" by (simp_all add: Let_def)
  have "start_watchdog_monitor expected (tks @ stop # rest) (watchdog_start expected start dev)
      = start_watchdog_monitor expected (stop # rest) ?w"
    using assms(1) by (simp add: run_append ticks_ok_def)
  with w assms(3,4) have
    "lw_written (wd_device (start_watchdog_monitor expected (tks @ stop # rest) (watchdog_start expected start dev)))
      = lw_written dev @ pets expected start tks @ [86]"
    by (simp add: watchdog_tick_def disarm_def MAGIC_CLOSE_BYTE_def)
  moreover have "0 < hw \<longrightarrow> watchdog_interval (Some (from_secs hw)) \<le> from_secs hw div 2"
    by (auto simp: watchdog_interval_def Let_def DEFAULT_WATCHDOG_INTERVAL_SECS_def from_secs_def)
  ultimately show ?thesis using w(2) by blast
qed

definition tick_at :: "nat \<Rightarrow> monitored_service list \<Rightarrow> bool \<Rightarrow> tick" where
  "tick_at secs queue stop = \<lparr> tk_now = from_secs secs, tk_queue = queue, tk_shutdown = stop, tk_write_ok = True \<rparr>"

theorem watchdog_pets_exactly_witness:
  "let expected = [MsDnsForwarder, MsDhcpClient]; dev = watchdog_open (True, 15);
       ticks = [tick_at 5 [MsDnsForwarder, MsDhcpClient] False, tick_at 35 [MsDnsForwarder] False,
                tick_at 40 [MsDnsForwarder] False]
   in lw_written (wd_device (start_watchdog_monitor expected ticks (watchdog_start expected 0 dev))) = [0, 0]
      \<and> lw_written (wd_device (start_watchdog_monitor expected (ticks @ [tick_at 45 [] True])
            (watchdog_start expected 0 dev))) = [0, 0, 86]"
proof -
  let ?e = "[MsDnsForwarder, MsDhcpClient]"
  let ?t = "[tick_at 5 [MsDnsForwarder, MsDhcpClient] False, tick_at 35 [MsDnsForwarder] False,
                tick_at 40 [MsDnsForwarder] False]"
  have "ticks_ok 0 ?t" by (simp add: ticks_ok_def tick_at_def)
  moreover have "pets ?e 0 ?t = [0, 0]"
  proof -
    have "healthy_at ?e 0 ?t 0" "healthy_at ?e 0 ?t (Suc 0)" "\<not> healthy_at ?e 0 ?t (Suc (Suc 0))"
      by (simp_all add: healthy_at_def fresh_after_def tick_at_def from_secs_def)
    moreover have "[0..<length ?t] = [0, Suc 0, Suc (Suc 0)]" by (simp add: upt_rec)
    ultimately show ?thesis by (simp add: pets_def)
  qed
  ultimately show ?thesis
    using watchdog_pets_exactly[of 0 ?t "watchdog_open (True, 15)" "tick_at 45 [] True" ?e "[]" 0]
    by (simp add: watchdog_open_def tick_at_def Let_def)
qed

end
