(* ===== verification/Wan_Liveness.thy ===== *)
theory Wan_Liveness
  imports Wan Watchdog
begin

text \<open>
  What the DHCP client does with foreign frames and with a silent server, and what that means
  for the watchdog, which is fed by the client's messages (\<open>handle_client_ipc_msg\<close> turns each
  of them into a heartbeat of the DHCP client).
\<close>

section \<open>Foreign frames\<close>

fun awaiting :: "client_phase \<Rightarrow> (u32 \<times> instant) option" where
  "awaiting (Discovering xid _ d) = Some (xid, d)"
| "awaiting (Requesting xid _ _ d) = Some (xid, d)"
| "awaiting (Renewing _ _ xid _ d) = Some (xid, d)"
| "awaiting _ = None"

text \<open>
  Only a reply to the client's own transaction has an effect: while the client waits for the
  server, a frame that is no DHCP message for the client port, is addressed to another hardware
  address or carries another transaction number changes nothing and causes no message.
\<close>

lemma foreign_frames_ignored:
  assumes "awaiting ph = Some (xid, deadline)" "ce_now env < deadline"
    "\<forall>m. own_packet P D mac frame = Some m \<longrightarrow> msg_xid m \<noteq> xid"
  shows "client_step P D mac env (ClFrame frame) ph = ([], ph)"
  using assms
  by (cases ph; cases "own_packet P D mac frame")
    (auto simp: Let_def still_waiting_def parse_offer_def parse_ack_nak_def)

lemma foreign_frames_ignored_example:
  "client_step wire_pnet server_codec (MacAddr 2 0 0 0 0 2) (client_env_at 0) (ClFrame []) (Discovering 9 4 5)
     = ([], Discovering 9 4 5)"
  by (rule foreign_frames_ignored[of _ 9 5]) (simp_all add: own_packet_def parse_dhcp_payload_def wire.views(1))

section \<open>A silent server\<close>

fun client_run :: "pnet_lib \<Rightarrow> dhcp_lib \<Rightarrow> mac \<Rightarrow> (client_env \<times> client_event) list \<Rightarrow> client_phase \<Rightarrow> client_out" where
  "client_run P D mac [] ph = ([], ph)"
| "client_run P D mac ((env, ev) # es) ph =
     (case client_step P D mac env ev ph of
        (out, ph') \<Rightarrow> (case client_run P D mac es ph' of (outs, ph'') \<Rightarrow> (out @ outs, ph'')))"

abbreviation timers :: "client_env list \<Rightarrow> (client_env \<times> client_event) list" where
  "timers envs \<equiv> map (\<lambda>env. (env, ClTimer)) envs"

lemma request_timer:
  assumes "client_step P D mac env ClTimer (Requesting xid off delay d) = (out, ph)"
  shows "(\<exists>delay' d'. ph = Requesting xid off delay' d')
    \<and> set out \<subseteq> {ClientHeartbeat, SendRequest xid (of_ip off) (of_server off) 0}"
  using assms by (auto simp: still_waiting_def request_round_def after_sending_def split: if_splits)

text \<open>
  A request that is never answered is repeated for ever: however many timeouts pass, the client
  stays in the request phase with the same offer and only repeats the same request; it never
  goes back to discovering another server.
\<close>

lemma request_never_restarts:
  "\<exists>delay d. snd (client_run P D mac (timers envs) (Requesting xid off delay0 d0)) = Requesting xid off delay d
    \<and> set (fst (client_run P D mac (timers envs) (Requesting xid off delay0 d0)))
        \<subseteq> {ClientHeartbeat, SendRequest xid (of_ip off) (of_server off) 0}"
proof (induction envs arbitrary: delay0 d0)
  case (Cons env envs)
  obtain out ph where s: "client_step P D mac env ClTimer (Requesting xid off delay0 d0) = (out, ph)" by fastforce
  from request_timer[OF s] obtain delay' d' where
    p: "ph = Requesting xid off delay' d'" and o: "set out \<subseteq> {ClientHeartbeat, SendRequest xid (of_ip off) (of_server off) 0}"
    by blast
  obtain outs ph' where r: "client_run P D mac (timers envs) ph = (outs, ph')" by fastforce
  have "client_run P D mac (timers (env # envs)) (Requesting xid off delay0 d0) = (out @ outs, ph')"
    by (simp only: list.map client_run.simps s prod.case r)
  moreover from Cons.IH[of delay' d', folded p] obtain delay d where
    "ph' = Requesting xid off delay d" "set outs \<subseteq> {ClientHeartbeat, SendRequest xid (of_ip off) (of_server off) 0}"
    by (auto simp: r)
  ultimately show ?case using o by (simp only: fst_conv snd_conv) auto
qed simp

lemma discover_timer:
  assumes "client_step P D mac env ClTimer (Discovering xid delay d) = (out, ph)"
  shows "(\<exists>delay' d'. ph = Discovering xid delay' d') \<and> set out \<subseteq> {ClientHeartbeat, SendDiscover xid}"
  using assms by (auto simp: still_waiting_def discover_round_def after_sending_def split: if_splits)

lemma discover_messages_harmless:
  "set ms \<subseteq> {ClientHeartbeat, SendDiscover xid} \<Longrightarrow> handle_all W N ms s = s"
  by (induction ms arbitrary: s) auto

text \<open>
  A lease outlives a client that crashed: when the channel of the worker closes, the parent
  leaves the published lease and the address as they are, and a restarted worker that finds no
  server repeats its discovery without ever clearing them, however long ago the lease ended.
\<close>

lemma lease_survives_crash:
  assumes "discover_phase env = (out, ph)" "client_run P D mac (timers envs) ph = (outs, ph')"
  shows "client_monitor_step W N ClientChannelClosed s = ([], [], s, False) \<and> handle_all W N (out @ outs) s = s"
proof -
  have run: "set (fst (client_run P D mac (timers envs) (Discovering xid delay d))) \<subseteq> {ClientHeartbeat, SendDiscover xid}"
    for xid delay d
  proof (induction envs arbitrary: delay d)
    case (Cons env envs)
    obtain out ph where s: "client_step P D mac env ClTimer (Discovering xid delay d) = (out, ph)" by fastforce
    from discover_timer[OF s] obtain delay' d' where
      p: "ph = Discovering xid delay' d'" and o: "set out \<subseteq> {ClientHeartbeat, SendDiscover xid}" by blast
    obtain outs ph' where r: "client_run P D mac (timers envs) ph = (outs, ph')" by fastforce
    have "client_run P D mac (timers (env # envs)) (Discovering xid delay d) = (out @ outs, ph')"
      by (simp only: list.map client_run.simps s prod.case r)
    with Cons.IH[of delay' d', folded p] o show ?case by (simp only: fst_conv r) auto
  qed simp
  obtain d where d: "ph = Discovering (ce_xid env) INITIAL_RETRY_DELAY_SECS d"
    and o: "set out \<subseteq> {ClientHeartbeat, SendDiscover (ce_xid env)}"
    using assms(1) by (auto simp: discover_phase_def discover_round_def after_sending_def split: if_splits)
  from run[of "ce_xid env" INITIAL_RETRY_DELAY_SECS d] assms(2) d
  have "set (out @ outs) \<subseteq> {ClientHeartbeat, SendDiscover (ce_xid env)}" using o by simp
  from discover_messages_harmless[OF this] show ?thesis by (simp del: handle_all_simps)
qed

lemma lease_survives_crash_example:
  "client_monitor_step demo_wan plain_netlink ClientChannelClosed (lease_of_ack demo_ack, wan_kernel)
     = ([], [], (lease_of_ack demo_ack, wan_kernel), False)"
  using lease_survives_crash[where env = "client_env_at 0" and envs = "[]" and P = wire_pnet and D = server_codec
      and mac = "MacAddr 2 0 0 0 0 2" and W = demo_wan and N = plain_netlink and s = "(lease_of_ack demo_ack, wan_kernel)",
      OF surjective_pairing surjective_pairing] by blast

section \<open>The watchdog and a silent server\<close>

text \<open>
  The client, its parent and the watchdog together: the parent turns each message of the client
  into a heartbeat in the watchdog's channel, and a tick of the watchdog takes all of them out.
\<close>

fun parent_beats ::
  "'n wan_setup \<Rightarrow> 'k netlink \<Rightarrow> dhcp_client_to_parent list \<Rightarrow> wan_lease \<times> 'k \<Rightarrow> monitored_service list
     \<Rightarrow> (wan_lease \<times> 'k) \<times> monitored_service list" where
  "parent_beats W N [] s q = (s, q)"
| "parent_beats W N (m # ms) s q =
     (case handle_client_ipc_msg W N m s of (effects, s') \<Rightarrow>
        parent_beats W N ms s' (send_service_heartbeat (WanHeartbeat \<in> set effects) MsDhcpClient q))"

definition usual_env :: "client_env \<Rightarrow> bool" where
  "usual_env env \<longleftrightarrow> f64_rounding (ce_rnd env) \<and> 0 \<le> ce_random env \<and> ce_random env < 1"

text \<open>No offer arrives: the wait ends by its timer, or a frame comes that is no offer for this transaction.\<close>

definition no_offer :: "pnet_lib \<Rightarrow> dhcp_lib \<Rightarrow> mac \<Rightarrow> client_event \<Rightarrow> bool" where
  "no_offer P D mac ev \<longleftrightarrow> (case ev of ClTimer \<Rightarrow> True
     | ClFrame f \<Rightarrow> (\<forall>xid. Option.bind (own_packet P D mac f) (\<lambda>m. parse_offer m xid) = None) | _ \<Rightarrow> False)"

text \<open>
  \<open>unanswered \<dots> t prev ph s q tks\<close>: at time \<open>t\<close> the client is in phase \<open>ph\<close>, after it entered
  discovery and no server answered; \<open>q\<close> is in the channel, and \<open>tks\<close> are the ticks so far, the latest one
  (or the start of the watchdog) at \<open>prev\<close>. What happened before discovery was entered is arbitrary.
\<close>

inductive unanswered ::
  "pnet_lib \<Rightarrow> dhcp_lib \<Rightarrow> mac \<Rightarrow> 'n wan_setup \<Rightarrow> 'k netlink \<Rightarrow> duration option \<Rightarrow> instant
     \<Rightarrow> instant \<Rightarrow> instant \<Rightarrow> client_phase \<Rightarrow> wan_lease \<times> 'k \<Rightarrow> monitored_service list \<Rightarrow> tick list \<Rightarrow> bool"
  for P D mac W N hw start where
  un_enter: "sorted (start # map tk_now tks @ [prev, ce_now env]) \<Longrightarrow> \<forall>tk \<in> set tks. \<not> tk_shutdown tk \<Longrightarrow> usual_env env \<Longrightarrow>
    discover_phase env = (out, ph) \<Longrightarrow> parent_beats W N out s q = (s', q') \<Longrightarrow>
    unanswered P D mac W N hw start (ce_now env) prev ph s' q' tks"
| un_client: "unanswered P D mac W N hw start t prev ph s q tks \<Longrightarrow> t \<le> ce_now env \<Longrightarrow> usual_env env \<Longrightarrow>
    no_offer P D mac ev \<Longrightarrow> client_step P D mac env ev ph = (out, ph') \<Longrightarrow> parent_beats W N out s q = (s', q') \<Longrightarrow>
    unanswered P D mac W N hw start (ce_now env) prev ph' s' q' tks"
| un_other: "unanswered P D mac W N hw start t prev ph s q tks \<Longrightarrow> svc \<noteq> MsDhcpClient \<Longrightarrow>
    unanswered P D mac W N hw start t prev ph s (send_service_heartbeat True svc q) tks"
| un_tick: "unanswered P D mac W N hw start t prev ph s q tks \<Longrightarrow> t \<le> now \<Longrightarrow> now \<le> prev + watchdog_interval hw \<Longrightarrow>
    unanswered P D mac W N hw start now now ph s []
      (tks @ [\<lparr> tk_now = now, tk_queue = q, tk_shutdown = False, tk_write_ok = write_ok \<rparr>])"

lemma from_secs_f64_at_least:
  assumes "of_nat k - 1 / 2 ^ 33 \<le> x"
  shows "from_secs k \<le> from_secs_f64 x"
proof -
  let ?y = "x * of_nat nanos_per_sec" and ?m = "int (k * nanos_per_sec)"
  have "(of_nat k - 1 / 2 ^ 33) * of_nat nanos_per_sec \<le> ?y" using assms by (intro mult_right_mono) simp_all
  then have y: "of_int ?m - 1 / 4 \<le> ?y" by (simp add: left_diff_distrib)
  show ?thesis
  proof (cases "?m \<le> \<lfloor>?y\<rfloor>")
    case True
    then have "k * nanos_per_sec \<le> nat \<lfloor>?y\<rfloor>" by linarith
    then show ?thesis unfolding from_secs_f64_def from_secs_def Let_def by (simp split: if_splits) linarith
  next
    case False
    have "?m - 1 \<le> \<lfloor>?y\<rfloor>" using y by (simp add: le_floor_iff)
    with False have f: "\<lfloor>?y\<rfloor> = ?m - 1" by simp
    have "?y - of_int \<lfloor>?y\<rfloor> > 1 / 2" unfolding f using y by simp
    then show ?thesis unfolding from_secs_f64_def from_secs_def Let_def f by simp
  qed
qed

lemma long_wait:
  assumes "usual_env env" shows "from_secs 63 \<le> get_jittered_duration (ce_rnd env) (ce_random env) 64"
proof -
  from assms have r: "f64_rounding (ce_rnd env)" "0 \<le> ce_random env" "ce_random env < 1" by (simp_all add: usual_env_def)
  have "64 + (ce_random env * 2 - 1) - f64_ulp \<le> ce_rnd env (64 + (ce_random env * 2 - 1))"
    using r by (auto simp: f64_rounding_def)
  with r(2) have "of_nat 63 - 1 / 2 ^ 33 \<le> ce_rnd env (64 + (ce_random env * 2 - 1))" by (simp add: f64_ulp_def)
  then show ?thesis
    by (auto simp: get_jittered_duration_def Let_def intro!: from_secs_f64_at_least)
qed

text \<open>A wait entered at \<open>t0\<close> lasts at least 63 seconds once the delay has grown to 64.\<close>

definition waiting_since :: "instant \<Rightarrow> client_phase \<Rightarrow> bool" where
  "waiting_since t0 ph \<longleftrightarrow> (\<exists>xid delay d. ph = Discovering xid delay d \<and> (delay = 64 \<longrightarrow> t0 + from_secs 63 \<le> d))"

lemma discover_waits: "usual_env env \<Longrightarrow> waiting_since (ce_now env) (snd (discover_round env xid delay))"
  using long_wait[of env] by (auto simp: waiting_since_def discover_round_def after_sending_def)

lemma unanswered_step:
  assumes "waiting_since t0 ph" "usual_env env" "no_offer P D mac ev" "client_step P D mac env ev ph = (out, ph')"
  shows "out = [] \<and> ph' = ph \<or> waiting_since (ce_now env) ph'"
proof -
  obtain xid delay d where ph: "ph = Discovering xid delay d" using assms(1) by (auto simp: waiting_since_def)
  have "client_step P D mac env ev ph = still_waiting env d ph (discover_round env xid (calculate_next_delay delay))"
    using assms(3) by (auto simp: ph no_offer_def Let_def split: client_event.splits option.splits)
  with assms(4) discover_waits[OF assms(2), of xid "calculate_next_delay delay"] show ?thesis
    by (auto simp: still_waiting_def split: if_splits)
qed

lemma unanswered_invariant:
  assumes "unanswered P D mac W N hw start t prev ph s q tks"
  shows "\<exists>t0 \<ge> start. waiting_since t0 ph \<and> (MsDhcpClient \<in> set q \<longrightarrow> prev \<le> t0)
    \<and> (\<forall>tk \<in> set tks. \<not> tk_shutdown tk \<and> (MsDhcpClient \<in> set (tk_queue tk) \<longrightarrow> tk_now tk \<le> t0 + from_secs 5))
    \<and> sorted (start # map tk_now tks @ [prev, t])"
  using assms
proof induction
  case (un_enter tks prev env out ph s q s' q')
  from un_enter.hyps(4) discover_waits[OF un_enter.hyps(3), of "ce_xid env" INITIAL_RETRY_DELAY_SECS]
  have "waiting_since (ce_now env) ph" by (simp add: discover_phase_def)
  with un_enter.hyps(1,2) show ?case by (intro exI[of _ "ce_now env"]) (auto simp: sorted_append)
next
  case (un_client t prev ph s q tks env ev out ph' s' q')
  from un_client.IH obtain t0 where t0: "start \<le> t0" "waiting_since t0 ph" "MsDhcpClient \<in> set q \<longrightarrow> prev \<le> t0"
    "\<forall>tk \<in> set tks. \<not> tk_shutdown tk \<and> (MsDhcpClient \<in> set (tk_queue tk) \<longrightarrow> tk_now tk \<le> t0 + from_secs 5)"
    "sorted (start # map tk_now tks @ [prev, t])" by blast
  from t0(5) un_client.hyps(2) have srt: "sorted (start # map tk_now tks @ [prev, ce_now env])" by (auto simp: sorted_append)
  from unanswered_step[OF t0(2) un_client.hyps(3-5)] show ?case
  proof
    assume "out = [] \<and> ph' = ph"
    with un_client.hyps(6) t0 srt show ?thesis by (intro exI[of _ t0]) auto
  next
    assume "waiting_since (ce_now env) ph'"
    with srt t0(4) show ?thesis by (intro exI[of _ "ce_now env"]) (auto simp: sorted_append intro: order_trans trans_le_add1)
  qed
next
  case (un_other t prev ph s q tks svc)
  then show ?case by (auto simp: send_service_heartbeat_def)
next
  case (un_tick t prev ph s q tks now write_ok)
  from un_tick.IH obtain t0 where t0: "start \<le> t0" "waiting_since t0 ph" "MsDhcpClient \<in> set q \<longrightarrow> prev \<le> t0"
    "\<forall>tk \<in> set tks. \<not> tk_shutdown tk \<and> (MsDhcpClient \<in> set (tk_queue tk) \<longrightarrow> tk_now tk \<le> t0 + from_secs 5)"
    "sorted (start # map tk_now tks @ [prev, t])" by blast
  have "watchdog_interval hw \<le> from_secs 5"
    by (auto simp: watchdog_interval_def Let_def DEFAULT_WATCHDOG_INTERVAL_SECS_def split: option.splits)
  with t0 un_tick.hyps(2,3) show ?case by (intro exI[of _ t0]) (auto simp: sorted_append)
qed


lemma from_secs_f64_nat: "from_secs_f64 (of_nat k) = from_secs k"
proof -
  have "of_nat k * of_nat nanos_per_sec = (of_nat (k * nanos_per_sec) :: rat)" by simp
  then show ?thesis unfolding from_secs_f64_def from_secs_def Let_def by (simp only: floor_of_nat of_int_of_nat_eq) simp
qed

lemma jitter_free:
  assumes "1 \<le> unat n"
  shows "get_jittered_duration (ce_rnd (client_env_at t)) (ce_random (client_env_at t)) n = from_secs (unat n)"
proof -
  have "max (of_nat (unat n)) 1 = (of_nat (unat n) :: rat)" using assms by (simp add: max_absorb1 del: of_nat_unat)
  then show ?thesis by (simp add: get_jittered_duration_def client_env_at_def Let_def from_secs_f64_nat del: of_nat_unat)
qed

lemma discover_timeout:
  assumes "d \<le> t" "1 \<le> unat (calculate_next_delay delay)"
  shows "client_step P D mac (client_env_at t) ClTimer (Discovering xid delay d)
    = ([ClientHeartbeat, SendDiscover xid], Discovering xid (calculate_next_delay delay) (t + from_secs (unat (calculate_next_delay delay))))"
  using assms by (simp add: still_waiting_def discover_round_def after_sending_def jitter_free)

lemma usual_client_env: "usual_env (client_env_at t)"
  by (simp add: usual_env_def client_env_at_def f64_rounding_def mono_def f64_ulp_def)

lemma ticks_go_on:
  assumes "unanswered P D mac W N None start t (from_secs (5 * k)) ph s q tks" "t \<le> from_secs (5 * k)" "n \<noteq> 0"
  shows "\<exists>tks' tk. unanswered P D mac W N None start (from_secs (5 * (k + n))) (from_secs (5 * (k + n))) ph s [] (tks' @ [tk])
    \<and> tk_now tk = from_secs (5 * (k + n))"
  using assms(3)
proof (induction n)
  case (Suc n)
  have iv: "watchdog_interval None = from_secs 5" by (simp add: watchdog_interval_def DEFAULT_WATCHDOG_INTERVAL_SECS_def)
  have step: "\<exists>tks' tk. unanswered P D mac W N None start (from_secs (5 * (k + Suc n))) (from_secs (5 * (k + Suc n))) ph s [] (tks' @ [tk])
    \<and> tk_now tk = from_secs (5 * (k + Suc n))"
    if "unanswered P D mac W N None start t' (from_secs (5 * (k + n))) ph s q' tks'" "t' \<le> from_secs (5 * (k + n))" for t' q' tks'
    using un_tick[OF that(1), of "from_secs (5 * (k + Suc n))" True] that(2) iv
    by (force simp: from_secs_def)
  show ?case
  proof (cases n)
    case 0
    with assms(1,2) step[of t q tks] show ?thesis by simp
  next
    case (Suc m)
    with Suc.IH step show ?thesis by blast
  qed
qed simp

lemma later_discovery:
  assumes "unanswered P D mac W N None start (from_secs (5 * k)) (from_secs (5 * k)) (Discovering 7 delay (from_secs b)) s q tks"
    "b \<le> 5 * (k + n)" "n \<noteq> 0" "1 \<le> unat (calculate_next_delay delay)"
  shows "\<exists>s' q' tks'. unanswered P D mac W N None start (from_secs (5 * (k + n))) (from_secs (5 * (k + n)))
    (Discovering 7 (calculate_next_delay delay) (from_secs (5 * (k + n) + unat (calculate_next_delay delay)))) s' q' tks'"
proof -
  let ?env = "client_env_at (from_secs (5 * (k + n)))"
  have now: "ce_now ?env = from_secs (5 * (k + n))" by (simp add: client_env_at_def)
  have t: "from_secs b \<le> from_secs (5 * (k + n))" using assms(2) by (simp add: from_secs_def)
  obtain tks' tk where u: "unanswered P D mac W N None start (from_secs (5 * (k + n))) (from_secs (5 * (k + n)))
      (Discovering 7 delay (from_secs b)) s [] (tks' @ [tk])" using ticks_go_on[OF assms(1) _ assms(3)] by blast
  obtain s' q' where b: "parent_beats W N [ClientHeartbeat, SendDiscover 7] s [] = (s', q')" by (metis surj_pair)
  have add: "from_secs x + from_secs y = from_secs (x + y)" for x y by (simp add: from_secs_def)
  from un_client[OF u _ usual_client_env _ discover_timeout[OF t assms(4)] b] show ?thesis
    unfolding now add by (intro exI[of _ s'] exI[of _ q'] exI[of _ "tks' @ [tk]"]) (simp add: no_offer_def)
qed


end
