(* ===== verification/Firewall.thy ===== *)
theory Firewall
  imports Config
begin

text \<open>
  The packet filter, \<open>init/firewall.rs\<close>: the rules it builds from the interface names and the
  port forwards, and the two batches it sends. The rule builder and the transport are the crate
  \<open>rustables\<close>, the evaluation is the kernel's: the fields of \<open>nft_lib\<close>. A rule is the list of
  its builder calls; the conntrack test of \<open>ct_state\<close> (load the state, mask it, compare with
  zero) is one expression, and so is the translation of \<open>dnat\<close>.
\<close>

section \<open>Rules\<close>

datatype nft_proto = NftTcp | NftUdp

datatype nft_match =
    MatchIif string
  | MatchOif string
  | MatchDport nft_proto u16
  | MatchIcmp
  | MatchCtState u32

datatype nft_action = ActAccept | ActDrop | ActMasquerade | ActDnat ip u16

record nft_rule =
  nr_chain :: string
  nr_matches :: "nft_match list"
  nr_action :: nft_action

datatype nft_hook = HookPreRouting int | HookPostRouting int | HookIn int
datatype nft_chain_type = ChainNat | ChainFilter

record nft_chain =
  nc_name :: string
  nc_hook :: nft_hook
  nc_type :: nft_chain_type
  nc_policy :: nft_action

datatype nft_object = ObjTable string | ObjChain nft_chain | ObjRule nft_rule
datatype nft_message = NftAdd nft_object | NftDel nft_object
datatype send_result = SendOk | SendNoEntry | SendError

text \<open>The state bits of connection tracking.\<close>

definition CT_INVALID :: u32 where "CT_INVALID = 1"
definition CT_ESTABLISHED :: u32 where "CT_ESTABLISHED = 2"
definition CT_RELATED :: u32 where "CT_RELATED = 4"

definition NF_HOOK_PRIORITY_NAT_DST :: int where "NF_HOOK_PRIORITY_NAT_DST = - 100"
definition NF_HOOK_PRIORITY_NAT :: int where "NF_HOOK_PRIORITY_NAT = 100"
definition NF_HOOK_PRIORITY_FILTER :: int where "NF_HOOK_PRIORITY_FILTER = 0"
definition IFNAMSIZ :: nat where "IFNAMSIZ = 16"

record ('k, 'p) nft_lib =
  nft_iface_ok :: "string \<Rightarrow> bool"
  nft_send :: "nft_message list \<Rightarrow> 'k \<Rightarrow> send_result \<times> 'k"
  nft_eval :: "nft_rule list \<Rightarrow> nft_action \<Rightarrow> 'p \<Rightarrow> nft_action"
  pkt_iif :: "'p \<Rightarrow> string"
  pkt_oif :: "'p \<Rightarrow> string"
  pkt_dport :: "'p \<Rightarrow> (nft_proto \<times> u16) option"
  pkt_icmp :: "'p \<Rightarrow> bool"
  pkt_ct_state :: "'p \<Rightarrow> u32"

definition validate_interface_name :: "string \<Rightarrow> router_error + unit" where
  "validate_interface_name name =
     (if name = [] \<or> IFNAMSIZ \<le> length name \<or> char_of (0 :: nat) \<in> set name then Inl Generic else Inr ())"

definition check_ifaces :: "('k, 'p) nft_lib \<Rightarrow> nft_match list \<Rightarrow> bool" where
  "check_ifaces F ms \<longleftrightarrow> (\<forall>m \<in> set ms. case m of MatchIif n \<Rightarrow> nft_iface_ok F n | MatchOif n \<Rightarrow> nft_iface_ok F n | _ \<Rightarrow> True)"

definition rule :: "('k, 'p) nft_lib \<Rightarrow> string \<Rightarrow> nft_match list \<Rightarrow> nft_action \<Rightarrow> router_error + nft_rule" where
  "rule F chain ms act =
     (if check_ifaces F ms then Inr \<lparr> nr_chain = chain, nr_matches = ms, nr_action = act \<rparr> else Inl Generic)"

definition ct_invalid :: nft_match where "ct_invalid = MatchCtState CT_INVALID"
definition ct_established_and_related :: nft_match where
  "ct_established_and_related = MatchCtState (CT_ESTABLISHED OR CT_RELATED)"

fun collect_rules :: "(router_error + nft_rule) list \<Rightarrow> router_error + nft_rule list" where
  "collect_rules [] = Inr []"
| "collect_rules (r # rs) = and_then r (\<lambda>x. and_then (collect_rules rs) (\<lambda>xs. Inr (x # xs)))"

definition build_single_dnat_rule ::
  "('k, 'p) nft_lib \<Rightarrow> string \<Rightarrow> string \<Rightarrow> nft_proto \<Rightarrow> u16 \<Rightarrow> ip \<Rightarrow> u16 \<Rightarrow> router_error + nft_rule" where
  "build_single_dnat_rule F chain wan proto ext_port int_ip int_port =
     rule F chain [MatchIif wan, MatchDport proto ext_port] (ActDnat int_ip int_port)"

fun build_dnat_rules :: "('k, 'p) nft_lib \<Rightarrow> string \<Rightarrow> string \<Rightarrow> port_forward_rule list \<Rightarrow> router_error + nft_rule list" where
  "build_dnat_rules F chain wan [] = Inr []"
| "build_dnat_rules F chain wan (r # rs) =
     and_then (if pf_protocol r = Tcp \<or> pf_protocol r = Both
               then and_then (build_single_dnat_rule F chain wan NftTcp (pf_external_port r) (pf_internal_ip r) (pf_internal_port r))
                      (\<lambda>x. Inr [x])
               else Inr []) (\<lambda>tcp.
     and_then (if pf_protocol r = Udp \<or> pf_protocol r = Both
               then and_then (build_single_dnat_rule F chain wan NftUdp (pf_external_port r) (pf_internal_ip r) (pf_internal_port r))
                      (\<lambda>x. Inr [x])
               else Inr []) (\<lambda>udp.
     and_then (build_dnat_rules F chain wan rs) (\<lambda>rest. Inr (tcp @ udp @ rest))))"

definition build_nat_rule :: "('k, 'p) nft_lib \<Rightarrow> string \<Rightarrow> string \<Rightarrow> router_error + nft_rule" where
  "build_nat_rule F chain wan = rule F chain [MatchOif wan] ActMasquerade"

definition build_filter_rules :: "('k, 'p) nft_lib \<Rightarrow> string \<Rightarrow> string \<Rightarrow> string \<Rightarrow> router_error + nft_rule list" where
  "build_filter_rules F chain wan lan =
     collect_rules [
       rule F chain [ct_invalid] ActDrop,
       rule F chain [MatchIif ''lo''] ActAccept,
       rule F chain [ct_established_and_related] ActAccept,
       rule F chain [MatchIif lan] ActAccept,
       rule F chain [MatchIif wan, MatchDport NftUdp CLIENT_PORT] ActAccept,
       rule F chain [MatchIcmp] ActAccept]"

section \<open>Configuration\<close>

definition TRIMROUTER_TABLE :: nft_object where "TRIMROUTER_TABLE = ObjTable ''trimrouter''"

definition flush_existing_table :: "('k, 'p) nft_lib \<Rightarrow> 'k \<Rightarrow> (router_error + unit) \<times> 'k" where
  "flush_existing_table F k =
     (case nft_send F [NftDel TRIMROUTER_TABLE] k of
        (SendError, k') \<Rightarrow> (Inl Netlink, k')
      | (_, k') \<Rightarrow> (Inr (), k'))"

definition nat_prerouting :: nft_chain where
  "nat_prerouting = \<lparr> nc_name = ''nat_prerouting'', nc_hook = HookPreRouting NF_HOOK_PRIORITY_NAT_DST,
     nc_type = ChainNat, nc_policy = ActAccept \<rparr>"

definition nat_postrouting :: nft_chain where
  "nat_postrouting = \<lparr> nc_name = ''nat_postrouting'', nc_hook = HookPostRouting NF_HOOK_PRIORITY_NAT,
     nc_type = ChainNat, nc_policy = ActAccept \<rparr>"

definition filter_chain :: nft_chain where
  "filter_chain = \<lparr> nc_name = ''filter_input'', nc_hook = HookIn NF_HOOK_PRIORITY_FILTER,
     nc_type = ChainFilter, nc_policy = ActDrop \<rparr>"

definition firewall_batch ::
  "('k, 'p) nft_lib \<Rightarrow> string \<Rightarrow> string \<Rightarrow> port_forward_rule list \<Rightarrow> router_error + nft_message list" where
  "firewall_batch F wan lan forwards =
     and_then (build_dnat_rules F (nc_name nat_prerouting) wan forwards) (\<lambda>dnat.
     and_then (build_nat_rule F (nc_name nat_postrouting) wan) (\<lambda>masq.
     and_then (build_filter_rules F (nc_name filter_chain) wan lan) (\<lambda>filters.
     Inr (map NftAdd ([TRIMROUTER_TABLE, ObjChain nat_prerouting, ObjChain nat_postrouting, ObjChain filter_chain]
                      @ map ObjRule dnat @ [ObjRule masq] @ map ObjRule filters)))))"

definition configure_firewall ::
  "('k, 'p) nft_lib \<Rightarrow> string \<Rightarrow> string \<Rightarrow> port_forward_rule list \<Rightarrow> 'k \<Rightarrow> (router_error + unit) \<times> 'k" where
  "configure_firewall F wan lan forwards k =
     (case and_then (validate_interface_name wan) (\<lambda>_.
           and_then (validate_interface_name lan) (\<lambda>_. if wan = lan then Inl Generic else Inr ())) of
        Inl e \<Rightarrow> (Inl e, k)
      | Inr u \<Rightarrow>
          (case flush_existing_table F k of
             (Inl e, k1) \<Rightarrow> (Inl e, k1)
           | (Inr u, k1) \<Rightarrow>
               (case firewall_batch F wan lan forwards of
                  Inl e \<Rightarrow> (Inl e, k1)
                | Inr batch \<Rightarrow>
                    (case nft_send F batch k1 of
                       (SendOk, k2) \<Rightarrow> (Inr (), k2)
                     | (_, k2) \<Rightarrow> (Inl Netlink, k2)))))"

section \<open>What the kernel promises\<close>

text \<open>
  The builder accepts interface names of at most 15 bytes. A chain is evaluated rule by rule: the
  first rule whose conditions all hold decides, and the policy decides when there is none. A
  conntrack condition holds when the packet's state has a bit in common with the mask.
\<close>

definition matches :: "('k, 'p) nft_lib \<Rightarrow> 'p \<Rightarrow> nft_match \<Rightarrow> bool" where
  "matches F p m \<longleftrightarrow> (case m of
      MatchIif n \<Rightarrow> pkt_iif F p = n
    | MatchOif n \<Rightarrow> pkt_oif F p = n
    | MatchDport proto port \<Rightarrow> pkt_dport F p = Some (proto, port)
    | MatchIcmp \<Rightarrow> pkt_icmp F p
    | MatchCtState bits \<Rightarrow> pkt_ct_state F p AND bits \<noteq> 0)"

definition nft_laws :: "('k, 'p) nft_lib \<Rightarrow> bool" where
  "nft_laws F \<longleftrightarrow> (\<forall>n. length n < 16 \<longrightarrow> nft_iface_ok F n)
     \<and> (\<forall>policy p. nft_eval F [] policy p = policy)
     \<and> (\<forall>r rs policy p. nft_eval F (r # rs) policy p =
          (if list_all (matches F p) (nr_matches r) then nr_action r else nft_eval F rs policy p))"

definition rules_of :: "string \<Rightarrow> nft_message list \<Rightarrow> nft_rule list" where
  "rules_of chain batch = List.map_filter (\<lambda>m. case m of NftAdd (ObjRule r) \<Rightarrow> if nr_chain r = chain then Some r else None
                                         | _ \<Rightarrow> None) batch"

lemma rules_of_append [simp]: "rules_of c (xs @ ys) = rules_of c xs @ rules_of c ys"
  by (induction xs) (auto simp: rules_of_def map_filter_simps split: option.split)

lemma rules_of_other [simp]:
  "rules_of c [] = []" "rules_of c (NftAdd (ObjTable t) # ms) = rules_of c ms" "rules_of c (NftAdd (ObjChain ch) # ms) = rules_of c ms"
  "rules_of c (NftAdd (ObjRule r) # ms) = (if nr_chain r = c then r # rules_of c ms else rules_of c ms)"
  by (simp_all add: rules_of_def map_filter_simps)

lemma rules_of_rules [simp]:
  "rules_of c (map (NftAdd \<circ> ObjRule) rs) = filter (\<lambda>r. nr_chain r = c) rs"
  by (induction rs) simp_all

fun forward_of :: "port_forward_rule list \<Rightarrow> nft_proto \<times> u16 \<Rightarrow> (ip \<times> u16) option" where
  "forward_of [] k = None"
| "forward_of (r # rs) (proto, port) =
     (if pf_external_port r = port \<and> (pf_protocol r = Both \<or> pf_protocol r = (case proto of NftTcp \<Rightarrow> Tcp | NftUdp \<Rightarrow> Udp))
      then Some (pf_internal_ip r, pf_internal_port r) else forward_of rs (proto, port))"

lemma valid_names_accepted:
  assumes "nft_laws F" "validate_interface_name n = Inr ()"
  shows "nft_iface_ok F n"
  using assms by (auto simp: nft_laws_def validate_interface_name_def IFNAMSIZ_def split: if_splits)

lemma rule_built:
  assumes "check_ifaces F ms"
  shows "rule F chain ms act = Inr \<lparr> nr_chain = chain, nr_matches = ms, nr_action = act \<rparr>"
  using assms by (simp add: rule_def)

lemma eval_rule:
  assumes "nft_laws F"
  shows "nft_eval F [] policy p = policy"
    "nft_eval F (\<lparr> nr_chain = c, nr_matches = ms, nr_action = act \<rparr> # rs) policy p =
       (if list_all (matches F p) ms then act else nft_eval F rs policy p)"
  using assms by (simp_all add: nft_laws_def)

lemma dnat_rules_eval:
  assumes "nft_laws F" "nft_iface_ok F wan"
  shows "\<exists>rs. build_dnat_rules F chain wan forwards = Inr rs \<and> (\<forall>r \<in> set rs. nr_chain r = chain)
    \<and> (\<forall>p. nft_eval F rs ActAccept p =
          (case (if pkt_iif F p = wan then Option.bind (pkt_dport F p) (forward_of forwards) else None) of
             Some (i, port) \<Rightarrow> ActDnat i port | None \<Rightarrow> ActAccept))"
proof (induction forwards)
  case Nil
  then show ?case by (simp add: eval_rule(1)[OF assms(1)] split: Option.bind_split)
next
  case (Cons r forwards)
  then obtain rs where rs: "build_dnat_rules F chain wan forwards = Inr rs" "\<forall>r \<in> set rs. nr_chain r = chain"
    "\<And>p. nft_eval F rs ActAccept p =
          (case (if pkt_iif F p = wan then Option.bind (pkt_dport F p) (forward_of forwards) else None) of
             Some (i, port) \<Rightarrow> ActDnat i port | None \<Rightarrow> ActAccept)" by blast
  have single: "build_single_dnat_rule F chain wan proto port i q
      = Inr \<lparr> nr_chain = chain, nr_matches = [MatchIif wan, MatchDport proto port], nr_action = ActDnat i q \<rparr>" for proto port i q
    using assms(2) by (simp add: build_single_dnat_rule_def rule_def check_ifaces_def)
  have proto: "a = NftTcp \<or> a = NftUdp" for a by (cases a) simp_all
  show ?case
    by (cases "pf_protocol r")
      (use proto in \<open>auto simp: single rs(1,2) eval_rule(2)[OF assms(1)] rs(3) matches_def split: nft_proto.splits option.splits Option.bind_splits\<close>)
qed

lemma filter_rules_built:
  assumes "nft_laws F" "nft_iface_ok F wan" "nft_iface_ok F lan"
  shows "\<exists>rs. build_filter_rules F chain wan lan = Inr rs \<and> (\<forall>r \<in> set rs. nr_chain r = chain)
    \<and> (\<forall>p. nft_eval F rs ActDrop p =
          (if pkt_ct_state F p AND 1 = 0
              \<and> (pkt_iif F p = ''lo'' \<or> pkt_ct_state F p AND 6 \<noteq> 0 \<or> pkt_iif F p = lan
                 \<or> pkt_iif F p = wan \<and> pkt_dport F p = Some (NftUdp, 68) \<or> pkt_icmp F p)
           then ActAccept else ActDrop))"
proof -
  have lo: "nft_iface_ok F ''lo''" using assms(1) by (simp add: nft_laws_def)
  have "(CT_ESTABLISHED OR CT_RELATED) = 6" by (simp add: CT_ESTABLISHED_def CT_RELATED_def)
  then show ?thesis
    by (simp add: build_filter_rules_def rule_def check_ifaces_def assms(2,3) lo eval_rule[OF assms(1)] matches_def
        ct_invalid_def ct_established_and_related_def CT_INVALID_def CLIENT_PORT_def)
qed

lemma firewall_batch_decides:
  assumes "nft_laws F" "validate_interface_name wan = Inr ()" "validate_interface_name lan = Inr ()"
  shows "\<exists>batch. firewall_batch F wan lan forwards = Inr batch
    \<and> (\<forall>p. nft_eval F (rules_of ''filter_input'' batch) (nc_policy filter_chain) p =
          (if pkt_ct_state F p AND 1 = 0
              \<and> (pkt_iif F p = ''lo'' \<or> pkt_ct_state F p AND 6 \<noteq> 0 \<or> pkt_iif F p = lan
                 \<or> pkt_iif F p = wan \<and> pkt_dport F p = Some (NftUdp, 68) \<or> pkt_icmp F p)
           then ActAccept else ActDrop))
    \<and> (\<forall>p. nft_eval F (rules_of ''nat_prerouting'' batch) (nc_policy nat_prerouting) p =
          (case (if pkt_iif F p = wan then Option.bind (pkt_dport F p) (forward_of forwards) else None) of
             Some (i, port) \<Rightarrow> ActDnat i port | None \<Rightarrow> ActAccept))"
proof -
  note ok = valid_names_accepted[OF assms(1,2)] valid_names_accepted[OF assms(1,3)]
  obtain ds where d: "build_dnat_rules F (nc_name nat_prerouting) wan forwards = Inr ds" "\<forall>r \<in> set ds. nr_chain r = ''nat_prerouting''"
    "\<And>p. nft_eval F ds ActAccept p =
          (case (if pkt_iif F p = wan then Option.bind (pkt_dport F p) (forward_of forwards) else None) of
             Some (i, port) \<Rightarrow> ActDnat i port | None \<Rightarrow> ActAccept)"
    using dnat_rules_eval[OF assms(1) ok(1), of "nc_name nat_prerouting" forwards] by (auto simp: nat_prerouting_def)
  obtain fs where f: "build_filter_rules F (nc_name filter_chain) wan lan = Inr fs" "\<forall>r \<in> set fs. nr_chain r = ''filter_input''"
    "\<And>p. nft_eval F fs ActDrop p =
          (if pkt_ct_state F p AND 1 = 0
              \<and> (pkt_iif F p = ''lo'' \<or> pkt_ct_state F p AND 6 \<noteq> 0 \<or> pkt_iif F p = lan
                 \<or> pkt_iif F p = wan \<and> pkt_dport F p = Some (NftUdp, 68) \<or> pkt_icmp F p)
           then ActAccept else ActDrop)"
    using filter_rules_built[OF assms(1) ok, of "nc_name filter_chain"] by (auto simp: filter_chain_def)
  have m: "build_nat_rule F (nc_name nat_postrouting) wan
      = Inr \<lparr> nr_chain = ''nat_postrouting'', nr_matches = [MatchOif wan], nr_action = ActMasquerade \<rparr>"
    using ok(1) by (simp add: build_nat_rule_def rule_def check_ifaces_def nat_postrouting_def)
  let ?m = "\<lparr> nr_chain = ''nat_postrouting'', nr_matches = [MatchOif wan], nr_action = ActMasquerade \<rparr>"
  let ?b = "map NftAdd ([TRIMROUTER_TABLE, ObjChain nat_prerouting, ObjChain nat_postrouting, ObjChain filter_chain]
      @ map ObjRule ds @ [ObjRule ?m] @ map ObjRule fs)"
  have "firewall_batch F wan lan forwards = Inr ?b" by (simp add: firewall_batch_def d(1) m f(1))
  moreover have "rules_of ''filter_input'' ?b = fs" "rules_of ''nat_prerouting'' ?b = ds"
    using d(2) f(2) by (auto simp: TRIMROUTER_TABLE_def filter_empty_conv)
  ultimately show ?thesis using d(3) f(3) by (simp add: filter_chain_def nat_prerouting_def)
qed

text \<open>
  C11. The firewall lets in what it should and nothing else. With valid distinct interface names the
  rules are built, and they decide as follows. Of the packets for the router itself, those of
  an invalid connection are dropped; of the others exactly those are accepted that come from the
  loopback or LAN interface, belong to a known connection, are DHCP replies on the WAN interface
  or are ICMP. A packet that arrives on the WAN interface for a forwarded port and protocol is
  redirected to the internal address and port of the first forward for them, and no other packet
  is redirected.
\<close>

theorem firewall_policy:
  assumes "nft_laws F" "validate_interface_name wan = Inr ()" "validate_interface_name lan = Inr ()"
  shows "\<exists>batch. firewall_batch F wan lan forwards = Inr batch
    \<and> (\<forall>p. nft_eval F (rules_of ''filter_input'' batch) (nc_policy filter_chain) p =
          (if pkt_ct_state F p AND 1 = 0
              \<and> (pkt_iif F p = ''lo'' \<or> pkt_ct_state F p AND 6 \<noteq> 0 \<or> pkt_iif F p = lan
                 \<or> pkt_iif F p = wan \<and> pkt_dport F p = Some (NftUdp, 68) \<or> pkt_icmp F p)
           then ActAccept else ActDrop))
    \<and> (\<forall>p. nft_eval F (rules_of ''nat_prerouting'' batch) (nc_policy nat_prerouting) p =
          (case (if pkt_iif F p = wan then Option.bind (pkt_dport F p) (forward_of forwards) else None) of
             Some (i, port) \<Rightarrow> ActDnat i port | None \<Rightarrow> ActAccept))"
  by (rule firewall_batch_decides[OF assms])

section \<open>A concrete filter\<close>

record plain_packet =
  pp_iif :: string
  pp_oif :: string
  pp_dport :: "(nft_proto \<times> u16) option"
  pp_icmp :: bool
  pp_ct :: u32

fun plain_eval :: "('p \<Rightarrow> nft_match \<Rightarrow> bool) \<Rightarrow> nft_rule list \<Rightarrow> nft_action \<Rightarrow> 'p \<Rightarrow> nft_action" where
  "plain_eval mt [] policy p = policy"
| "plain_eval mt (r # rs) policy p = (if list_all (mt p) (nr_matches r) then nr_action r else plain_eval mt rs policy p)"

text \<open>The kernel state is the installed batch, if any; a batch that adds can be made to fail.\<close>

definition plain_fields :: "bool \<Rightarrow> (nft_message list option, plain_packet) nft_lib" where
  "plain_fields works = \<lparr>
     nft_iface_ok = (\<lambda>n. length n < 16),
     nft_send = (\<lambda>b k. if b = [NftDel TRIMROUTER_TABLE] then (if k = None then SendNoEntry else SendOk, None)
                      else if works then (SendOk, Some b) else (SendError, k)),
     nft_eval = (\<lambda>_ policy _. policy), pkt_iif = pp_iif, pkt_oif = pp_oif, pkt_dport = pp_dport, pkt_icmp = pp_icmp,
     pkt_ct_state = pp_ct \<rparr>"

definition plain_nft :: "bool \<Rightarrow> (nft_message list option, plain_packet) nft_lib" where
  "plain_nft works = (plain_fields works)\<lparr> nft_eval := plain_eval (matches (plain_fields works)) \<rparr>"

lemma plain_nft_laws: "nft_laws (plain_nft works)"
proof -
  have "matches (plain_nft works) = matches (plain_fields works)"
    by (simp add: fun_eq_iff matches_def plain_nft_def plain_fields_def split: nft_match.split)
  then show ?thesis by (simp add: nft_laws_def) (simp add: plain_nft_def plain_fields_def)
qed

definition ssh_from_wan :: plain_packet where
  "ssh_from_wan = \<lparr> pp_iif = ''wan'', pp_oif = [], pp_dport = Some (NftTcp, 22), pp_icmp = False, pp_ct = 8 \<rparr>"

definition ssh_forward :: port_forward_rule where
  "ssh_forward = \<lparr> pf_protocol = Tcp, pf_external_port = 22, pf_internal_ip = 7, pf_internal_port = 2222, pf_description = None \<rparr>"

theorem firewall_policy_witness:
  "\<exists>batch. firewall_batch (plain_nft True) ''wan'' ''lan'' [ssh_forward] = Inr batch
    \<and> nft_eval (plain_nft True) (rules_of ''filter_input'' batch) ActDrop ssh_from_wan = ActDrop
    \<and> nft_eval (plain_nft True) (rules_of ''nat_prerouting'' batch) ActAccept ssh_from_wan = ActDnat 7 2222"
proof -
  have v: "validate_interface_name ''wan'' = Inr ()" "validate_interface_name ''lan'' = Inr ()"
    by (simp_all add: validate_interface_name_def IFNAMSIZ_def char_of_def)
  have p: "pkt_iif (plain_nft True) ssh_from_wan = ''wan''" "pkt_ct_state (plain_nft True) ssh_from_wan = 8"
    "pkt_dport (plain_nft True) ssh_from_wan = Some (NftTcp, 22)" "\<not> pkt_icmp (plain_nft True) ssh_from_wan"
    by (simp_all add: plain_nft_def plain_fields_def ssh_from_wan_def)
  obtain batch where "firewall_batch (plain_nft True) ''wan'' ''lan'' [ssh_forward] = Inr batch"
    "nft_eval (plain_nft True) (rules_of ''filter_input'' batch) (nc_policy filter_chain) ssh_from_wan = ActDrop"
    "nft_eval (plain_nft True) (rules_of ''nat_prerouting'' batch) (nc_policy nat_prerouting) ssh_from_wan = ActDnat 7 2222"
    using firewall_policy[OF plain_nft_laws[of True] v, where forwards = "[ssh_forward]"] p by (auto simp: ssh_forward_def)
  then show ?thesis by (auto simp: filter_chain_def nat_prerouting_def)
qed

text \<open>
  Replacing the rules is not atomic: the old table is deleted in a batch of its own. When the
  kernel then refuses the new rules, the call fails and leaves no table at all, so nothing is
  filtered any more.
\<close>

lemma firewall_update_not_atomic:
  assumes "validate_interface_name wan = Inr ()" "validate_interface_name lan = Inr ()" "wan \<noteq> lan"
    "nft_send F [NftDel TRIMROUTER_TABLE] k = (SendOk, cleared)"
    "\<And>batch. firewall_batch F wan lan forwards = Inr batch \<Longrightarrow> nft_send F batch cleared = (SendError, cleared)"
  shows "\<exists>e. configure_firewall F wan lan forwards k = (Inl e, cleared)"
  using assms by (cases "firewall_batch F wan lan forwards") (auto simp: configure_firewall_def flush_existing_table_def)

lemma firewall_update_not_atomic_example:
  "\<exists>e. configure_firewall (plain_nft False) ''wan'' ''lan'' [] (Some []) = (Inl e, None)"
proof (rule firewall_update_not_atomic)
  fix batch
  assume "firewall_batch (plain_nft False) ''wan'' ''lan'' [] = Inr batch"
  then have "batch \<noteq> [NftDel TRIMROUTER_TABLE]" by (auto simp: firewall_batch_def)
  then show "nft_send (plain_nft False) batch None = (SendError, None)" by (simp add: plain_nft_def plain_fields_def)
qed (simp_all add: validate_interface_name_def IFNAMSIZ_def char_of_def plain_nft_def plain_fields_def)

end
