(* ===== verification/Sandbox.thy ===== *)
theory Sandbox
  imports Utils
begin

text \<open>
  Worker processes: the sandbox they enter (\<open>drop_privileges\<close>, \<open>apply_seccomp\<close> and
  \<open>run_sandboxed_worker\<close> of \<open>services/utils.rs\<close>), how the parent supervises and restarts them
  (\<open>ExternalWorker\<close> of \<open>services/supervisor.rs\<close>) and how it ends them (\<open>terminate_worker\<close>). The
  system calls are a parameter: a function that answers a call and changes the process state.
\<close>

section \<open>The sandbox\<close>

definition CHROOT_JAIL_PATH :: string where "CHROOT_JAIL_PATH = ''/run/empty''"

definition SNTP_UID :: u32 where "SNTP_UID = 10001"
definition DHCP_CLIENT_UID :: u32 where "DHCP_CLIENT_UID = 10002"
definition DHCP_SERVER_UID :: u32 where "DHCP_SERVER_UID = 10003"
definition DNS_FORWARDER_UID :: u32 where "DNS_FORWARDER_UID = 10004"

datatype target_arch = X86_64 | Aarch64 | Arm

definition ALLOWED_SYSCALLS :: "target_arch \<Rightarrow> string list" where
  "ALLOWED_SYSCALLS arch =
     [''read'', ''write'', ''close'', ''fstat'', ''lseek'', ''pread64'', ''pwrite64'', ''readv'', ''writev'',
        ''sendto'', ''recvfrom'', ''sendmsg'', ''recvmsg'', ''shutdown'', ''fcntl'', ''getsockopt'',
        ''setsockopt'']
     @ (if arch \<noteq> Aarch64 then [''accept''] else [])
     @ [''accept4'', ''getpeername'', ''getsockname'']
     @ (if arch \<noteq> Aarch64 then [''epoll_create''] else [])
     @ [''epoll_ctl'']
     @ (if arch \<noteq> Aarch64 then [''epoll_wait''] else [])
     @ [''epoll_create1'', ''epoll_pwait'', ''eventfd2'', ''futex'']
     @ (if arch = X86_64 then [''clone'', ''clone3''] else [])
     @ (if arch \<noteq> Arm then [''mmap''] else [])
     @ (if arch = Arm then [''mmap2''] else [])
     @ [''mprotect'', ''munmap'', ''brk'', ''sched_yield'', ''madvise'', ''gettid'', ''set_robust_list'',
        ''prctl'']
     @ (if arch = X86_64 then [''arch_prctl''] else [])
     @ [''clock_gettime'', ''clock_getres'', ''sched_getaffinity'', ''nanosleep'', ''gettimeofday'',
        ''clock_nanosleep'', ''exit'', ''exit_group'', ''rt_sigaction'', ''rt_sigprocmask'', ''rt_sigreturn'',
        ''sigaltstack'', ''rt_sigqueueinfo'', ''getpid'', ''getuid'', ''geteuid'', ''getgid'', ''getegid'',
        ''getrandom'', ''ioctl'', ''uname'']
     @ (if arch \<noteq> Aarch64 then [''pipe''] else [])
     @ [''pipe2'']"

datatype cap_set = CapBounding | CapInheritable | CapEffective | CapPermitted

text \<open>The seccomp filter lists the allowed calls; every other call fails with \<open>EPERM\<close>.\<close>

datatype sandbox_call =
    CreateDirAll string
  | Metadata string
  | SetPermissions string nat
  | Chroot string
  | Chdir string
  | ClearCaps cap_set
  | SetGid u32
  | SetUid u32
  | ApplyFilter "string list"

fun sandbox_calls :: "(sandbox_call \<Rightarrow> 's \<Rightarrow> bool \<times> 's) \<Rightarrow> sandbox_call list \<Rightarrow> 's \<Rightarrow> bool \<times> 's" where
  "sandbox_calls sys [] s = (True, s)"
| "sandbox_calls sys (c # cs) s = (case sys c s of (ok, s') \<Rightarrow> if ok then sandbox_calls sys cs s' else (False, s'))"

definition apply_seccomp :: "target_arch \<Rightarrow> sandbox_call" where
  "apply_seccomp arch = ApplyFilter (ALLOWED_SYSCALLS arch)"

definition drop_privileges ::
  "(sandbox_call \<Rightarrow> 's \<Rightarrow> bool \<times> 's) \<Rightarrow> target_arch \<Rightarrow> u32 \<Rightarrow> u32 \<Rightarrow> 's \<Rightarrow> bool \<times> 's" where
  "drop_privileges sys arch uid gid =
     sandbox_calls sys [CreateDirAll CHROOT_JAIL_PATH, Metadata CHROOT_JAIL_PATH, SetPermissions CHROOT_JAIL_PATH 365,
       Chroot CHROOT_JAIL_PATH, Chdir ''/'', ClearCaps CapBounding, SetGid gid, SetUid uid,
       ClearCaps CapInheritable, ClearCaps CapEffective, ClearCaps CapPermitted, apply_seccomp arch]"

definition run_sandboxed_worker ::
  "(sandbox_call \<Rightarrow> 's \<Rightarrow> bool \<times> 's) \<Rightarrow> target_arch \<Rightarrow> bool \<Rightarrow> u32 \<Rightarrow> u32 \<Rightarrow> ('s \<Rightarrow> (io_error + unit) \<times> 's)
     \<Rightarrow> 's \<Rightarrow> (io_error + unit) \<times> 's" where
  "run_sandboxed_worker sys arch ipc_ok uid gid worker_fn s =
     (if \<not> ipc_ok then (Inl SocketError, s)
      else case drop_privileges sys arch uid gid s of
        (True, s') \<Rightarrow> worker_fn s'
      | (False, s') \<Rightarrow> (Inl SocketError, s'))"

text \<open>
  What the kernel promises of a call that succeeds: it changes the root, the working directory,
  the identity, one capability set or the filter, as it says; becoming an ordinary user may take
  capabilities away but gives none; and work on files does not touch the process.
\<close>

record process =
  pr_uid :: u32
  pr_gid :: u32
  pr_root :: string
  pr_cwd :: string
  pr_caps :: "cap_set \<Rightarrow> bool"
  pr_filter :: "string list option"

fun call_law :: "sandbox_call \<Rightarrow> process \<Rightarrow> process \<Rightarrow> bool" where
  "call_law (Chroot d) p p' \<longleftrightarrow> p' = p\<lparr> pr_root := d \<rparr>"
| "call_law (Chdir d) p p' \<longleftrightarrow> p' = p\<lparr> pr_cwd := d \<rparr>"
| "call_law (ClearCaps c) p p' \<longleftrightarrow> p' = p\<lparr> pr_caps := (pr_caps p)(c := False) \<rparr>"
| "call_law (SetGid g) p p' \<longleftrightarrow> p' = p\<lparr> pr_gid := g \<rparr>"
| "call_law (SetUid u) p p' \<longleftrightarrow> (\<exists>caps. (\<forall>c. caps c \<longrightarrow> pr_caps p c) \<and> p' = p\<lparr> pr_uid := u, pr_caps := caps \<rparr>)"
| "call_law (ApplyFilter f) p p' \<longleftrightarrow> p' = p\<lparr> pr_filter := Some f \<rparr>"
| "call_law _ p p' \<longleftrightarrow> p' = p"

definition process_laws :: "(sandbox_call \<Rightarrow> 's \<Rightarrow> bool \<times> 's) \<Rightarrow> ('s \<Rightarrow> process) \<Rightarrow> bool" where
  "process_laws sys view \<longleftrightarrow> (\<forall>c s s'. sys c s = (True, s') \<longrightarrow> call_law c (view s) (view s'))"

lemma sandbox_calls_law:
  assumes "process_laws sys view" "sandbox_calls sys (c # cs) s = (True, s')"
  shows "\<exists>s1. call_law c (view s) (view s1) \<and> sandbox_calls sys cs s1 = (True, s')"
  using assms by (auto simp: process_laws_def split: prod.splits if_splits)

text \<open>Calls that start programs, open files or sockets, trace, or change identity, root, mounts or modules.\<close>

definition privileged_syscalls :: "string list" where
  "privileged_syscalls = [''execve'', ''execveat'', ''fork'', ''vfork'', ''open'', ''openat'', ''socket'', ''connect'', ''bind'',
     ''ptrace'', ''mount'', ''umount2'', ''chroot'', ''setuid'', ''setgid'', ''setresuid'',
     ''capset'', ''kill'', ''reboot'', ''init_module'', ''finit_module'', ''unshare'', ''setns'']"

lemma allowed_unprivileged: "set (ALLOWED_SYSCALLS arch) \<inter> set privileged_syscalls = {}"
  by (cases arch) (simp_all add: ALLOWED_SYSCALLS_def privileged_syscalls_def)

lemma no_caps:
  assumes "\<forall>c. caps c \<longrightarrow> c \<noteq> CapBounding"
  shows "caps(CapInheritable := False, CapEffective := False, CapPermitted := False) = (\<lambda>_. False)"
proof
  fix c show "(caps(CapInheritable := False, CapEffective := False, CapPermitted := False)) c = False"
    using assms by (cases c) auto
qed

lemma dropped_process:
  assumes "process_laws sys view" "drop_privileges sys arch uid gid s = (True, s')"
  shows "view s' = \<lparr> pr_uid = uid, pr_gid = gid, pr_root = ''/run/empty'', pr_cwd = ''/'',
      pr_caps = (\<lambda>_. False), pr_filter = Some (ALLOWED_SYSCALLS arch) \<rparr>"
proof -
  have step: "sandbox_calls sys (c # cs) t = (True, s') \<Longrightarrow>
      (\<And>t1. call_law c (view t) (view t1) \<Longrightarrow> sandbox_calls sys cs t1 = (True, s') \<Longrightarrow> thesis) \<Longrightarrow> thesis" for c cs t thesis
    using sandbox_calls_law[OF assms(1)] by blast
  from assms(2)[unfolded drop_privileges_def apply_seccomp_def]
  have "\<exists>caps. (\<forall>c. caps c \<longrightarrow> c \<noteq> CapBounding)
    \<and> view s' = (view s)\<lparr> pr_root := CHROOT_JAIL_PATH, pr_cwd := ''/'', pr_gid := gid, pr_uid := uid,
        pr_caps := caps(CapInheritable := False, CapEffective := False, CapPermitted := False),
        pr_filter := Some (ALLOWED_SYSCALLS arch) \<rparr>"
    by (elim step) (auto split: if_splits)
  then show ?thesis by (auto simp: no_caps CHROOT_JAIL_PATH_def)
qed

text \<open>
  C14. A worker never runs with privileges: whatever step of entering the sandbox fails, the worker
  function is not called, and when it is called, the process has the service's own user and
  group, is locked into the empty directory, has no capability in any set, and can make only the
  allowed system calls, none of which starts a program, opens a file or a socket, traces a
  process or changes identity, root or mounts.
\<close>

theorem sandbox_complete:
  assumes "process_laws sys view"
  shows "(\<exists>e s'. \<forall>worker_fn. run_sandboxed_worker sys arch ipc_ok uid gid worker_fn s = (Inl e, s'))
    \<or> (\<exists>s'. (\<forall>worker_fn. run_sandboxed_worker sys arch ipc_ok uid gid worker_fn s = worker_fn s')
        \<and> view s' = \<lparr> pr_uid = uid, pr_gid = gid, pr_root = ''/run/empty'', pr_cwd = ''/'',
                       pr_caps = (\<lambda>_. False), pr_filter = Some (ALLOWED_SYSCALLS arch) \<rparr>
        \<and> set (ALLOWED_SYSCALLS arch) \<inter> set privileged_syscalls = {})"
proof (cases "ipc_ok \<and> fst (drop_privileges sys arch uid gid s)")
  case True
  then obtain s' where d: "drop_privileges sys arch uid gid s = (True, s')" by (metis prod.collapse)
  with True have "\<forall>worker_fn. run_sandboxed_worker sys arch ipc_ok uid gid worker_fn s = worker_fn s'"
    by (simp add: run_sandboxed_worker_def)
  with dropped_process[OF assms d] allowed_unprivileged show ?thesis by blast
next
  case False
  then have "run_sandboxed_worker sys arch ipc_ok uid gid worker_fn s
      = (Inl SocketError, if ipc_ok then snd (drop_privileges sys arch uid gid s) else s)" for worker_fn
    by (cases "drop_privileges sys arch uid gid s") (auto simp: run_sandboxed_worker_def)
  then show ?thesis by blast
qed

text \<open>A process state that follows the calls; every call succeeds.\<close>

fun plain_call :: "sandbox_call \<Rightarrow> process \<Rightarrow> bool \<times> process" where
  "plain_call (Chroot d) p = (True, p\<lparr> pr_root := d \<rparr>)"
| "plain_call (Chdir d) p = (True, p\<lparr> pr_cwd := d \<rparr>)"
| "plain_call (ClearCaps c) p = (True, p\<lparr> pr_caps := (pr_caps p)(c := False) \<rparr>)"
| "plain_call (SetGid g) p = (True, p\<lparr> pr_gid := g \<rparr>)"
| "plain_call (SetUid u) p = (True, p\<lparr> pr_uid := u \<rparr>)"
| "plain_call (ApplyFilter f) p = (True, p\<lparr> pr_filter := Some f \<rparr>)"
| "plain_call _ p = (True, p)"

theorem sandbox_complete_witness:
  "\<exists>p'. run_sandboxed_worker plain_call X86_64 True SNTP_UID SNTP_UID (\<lambda>p. (Inr (), p))
      \<lparr> pr_uid = 0, pr_gid = 0, pr_root = ''/'', pr_cwd = ''/'', pr_caps = (\<lambda>_. True), pr_filter = None \<rparr> = (Inr (), p')
    \<and> pr_uid p' = 10001 \<and> pr_caps p' = (\<lambda>_. False)"
proof -
  have "process_laws plain_call (\<lambda>p. p)"
    unfolding process_laws_def by (intro allI, case_tac c) auto
  let ?p = "\<lparr> pr_uid = 0, pr_gid = 0, pr_root = ''/'', pr_cwd = ''/'', pr_caps = (\<lambda>_. True), pr_filter = None \<rparr>"
  have runs: "\<exists>p'. run_sandboxed_worker plain_call X86_64 True SNTP_UID SNTP_UID (\<lambda>p. (Inr (), p)) ?p = (Inr (), p')"
    by (simp add: run_sandboxed_worker_def drop_privileges_def apply_seccomp_def)
  from sandbox_complete[OF \<open>process_laws plain_call (\<lambda>p. p)\<close>, of X86_64 True SNTP_UID SNTP_UID ?p]
  show ?thesis
  proof (elim disjE exE conjE)
    fix e s' assume "\<forall>worker_fn. run_sandboxed_worker plain_call X86_64 True SNTP_UID SNTP_UID worker_fn ?p = (Inl e, s')"
    with runs show ?thesis by simp
  next
    fix s' assume "\<forall>worker_fn. run_sandboxed_worker plain_call X86_64 True SNTP_UID SNTP_UID worker_fn ?p = worker_fn s'"
      "s' = \<lparr> pr_uid = SNTP_UID, pr_gid = SNTP_UID, pr_root = ''/run/empty'', pr_cwd = ''/'',
               pr_caps = (\<lambda>_. False), pr_filter = Some (ALLOWED_SYSCALLS X86_64) \<rparr>"
    then show ?thesis by (simp add: SNTP_UID_def)
  qed
qed

section \<open>Supervision\<close>

text \<open>
  One pass of the loop of \<open>start_supervised\<close>: how the wait ended, whether shutdown was requested at
  the three places where that is tested, and what became of the worker.
\<close>

record attempt =
  at_loop_shutdown :: bool
  at_wait :: wait_end
  at_shutdown_before :: bool
  at_setup_ok :: bool
  at_shutdown_after :: bool
  at_spawn :: "u32 option"
  at_monitor_ok :: bool
  at_run_time :: duration

datatype supervise_effect = WaitFor duration | SpawnWorker u32 | TerminateWorker u32

definition attempt_supervised_run :: "attempt \<Rightarrow> u32 \<Rightarrow> supervise_effect list \<times> u32" where
  "attempt_supervised_run a n =
     (if at_shutdown_before a \<or> \<not> at_setup_ok a \<or> at_shutdown_after a then ([], n)
      else case at_spawn a of
        None \<Rightarrow> ([], n)
      | Some pid \<Rightarrow>
          if \<not> at_monitor_ok a then ([SpawnWorker pid, TerminateWorker pid], n)
          else ([SpawnWorker pid], if from_secs 60 \<le> at_run_time a then 0 else n))"

fun start_supervised :: "attempt list \<Rightarrow> u32 \<Rightarrow> supervise_effect list" where
  "start_supervised [] n = []"
| "start_supervised (a # as) n =
     (if at_loop_shutdown a then []
      else
        let waits = (if 0 < n then [WaitFor (calculate_supervisor_restart_delay n)] else []) in
        case handle_supervisor_restart_delay (at_wait a) n of
          (False, _) \<Rightarrow> waits
        | (True, n1) \<Rightarrow> (case attempt_supervised_run a n1 of
             (effects, n2) \<Rightarrow> waits @ effects @ start_supervised as n2))"

text \<open>
  Signals sent to a worker that is to end: \<open>polls\<close> are the results of \<open>waitpid\<close>, with the time since
  the first signal, that find the process still alive; the list ends when the process is gone.
\<close>

datatype worker_signal = SigTerm | SigKill

fun terminate_loop :: "bool \<Rightarrow> duration list \<Rightarrow> worker_signal list \<times> duration list" where
  "terminate_loop sigkill_sent [] = ([], [])"
| "terminate_loop sigkill_sent (elapsed # polls) =
     (let kill = \<not> sigkill_sent \<and> from_secs 1 < elapsed in
      if from_secs 2 < elapsed then (if kill then [SigKill] else [], polls)
      else case terminate_loop (sigkill_sent \<or> kill) polls of
        (sigs, rest) \<Rightarrow> ((if kill then [SigKill] else []) @ sigs, rest))"

definition terminate_worker :: "bool \<Rightarrow> duration list \<Rightarrow> worker_signal list" where
  "terminate_worker term_ok polls = (if term_ok then SigTerm # fst (terminate_loop False polls) else [])"

text \<open>A worker that does not end by itself is killed once, after a second, and never waited for much longer than two.\<close>

lemma terminate_loop_killed: "fst (terminate_loop True polls) = []"
  by (induction polls) (auto simp: Let_def split: prod.splits)

lemma terminate_worker_signals:
  "terminate_worker True polls = (if \<exists>e \<in> set polls. from_secs 1 < e then [SigTerm, SigKill] else [SigTerm])"
proof -
  have "fst (terminate_loop False polls) = (if \<exists>e \<in> set polls. from_secs 1 < e then [SigKill] else [])"
  proof (induction polls)
    case (Cons e polls)
    show ?case
    proof (cases "from_secs 1 < e")
      case True
      then show ?thesis using terminate_loop_killed[of polls] by (auto simp: Let_def split: prod.splits)
    next
      case False
      then have "\<not> from_secs 2 < e" by (simp add: from_secs_def)
      with False Cons show ?thesis by (auto simp: Let_def split: prod.splits)
    qed
  qed simp
  then show ?thesis by (simp add: terminate_worker_def)
qed

text \<open>
  The restart schedule of a worker that keeps failing: the first start is immediate, and the waits
  before the restarts are 2, 4, 8, 16, 32 and then always 60 seconds. A run of at least a minute
  starts the schedule over.
\<close>

definition failing :: "u32 \<Rightarrow> attempt \<Rightarrow> bool" where
  "failing pid a \<longleftrightarrow> \<not> at_loop_shutdown a \<and> at_wait a = TimerFired \<and> \<not> at_shutdown_before a \<and> at_setup_ok a
     \<and> \<not> at_shutdown_after a \<and> at_spawn a = Some pid \<and> at_monitor_ok a \<and> at_run_time a < from_secs 60"

lemma restart_schedule:
  assumes "\<forall>a \<in> set as. failing pid a" "n + length as < 2 ^ 32"
  shows "start_supervised as (of_nat n) =
    concat (map (\<lambda>k. (if k = 0 then [] else [WaitFor (from_secs (min (2 ^ min k 6) 60))]) @ [SpawnWorker pid]) [n..<n + length as])"
  using assms
proof (induction as arbitrary: n)
  case (Cons a as)
  have u: "unat (of_nat n :: u32) = n" using Cons.prems(2) by (simp add: unsigned_of_nat take_bit_nat_eq_self)
  have nz: "(of_nat n :: u32) = 0 \<longleftrightarrow> n = 0" using u by (auto simp: word_unat_eq_iff)
  have m1: "(of_nat n :: u32) \<noteq> - 1"
  proof
    assume "(of_nat n :: u32) = - 1"
    then have "n = unat (- 1 :: u32)" using u by simp
    then show False using Cons.prems(2) by (simp add: unsigned_minus_1_eq_mask mask_eq_exp_minus_1)
  qed
  have d: "calculate_supervisor_restart_delay (of_nat n) = (if n = 0 then 0 else from_secs (min (2 ^ min n 6) 60))"
  proof -
    have "unat (min (of_nat n :: u32) 6) = min n 6" by (simp add: min_def word_le_nat_alt u del: unsigned_of_nat)
    then show ?thesis by (simp only: calculate_supervisor_restart_delay_def MAX_SUPERVISOR_RESTART_DELAY_SECS_def nz)
  qed
  have step: "start_supervised (a # as) (of_nat n) =
      (if n = 0 then [] else [WaitFor (from_secs (min (2 ^ min n 6) 60))]) @ SpawnWorker pid # start_supervised as (of_nat (Suc n))"
    using Cons.prems(1) nz m1
    by (auto simp: failing_def handle_supervisor_restart_delay_def attempt_supervised_run_def saturating_inc_def Let_def d
        word_gt_0 add.commute split: prod.splits)
  have r: "[n..<n + length (a # as)] = n # [Suc n..<Suc n + length as]" by (simp add: upt_conv_Cons del: upt_Suc)
  show ?case unfolding step r using Cons.IH[of "Suc n"] Cons.prems by (simp del: upt_Suc of_nat_Suc)
qed simp

end
