(* ===== verification/Supervisor.thy ===== *)
theory Supervisor
  imports Prelude
begin

text \<open>
  Stopping a worker while its supervisor runs (\<open>ExternalWorker\<close> of \<open>services/supervisor.rs\<close>): the
  supervising task and \<open>stop\<close> share the shutdown flag and the process number of the worker, and run on
  different threads, so their steps interleave. The monitor of a worker either reacts to the
  shutdown flag, as those of the DHCP server and the DNS forwarder do, or ignores it, as that of the DHCP
  client does (\<open>_shutdown_rx\<close>). Both the task and \<open>stop\<close> may be in \<open>terminate_worker\<close>
  (\<open>services/utils.rs\<close>), which asks the process to end, kills it after a second and gives up waiting after
  two, so that a process the kernel cannot end at once may outlive it. What a monitor does with
  messages is not part of this theory.
\<close>

section \<open>Terminating a process\<close>

text \<open>
  One pass of the loop of \<open>terminate_worker\<close>, on the time since it began, the answer of \<open>waitpid\<close> and
  whether the process was killed before: whether it is killed now, and whether it has been killed if the loop goes on.
\<close>

definition terminate_pass :: "duration \<Rightarrow> bool \<Rightarrow> bool \<Rightarrow> bool \<times> bool option" where
  "terminate_pass elapsed still_alive sigkill_sent =
     (if \<not> still_alive then (False, None)
      else let kill_now = (\<not> sigkill_sent \<and> from_secs 1 < elapsed) in
        (kill_now, if from_secs 2 < elapsed then None else Some (sigkill_sent \<or> kill_now)))"

text \<open>Before the first signal, or in the loop, with the earliest time of its next pass.\<close>

datatype term_stage = TermSignal | TermLoop bool duration

definition POLL_PAUSE :: duration where "POLL_PAUSE = 10000000"

text \<open>
  One action on process \<open>p\<close>; \<open>None\<close> is the return, and the last argument tells whether the process is
  killed. The first signal fails only for a process that is gone.
\<close>

inductive term_step :: "nat \<Rightarrow> nat set \<Rightarrow> term_stage \<Rightarrow> term_stage option \<Rightarrow> bool \<Rightarrow> bool" where
  sigterm_fails: "p \<notin> alive \<Longrightarrow> term_step p alive TermSignal None False"
| sigterm: "term_step p alive TermSignal (Some (TermLoop False 0)) False"
| pass: "due \<le> elapsed \<Longrightarrow> terminate_pass elapsed (p \<in> alive) sent = (killed, nx) \<Longrightarrow>
    term_step p alive (TermLoop sent due) (map_option (\<lambda>sent'. TermLoop sent' (elapsed + POLL_PAUSE)) nx) killed"

section \<open>The task and the stop\<close>

text \<open>Where the task is: the loop, the delay, the two checks of the flag, and the life of a worker.\<close>

datatype task_phase =
    LoopTop
  | Delaying
  | FirstCheck
  | SettingUp
  | SecondCheck
  | Spawning
  | SpawnedUntracked nat
  | Tracked nat
  | Monitoring nat
  | Terminating nat term_stage
  | TaskEnded

datatype stop_phase = NotStopping | Signalled | Swapped nat term_stage | AwaitingTask | Stopped

record external_worker =
  ew_phase :: task_phase
  ew_stop :: stop_phase
  ew_shutdown :: bool
  ew_child_pid :: nat
  ew_alive :: "nat set"
  ew_killed :: "nat set"

definition supervised :: external_worker where
  "supervised = \<lparr> ew_phase = LoopTop, ew_stop = NotStopping, ew_shutdown = False, ew_child_pid = 0, ew_alive = {}, ew_killed = {} \<rparr>"

definition note_kill :: "bool \<Rightarrow> nat \<Rightarrow> external_worker \<Rightarrow> external_worker" where
  "note_kill killed p w = (if killed then w\<lparr> ew_killed := insert p (ew_killed w) \<rparr> else w)"

text \<open>One step of the supervising task; \<open>aware\<close> says whether the monitor reacts to the flag.\<close>

inductive supervisor_step :: "bool \<Rightarrow> external_worker \<Rightarrow> external_worker \<Rightarrow> bool" for aware where
  loop_ends: "ew_phase w = LoopTop \<Longrightarrow> ew_shutdown w \<Longrightarrow> supervisor_step aware w (w\<lparr> ew_phase := TaskEnded \<rparr>)"
| loop_goes: "ew_phase w = LoopTop \<Longrightarrow> \<not> ew_shutdown w \<Longrightarrow> supervisor_step aware w (w\<lparr> ew_phase := Delaying \<rparr>)"
| delay_over: "ew_phase w = Delaying \<Longrightarrow> supervisor_step aware w (w\<lparr> ew_phase := FirstCheck \<rparr>)"
| delay_cut: "ew_phase w = Delaying \<Longrightarrow> ew_shutdown w \<Longrightarrow> supervisor_step aware w (w\<lparr> ew_phase := TaskEnded \<rparr>)"
| first_check: "ew_phase w = FirstCheck \<Longrightarrow>
    supervisor_step aware w (w\<lparr> ew_phase := if ew_shutdown w then LoopTop else SettingUp \<rparr>)"
| setup_fails: "ew_phase w = SettingUp \<Longrightarrow> supervisor_step aware w (w\<lparr> ew_phase := LoopTop \<rparr>)"
| setup_ok: "ew_phase w = SettingUp \<Longrightarrow> supervisor_step aware w (w\<lparr> ew_phase := SecondCheck \<rparr>)"
| second_check: "ew_phase w = SecondCheck \<Longrightarrow>
    supervisor_step aware w (w\<lparr> ew_phase := if ew_shutdown w then LoopTop else Spawning \<rparr>)"
| spawn_fails: "ew_phase w = Spawning \<Longrightarrow> supervisor_step aware w (w\<lparr> ew_phase := LoopTop \<rparr>)"
| spawn_ok: "ew_phase w = Spawning \<Longrightarrow> p \<noteq> 0 \<Longrightarrow> p \<notin> ew_alive w \<Longrightarrow>
    supervisor_step aware w (w\<lparr> ew_phase := SpawnedUntracked p, ew_alive := insert p (ew_alive w), ew_killed := ew_killed w - {p} \<rparr>)"
| track: "ew_phase w = SpawnedUntracked p \<Longrightarrow> supervisor_step aware w (w\<lparr> ew_phase := Tracked p, ew_child_pid := p \<rparr>)"
| monitor_ok: "ew_phase w = Tracked p \<Longrightarrow> supervisor_step aware w (w\<lparr> ew_phase := Monitoring p \<rparr>)"
| monitor_fails: "ew_phase w = Tracked p \<Longrightarrow> supervisor_step aware w (w\<lparr> ew_phase := Terminating p TermSignal \<rparr>)"
| monitor_sees_end: "ew_phase w = Monitoring p \<Longrightarrow> p \<notin> ew_alive w \<Longrightarrow> supervisor_step aware w (w\<lparr> ew_phase := Terminating p TermSignal \<rparr>)"
| monitor_sees_flag: "ew_phase w = Monitoring p \<Longrightarrow> aware \<Longrightarrow> ew_shutdown w \<Longrightarrow>
    supervisor_step aware w (w\<lparr> ew_phase := Terminating p TermSignal \<rparr>)"
| terminate: "ew_phase w = Terminating p st \<Longrightarrow> term_step p (ew_alive w) st nx killed \<Longrightarrow>
    supervisor_step aware w (note_kill killed p (w\<lparr> ew_phase := case nx of Some st' \<Rightarrow> Terminating p st' | None \<Rightarrow> LoopTop \<rparr>))"

inductive_simps task_step_iff: "supervisor_step aware w w'"

text \<open>One step of \<open>stop\<close>: the flag, the swap of the process number, the termination, the wait for the task.\<close>

inductive stop_step :: "external_worker \<Rightarrow> external_worker \<Rightarrow> bool" where
  signal: "ew_stop w = NotStopping \<Longrightarrow> stop_step w (w\<lparr> ew_stop := Signalled, ew_shutdown := True \<rparr>)"
| swap: "ew_stop w = Signalled \<Longrightarrow> stop_step w (w\<lparr> ew_stop := if ew_child_pid w = 0 then AwaitingTask else Swapped (ew_child_pid w) TermSignal, ew_child_pid := 0 \<rparr>)"
| kill: "ew_stop w = Swapped p st \<Longrightarrow> term_step p (ew_alive w) st nx killed \<Longrightarrow>
    stop_step w (note_kill killed p (w\<lparr> ew_stop := case nx of Some st' \<Rightarrow> Swapped p st' | None \<Rightarrow> AwaitingTask \<rparr>))"
| await: "ew_stop w = AwaitingTask \<Longrightarrow> ew_phase w = TaskEnded \<Longrightarrow> stop_step w (w\<lparr> ew_stop := Stopped \<rparr>)"

inductive_simps stop_step_iff: "stop_step w w'"

text \<open>What happens outside: the worker ends by itself, or its channel fails.\<close>

inductive worker_event :: "external_worker \<Rightarrow> external_worker \<Rightarrow> bool" where
  dies: "p \<in> ew_alive w \<Longrightarrow> worker_event w (w\<lparr> ew_alive := ew_alive w - {p} \<rparr>)"
| channel_fails: "ew_phase w = Monitoring p \<Longrightarrow> worker_event w (w\<lparr> ew_phase := Terminating p TermSignal \<rparr>)"

definition sup_step :: "bool \<Rightarrow> external_worker \<Rightarrow> external_worker \<Rightarrow> bool" where
  "sup_step aware w w' \<longleftrightarrow> supervisor_step aware w w' \<or> stop_step w w' \<or> worker_event w w'"

section \<open>Processes\<close>

fun phase_pid :: "task_phase \<Rightarrow> nat option" where
  "phase_pid (SpawnedUntracked p) = Some p"
| "phase_pid (Tracked p) = Some p"
| "phase_pid (Monitoring p) = Some p"
| "phase_pid (Terminating p st) = Some p"
| "phase_pid _ = None"

text \<open>
  Only the worker of the current phase can be alive without having been killed, also while it is being terminated, and the flag is
  set from the first step of a stop on.
\<close>

fun killed_if_told :: "task_phase \<Rightarrow> nat set \<Rightarrow> bool" where
  "killed_if_told (Terminating p (TermLoop True due)) killed = (p \<in> killed)"
| "killed_if_told _ killed = True"

definition sup_inv :: "external_worker \<Rightarrow> bool" where
  "sup_inv w \<longleftrightarrow> finite (ew_alive w) \<and> ew_alive w \<subseteq> ew_killed w \<union> set_option (phase_pid (ew_phase w))
     \<and> killed_if_told (ew_phase w) (ew_killed w)
     \<and> (ew_stop w \<noteq> NotStopping \<longrightarrow> ew_shutdown w) \<and> (ew_stop w = Stopped \<longrightarrow> ew_phase w = TaskEnded)"

lemma killed_if_told_mono: "killed_if_told ph killed \<Longrightarrow> killed \<subseteq> killed' \<Longrightarrow> killed_if_told ph killed'"
  by (cases "(ph, killed)" rule: killed_if_told.cases) auto

lemma note_kill_fields [simp]:
  "ew_phase (note_kill c p w) = ew_phase w" "ew_stop (note_kill c p w) = ew_stop w" "ew_shutdown (note_kill c p w) = ew_shutdown w"
  "ew_alive (note_kill c p w) = ew_alive w" "ew_killed (note_kill c p w) = (if c then insert p (ew_killed w) else ew_killed w)"
  by (simp_all add: note_kill_def)

text \<open>When \<open>terminate_worker\<close> returns, the process is gone or has been killed.\<close>

lemma term_step_told:
  assumes "term_step p alive st nx c" "killed_if_told (Terminating p st) killed"
  shows "case nx of Some st' \<Rightarrow> killed_if_told (Terminating p st') (if c then insert p killed else killed)
    | None \<Rightarrow> p \<notin> alive \<or> p \<in> (if c then insert p killed else killed)"
  using assms
proof cases
  case (pass due elapsed sent nx')
  have "from_secs 1 < elapsed" if "from_secs 2 < elapsed" using that by (simp add: from_secs_def)
  with pass assms(2) show ?thesis
    by (cases sent) (auto simp: terminate_pass_def Let_def split: if_splits)
qed auto

lemma sup_inv_step:
  assumes "sup_step aware w w'" "sup_inv w"
  shows "sup_inv w'"
proof -
  consider "supervisor_step aware w w'" | "stop_step w w'" | "worker_event w w'" using assms(1) by (auto simp: sup_step_def)
  then show ?thesis
  proof cases
    case 1
    then show ?thesis
    proof cases
      case (terminate p st nx c)
      have "killed_if_told (Terminating p st) (ew_killed w)" using assms(2) terminate(2) by (simp add: sup_inv_def)
      from term_step_told[OF terminate(3) this] assms(2) terminate show ?thesis
        by (auto simp: sup_inv_def split: option.splits if_splits)
    qed (use assms(2) in \<open>auto simp: sup_inv_def\<close>)
  next
    case 2
    then show ?thesis
    proof cases
      case (kill p st nx c)
      have "killed_if_told (ew_phase w) (if c then insert p (ew_killed w) else ew_killed w)"
        using assms(2) by (auto simp: sup_inv_def intro: killed_if_told_mono)
      with assms(2) kill show ?thesis by (auto simp: sup_inv_def split: option.splits)
    qed (use assms(2) in \<open>auto simp: sup_inv_def\<close>)
  next
    case 3
    then show ?thesis by cases (use assms(2) in \<open>auto simp: sup_inv_def\<close>)
  qed
qed

lemma sup_inv_reach:
  assumes "(sup_step aware)\<^sup>*\<^sup>* supervised w"
  shows "sup_inv w"
  using assms
proof (induction rule: rtranclp_induct)
  case base
  then show ?case by (simp add: sup_inv_def supervised_def)
qed (rule sup_inv_step)

section \<open>A stop comes to its end\<close>

text \<open>Steps that are left: of a termination, of the task, of the stop, and for processes to end.\<close>

fun stage_rank :: "term_stage \<Rightarrow> nat" where
  "stage_rank TermSignal = 203"
| "stage_rank (TermLoop sent due) = (if due \<le> from_secs 2 then (from_secs 2 - due) div POLL_PAUSE + 2 else 1)"

fun phase_rank :: "task_phase \<Rightarrow> nat" where
  "phase_rank TaskEnded = 0"
| "phase_rank LoopTop = 1"
| "phase_rank (Terminating p st) = 1 + stage_rank st"
| "phase_rank (Monitoring p) = 205"
| "phase_rank (Tracked p) = 206"
| "phase_rank (SpawnedUntracked p) = 207"
| "phase_rank Spawning = 209"
| "phase_rank SecondCheck = 2"
| "phase_rank SettingUp = 3"
| "phase_rank FirstCheck = 2"
| "phase_rank Delaying = 3"

fun stop_rank :: "stop_phase \<Rightarrow> nat" where
  "stop_rank Stopped = 0"
| "stop_rank AwaitingTask = 1"
| "stop_rank (Swapped p st) = 1 + stage_rank st"
| "stop_rank Signalled = 205"
| "stop_rank NotStopping = 206"

definition steps_left :: "external_worker \<Rightarrow> nat" where
  "steps_left w = phase_rank (ew_phase w) + stop_rank (ew_stop w) + card (ew_alive w)"

lemma stage_rank_bounds: "1 \<le> stage_rank st" "stage_rank st \<le> 203"
proof -
  have "(from_secs 2 - d) div POLL_PAUSE \<le> from_secs 2 div POLL_PAUSE" for d by (rule div_le_mono) simp
  also have "from_secs 2 div POLL_PAUSE = 200" by (simp add: from_secs_def POLL_PAUSE_def)
  finally have d: "(from_secs 2 - d) div POLL_PAUSE \<le> 200" for d .
  show "1 \<le> stage_rank st" by (cases st) simp_all
  show "stage_rank st \<le> 203" by (cases st) (auto intro: le_trans[OF d])
qed

lemma term_step_rank:
  assumes "term_step p alive st (Some st') c"
  shows "stage_rank st' < stage_rank st"
  using assms
proof cases
  case (pass due elapsed sent nx')
  then have e: "due \<le> elapsed" "elapsed \<le> from_secs 2" "\<exists>s. st' = TermLoop s (elapsed + POLL_PAUSE)"
    by (auto simp: terminate_pass_def Let_def split: if_splits)
  have "(from_secs 2 - (elapsed + POLL_PAUSE)) div POLL_PAUSE < (from_secs 2 - due) div POLL_PAUSE" if "elapsed + POLL_PAUSE \<le> from_secs 2"
  proof -
    have "from_secs 2 - (elapsed + POLL_PAUSE) + POLL_PAUSE \<le> from_secs 2 - due" using that e(1) by simp
    then have "(from_secs 2 - (elapsed + POLL_PAUSE) + POLL_PAUSE) div POLL_PAUSE \<le> (from_secs 2 - due) div POLL_PAUSE" by (rule div_le_mono)
    then show ?thesis by (simp add: POLL_PAUSE_def)
  qed
  with e pass(1) show ?thesis by auto
qed (auto simp: from_secs_def POLL_PAUSE_def)

lemma finite_alive: "sup_inv w \<Longrightarrow> finite (ew_alive w)"
  by (simp add: sup_inv_def)

lemma steps_decrease:
  assumes "sup_step aware w w'" "sup_inv w" "ew_shutdown w"
  shows "steps_left w' < steps_left w \<and> ew_shutdown w'"
proof -
  note f = finite_alive[OF assms(2)]
  consider "supervisor_step aware w w'" | "stop_step w w'" | "worker_event w w'" using assms(1) by (auto simp: sup_step_def)
  then show ?thesis
  proof cases
    case 1
    then show ?thesis
    proof cases
      case (terminate p st nx c)
      show ?thesis using term_step_rank[of p "ew_alive w" st _ c] stage_rank_bounds(1)[of st] terminate assms(3)
        by (cases "nx") (auto simp: steps_left_def)
    qed (use assms(3) f in \<open>auto simp: steps_left_def\<close>)
  next
    case 2
    then show ?thesis
    proof cases
      case (kill p st nx c)
      show ?thesis using term_step_rank[of p "ew_alive w" st _ c] stage_rank_bounds(1)[of st] kill assms(3)
        by (cases "nx") (auto simp: steps_left_def)
    qed (use assms(2,3) in \<open>auto simp: steps_left_def sup_inv_def\<close>)
  next
    case 3
    then show ?thesis using assms(3) card_Diff1_less[OF f]
      by cases (auto simp: steps_left_def simp del: card_Diff_singleton)
  qed
qed

lemma runs_bounded:
  "(sup_step aware ^^ n) w w' \<Longrightarrow> sup_inv w \<Longrightarrow> ew_shutdown w \<Longrightarrow> n + steps_left w' \<le> steps_left w \<and> sup_inv w' \<and> ew_shutdown w'"
proof (induction n arbitrary: w')
  case (Suc n)
  then obtain v where v: "(sup_step aware ^^ n) w v" "sup_step aware v w'" by auto
  with Suc steps_decrease[OF v(2)] sup_inv_step[OF v(2)] show ?case by fastforce
qed simp

lemma steps_left_bound: "steps_left w \<le> 415 + card (ew_alive w)"
proof -
  have "phase_rank (ew_phase w) \<le> 209" using stage_rank_bounds(2) by (cases "ew_phase w") (auto intro: le_trans[of _ 203])
  moreover have "stop_rank (ew_stop w) \<le> 206" using stage_rank_bounds(2) by (cases "ew_stop w") (auto intro: le_trans[of _ 203])
  ultimately show ?thesis by (simp add: steps_left_def)
qed

lemma term_goes_on: "\<exists>nx c. term_step p alive st nx c"
proof (cases st)
  case (TermLoop sent due)
  obtain c r where "terminate_pass due (p \<in> alive) sent = (c, r)" by fastforce
  then show ?thesis unfolding TermLoop by (blast intro: term_step.pass)
qed (blast intro: term_step.sigterm)

lemma task_goes_on: "ew_shutdown w \<Longrightarrow> aware \<Longrightarrow> ew_phase w \<noteq> TaskEnded \<Longrightarrow> \<exists>w'. supervisor_step aware w w'"
  using term_goes_on by (cases "ew_phase w") (auto simp: task_step_iff)

lemma stop_goes_on:
  assumes "aware" "ew_shutdown w" "ew_stop w \<noteq> Stopped"
  shows "\<exists>w'. supervisor_step aware w w' \<or> stop_step w w'"
proof (cases "ew_stop w")
  case AwaitingTask
  then show ?thesis using task_goes_on[OF assms(2,1)] by (cases "ew_phase w = TaskEnded") (auto simp: stop_step_iff)
next
  case (Swapped p st)
  with term_goes_on[of p "ew_alive w" st] show ?thesis by (blast intro: stop_step.kill)
qed (use assms in \<open>auto simp: stop_step_iff\<close>)

text \<open>A DHCP client stopped between the second check of the flag and the moment its process number is stored.\<close>

definition client_stopped_late :: external_worker where
  "client_stopped_late =
     \<lparr> ew_phase = Monitoring 7, ew_stop = AwaitingTask, ew_shutdown = True, ew_child_pid = 7, ew_alive = {7}, ew_killed = {} \<rparr>"

lemma sup_stepI: "sup_step aware v w \<Longrightarrow> (sup_step aware)\<^sup>*\<^sup>* w u \<Longrightarrow> (sup_step aware)\<^sup>*\<^sup>* v u"
  by (rule converse_rtranclp_into_rtranclp)

lemma late_spawning:
  "(sup_step aware)\<^sup>*\<^sup>* supervised
     \<lparr> ew_phase = Spawning, ew_stop = AwaitingTask, ew_shutdown = True, ew_child_pid = 0, ew_alive = {}, ew_killed = {} \<rparr>"
proof -
  let ?s = "\<lambda>ph st sd. \<lparr> ew_phase = ph, ew_stop = st, ew_shutdown = sd, ew_child_pid = 0, ew_alive = {}, ew_killed = {} \<rparr>"
  have t: "sup_step aware (?s LoopTop NotStopping False) (?s Delaying NotStopping False)"
    "sup_step aware (?s Delaying NotStopping False) (?s FirstCheck NotStopping False)"
    "sup_step aware (?s FirstCheck NotStopping False) (?s SettingUp NotStopping False)"
    "sup_step aware (?s SettingUp NotStopping False) (?s SecondCheck NotStopping False)"
    "sup_step aware (?s SecondCheck NotStopping False) (?s Spawning NotStopping False)"
    by (simp_all add: sup_step_def task_step_iff)
  have u: "sup_step aware (?s Spawning NotStopping False) (?s Spawning Signalled True)"
    "sup_step aware (?s Spawning Signalled True) (?s Spawning AwaitingTask True)"
    by (simp_all add: sup_step_def stop_step_iff)
  show ?thesis unfolding supervised_def
    by (rule sup_stepI, rule t(1), rule sup_stepI, rule t(2), rule sup_stepI, rule t(3), rule sup_stepI, rule t(4),
        rule sup_stepI, rule t(5), rule sup_stepI, rule u(1), rule r_into_rtranclp, rule u(2))
qed

lemma client_stopped_late_reached: "(sup_step aware)\<^sup>*\<^sup>* supervised client_stopped_late"
proof -
  let ?s = "\<lambda>ph pid al. \<lparr> ew_phase = ph, ew_stop = AwaitingTask, ew_shutdown = True, ew_child_pid = pid, ew_alive = al, ew_killed = {} \<rparr>"
  have "sup_step aware (?s Spawning 0 {}) (?s (SpawnedUntracked 7) 0 {7})"
    "sup_step aware (?s (SpawnedUntracked 7) 0 {7}) (?s (Tracked 7) 7 {7})"
    "sup_step aware (?s (Tracked 7) 7 {7}) client_stopped_late"
    by (simp_all add: sup_step_def task_step_iff client_stopped_late_def)
  with late_spawning show ?thesis by (meson rtranclp.rtrancl_into_rtrancl)
qed



end
