(* ===== verification/Sntp.thy ===== *)
theory Sntp
  imports Utils
begin

text \<open>
  Time synchronization: the worker (\<open>services/sntp_client/worker.rs\<close>) and the privileged manager
  that resolves the server and sets the clock (\<open>services/sntp_client/manager.rs\<close>). The query is
  the crate \<open>sntpc\<close>, calendar times are the crate \<open>chrono\<close>: the answer of the server and the
  test whether a time is representable are arguments. A time is the pair of its seconds since
  the epoch and nanoseconds. Error texts are shortened, and a failed
  send, which the code only logs, has no effect here. Doubling a delay saturates in the code; the
  minimum taken next makes that the same.
\<close>

section \<open>The worker\<close>

definition SYNC_INTERVAL :: duration where "SYNC_INTERVAL = from_secs 1800"
definition RETRY_INTERVAL :: duration where "RETRY_INTERVAL = from_secs 60"
definition MAX_RETRY_INTERVAL :: duration where "MAX_RETRY_INTERVAL = from_secs 900"
definition NANOS_PER_MICRO :: u32 where "NANOS_PER_MICRO = 1000"

definition saturating_mul32 :: "u32 \<Rightarrow> u32 \<Rightarrow> u32" where
  "saturating_mul32 a b = (if unat a * unat b < 2 ^ 32 then a * b else - 1)"

record sync_schedule =
  next_sync_delay :: duration
  next_retry_delay :: duration

definition calculate_next_retry_delay :: "duration \<Rightarrow> duration" where
  "calculate_next_retry_delay current = min (current * 2) MAX_RETRY_INTERVAL"

definition datetime_to_time_components :: "int \<times> int \<Rightarrow> (int \<times> int) option" where
  "datetime_to_time_components t =
     (let total = fst t * 1000000000 + snd t in
      if total < 0 then None else Some (total div 1000000000, total mod 1000000000))"

definition send_time_to_parent :: "int \<times> int \<Rightarrow> sntp_client_to_parent list" where
  "send_time_to_parent t =
     (case datetime_to_time_components t of Some (s, n) \<Rightarrow> [SetSystemTime s n] | None \<Rightarrow> [])"

text \<open>
  \<open>query_ntp_time\<close>: the answer is the seconds and their fraction, \<open>None\<close> a timeout or an error;
  \<open>micros\<close> is \<open>fraction_to_microseconds\<close>, \<open>representable\<close> the success of \<open>timestamp_opt\<close>.
\<close>

definition query_ntp_time ::
  "(u32 \<Rightarrow> u32) \<Rightarrow> (int \<Rightarrow> int \<Rightarrow> bool) \<Rightarrow> (u32 \<times> u32) option \<Rightarrow> (int \<times> int) option" where
  "query_ntp_time micros representable answer =
     (case answer of
        None \<Rightarrow> None
      | Some (sec, fraction) \<Rightarrow>
          let secs = uint sec; nanos = uint (saturating_mul32 (micros fraction) NANOS_PER_MICRO)
          in if representable secs nanos then Some (secs, nanos) else None)"

definition handle_time_server_resolved ::
  "(u32 \<Rightarrow> u32) \<Rightarrow> (int \<Rightarrow> int \<Rightarrow> bool) \<Rightarrow> (ip \<Rightarrow> (u32 \<times> u32) option) \<Rightarrow> string + ip \<Rightarrow> duration
     \<Rightarrow> sntp_client_to_parent list \<times> sync_schedule" where
  "handle_time_server_resolved micros representable server result current_retry_delay =
     (let retry = ([], \<lparr> next_sync_delay = current_retry_delay,
                         next_retry_delay = calculate_next_retry_delay current_retry_delay \<rparr>)
      in case result of
        Inr i \<Rightarrow>
          if is_valid_ntp_server_ip i
          then (case query_ntp_time micros representable (server i) of
                  Some t \<Rightarrow> (send_time_to_parent t, \<lparr> next_sync_delay = SYNC_INTERVAL, next_retry_delay = RETRY_INTERVAL \<rparr>)
                | None \<Rightarrow> retry)
          else retry
      | Inl e \<Rightarrow> retry)"

record sntp_worker =
  sw_retry_delay :: duration
  sw_next_tick :: instant

datatype sntp_event =
    SyncTick bool
  | ServerResolved "string + ip"
  | SntpParentClosed

text \<open>One turn of \<open>run_sntp_worker_loop\<close>; \<open>None\<close> ends it. A tick is due at
  \<open>sw_next_tick\<close> and carries whether sending worked.\<close>

fun sntp_worker_step ::
  "(u32 \<Rightarrow> u32) \<Rightarrow> (int \<Rightarrow> int \<Rightarrow> bool) \<Rightarrow> (ip \<Rightarrow> (u32 \<times> u32) option) \<Rightarrow> instant \<Rightarrow> sntp_event \<Rightarrow> sntp_worker
     \<Rightarrow> (sntp_client_to_parent list \<times> sntp_worker) option" where
  "sntp_worker_step micros rep server now (SyncTick sent) w =
     (if sent then Some ([ResolveTimeServer], w\<lparr> sw_next_tick := sw_next_tick w + SYNC_INTERVAL \<rparr>) else None)"
| "sntp_worker_step micros rep server now (ServerResolved result) w =
     (case handle_time_server_resolved micros rep server result (sw_retry_delay w) of
        (msgs, schedule) \<Rightarrow>
          Some (msgs, \<lparr> sw_retry_delay = next_retry_delay schedule, sw_next_tick = now + next_sync_delay schedule \<rparr>))"
| "sntp_worker_step micros rep server now SntpParentClosed w = None"

definition sntp_worker_init :: "instant \<Rightarrow> sntp_client_to_parent list \<times> sntp_worker" where
  "sntp_worker_init now = ([ResolveTimeServer], \<lparr> sw_retry_delay = RETRY_INTERVAL, sw_next_tick = now \<rparr>)"

section \<open>The manager\<close>

definition MIN_SANE_EPOCH_SECS :: int where "MIN_SANE_EPOCH_SECS = 1700000000"
definition MAX_SANE_EPOCH_SECS :: int where "MAX_SANE_EPOCH_SECS = 4102444800"

definition is_valid_system_time :: "int \<Rightarrow> int \<Rightarrow> bool" where
  "is_valid_system_time seconds nanoseconds \<longleftrightarrow>
     MIN_SANE_EPOCH_SECS \<le> seconds \<and> seconds \<le> MAX_SANE_EPOCH_SECS \<and> 0 \<le> nanoseconds \<and> nanoseconds < 1000000000"

text \<open>
  \<open>resolve_host\<close> on what the lookup lists: \<open>None\<close> when it fails, an address that is not IPv4 as
  \<open>None\<close> in the list. \<open>resolve_time_server_ip\<close> gives up on a lookup that takes longer than four
  seconds; the argument says when the lookup ended.
\<close>

definition DNS_RESOLUTION_TIMEOUT :: duration where "DNS_RESOLUTION_TIMEOUT = from_secs 4"

fun first_valid_server :: "ip option list \<Rightarrow> string + ip" where
  "first_valid_server [] = Inl ''No valid routable IPv4 address resolved''"
| "first_valid_server (None # as) = first_valid_server as"
| "first_valid_server (Some i # as) = (if is_valid_ntp_server_ip i then Inr i else first_valid_server as)"

definition resolve_host :: "ip option list option \<Rightarrow> string + ip" where
  "resolve_host addrs = (case addrs of None \<Rightarrow> Inl ''Failed to resolve'' | Some as \<Rightarrow> first_valid_server as)"

definition resolve_time_server_ip :: "duration \<Rightarrow> ip option list option \<Rightarrow> string + ip" where
  "resolve_time_server_ip took addrs =
     (if took < DNS_RESOLUTION_TIMEOUT then resolve_host addrs else Inl ''DNS resolution timed out'')"

datatype sntp_effect =
    ClockSet int int
  | SntpStatusSent
  | SpawnSntp u32
  | TerminateSntp u32
  | ToSntpWorker sntp_parent_to_client

definition set_system_clock :: "bool \<Rightarrow> int \<Rightarrow> int \<Rightarrow> sntp_effect list" where
  "set_system_clock settable seconds nanoseconds =
     (if \<not> is_valid_system_time seconds nanoseconds then []
      else if settable then [ClockSet seconds nanoseconds, SntpStatusSent] else [])"

datatype sntp_manager_event =
    SntpShutdown
  | SntpLease bool "u32 option"
  | SntpLeaseGone
  | SntpMsg sntp_client_to_parent bool duration "ip option list option"
  | SntpChannelEnd

text \<open>
  One turn of \<open>run_sntp_manager_loop\<close> on the running worker's process, if any, and whether the loop
  goes on. A lease event tells whether there is an address now and the process that spawning
  would give; a message comes with whether the clock can be set, and how long a lookup takes and
  what it finds. Without a worker no message arrives. The arms for messages are
  \<open>handle_sntp_ipc_msg\<close>; \<open>SntpChannelEnd\<close> is the end of the channel or an error on it.
\<close>

fun sntp_manager_step :: "sntp_manager_event \<Rightarrow> u32 option \<Rightarrow> sntp_effect list \<times> u32 option \<times> bool" where
  "sntp_manager_step SntpShutdown child = ([], child, False)"
| "sntp_manager_step SntpLeaseGone child = ([], child, False)"
| "sntp_manager_step (SntpLease has_wan spawned) child =
     (case child of
        None \<Rightarrow> if has_wan then (case spawned of Some p \<Rightarrow> [SpawnSntp p] | None \<Rightarrow> [], spawned, True) else ([], None, True)
      | Some pid \<Rightarrow> if has_wan then ([], Some pid, True) else ([TerminateSntp pid], None, True))"
| "sntp_manager_step (SntpMsg m settable took addrs) child =
     (case child of
        None \<Rightarrow> ([], None, True)
      | Some pid \<Rightarrow>
          (case m of
             SetSystemTime s n \<Rightarrow> (set_system_clock settable s n, child, True)
           | ResolveTimeServer \<Rightarrow> ([ToSntpWorker (TimeServerResolved (resolve_time_server_ip took addrs))], child, True)))"
| "sntp_manager_step SntpChannelEnd child =
     (case child of Some pid \<Rightarrow> ([TerminateSntp pid], None, True) | None \<Rightarrow> ([], None, True))"

definition sntp_manager_start :: "bool \<Rightarrow> u32 option \<Rightarrow> u32 option" where
  "sntp_manager_start has_wan spawned = (if has_wan then spawned else None)"

fun sntp_manager_run :: "sntp_manager_event list \<Rightarrow> u32 option \<Rightarrow> sntp_effect list \<times> u32 option" where
  "sntp_manager_run [] child = ([], child)"
| "sntp_manager_run (e # es) child =
     (case sntp_manager_step e child of
        (effects, child', go) \<Rightarrow>
          if go then (case sntp_manager_run es child' of (later, final) \<Rightarrow> (effects @ later, final))
          else (effects @ (case child' of Some pid \<Rightarrow> [TerminateSntp pid] | None \<Rightarrow> []), None))"

section \<open>What the manager guarantees\<close>

text \<open>The retry delay of the worker stays between one and fifteen minutes.\<close>

lemma retry_delay_bounds:
  assumes "sntp_worker_step micros rep server now e w = Some (msgs, w')"
    "from_secs 60 \<le> sw_retry_delay w" "sw_retry_delay w \<le> from_secs 900"
  shows "from_secs 60 \<le> sw_retry_delay w' \<and> sw_retry_delay w' \<le> from_secs 900"
  using assms
  by (cases e)
    (auto simp: handle_time_server_resolved_def Let_def calculate_next_retry_delay_def RETRY_INTERVAL_def
      MAX_RETRY_INTERVAL_def from_secs_def split: sum.splits option.splits if_splits)

lemma unat_less_uint: "unat (a :: u32) < 1000000 \<longleftrightarrow> uint a < 1000000"
  by (simp only: unat_eq_nat_uint nat_less_iff[OF uint_ge_0] of_nat_numeral)

lemma saturating_mul32_micros:
  assumes "unat (a :: u32) < 1000000"
  shows "uint (saturating_mul32 a NANOS_PER_MICRO) = 1000 * uint a"
proof -
  have "uint a * 1000 < 2 ^ 32" using assms by (simp add: unat_less_uint)
  then have "uint (a * 1000) = uint a * 1000" by (simp add: uint_word_ariths)
  moreover have "unat a * 1000 < 2 ^ 32" using assms by simp
  ultimately show ?thesis by (simp add: saturating_mul32_def NANOS_PER_MICRO_def)
qed

text \<open>A message of the worker about a queried time is about exactly that time.\<close>

lemma query_time_sent:
  assumes "query_ntp_time micros rep (Some (sec, fraction)) = Some t" "unat (micros fraction) < 1000000"
  shows "send_time_to_parent t = [SetSystemTime (uint sec) (1000 * uint (micros fraction))]"
proof -
  note m = saturating_mul32_micros[OF assms(2)]
  have "uint (micros fraction) < 1000000" using assms(2) by (simp only: unat_less_uint)
  then have b: "0 \<le> uint (micros fraction)" "1000 * uint (micros fraction) < 1000000000" by simp_all
  from assms(1) have "t = (uint sec, 1000 * uint (micros fraction))"
    by (auto simp: query_ntp_time_def Let_def m split: if_splits)
  moreover have "0 \<le> uint sec" by simp
  ultimately show ?thesis using b
    by (auto simp del: uint_ge_0 simp: send_time_to_parent_def datetime_to_time_components_def Let_def not_less)
qed

definition clock_sane :: "sntp_effect \<Rightarrow> bool" where
  "clock_sane e \<longleftrightarrow> (\<forall>s n. e = ClockSet s n \<longrightarrow> 1700000000 \<le> s \<and> s \<le> 4102444800 \<and> 0 \<le> n \<and> n < 1000000000)"

definition server_routable :: "sntp_effect \<Rightarrow> bool" where
  "server_routable e \<longleftrightarrow> (\<forall>i. e = ToSntpWorker (TimeServerResolved (Inr i)) \<longrightarrow> is_valid_ntp_server_ip i)"

lemma first_valid_server_valid: "first_valid_server as = Inr i \<Longrightarrow> is_valid_ntp_server_ip i"
  by (induction as rule: first_valid_server.induct) (auto split: if_splits)

lemma step_sane: "sntp_manager_step e child = (effects, child', go) \<Longrightarrow> list_all (\<lambda>x. clock_sane x \<and> server_routable x) effects"
  by (cases e; cases child)
    (auto simp: clock_sane_def server_routable_def set_system_clock_def is_valid_system_time_def MIN_SANE_EPOCH_SECS_def
      MAX_SANE_EPOCH_SECS_def resolve_time_server_ip_def resolve_host_def first_valid_server_valid split: if_splits sntp_client_to_parent.splits option.splits)

lemma run_sane: "list_all (\<lambda>x. clock_sane x \<and> server_routable x) (fst (sntp_manager_run es child))"
proof (induction es arbitrary: child)
  case (Cons e es)
  obtain effects child' go where s: "sntp_manager_step e child = (effects, child', go)" by (metis prod_cases3)
  obtain rest final where "sntp_manager_run es child' = (rest, final)" by fastforce
  with s step_sane[OF s] Cons.IH[of child'] show ?case
    by (auto simp: clock_sane_def server_routable_def split: option.splits)
qed simp

fun is_lease_event :: "sntp_manager_event \<Rightarrow> bool" where
  "is_lease_event (SntpLease has_wan spawned) = True"
| "is_lease_event _ = False"

lemma no_spawn_without_lease: "sntp_manager_run (filter (\<lambda>e. \<not> is_lease_event e) es) None = ([], None)"
proof (induction es)
  case (Cons e es)
  then show ?case by (cases e) auto
qed simp

lemma shutdown_leaves_none: "snd (sntp_manager_run (es @ [SntpShutdown]) child) = None"
proof (induction es arbitrary: child)
  case (Cons e es)
  obtain effects child' go where "sntp_manager_step e child = (effects, child', go)" by (metis prod_cases3)
  with Cons.IH[of child'] show ?case by (cases "sntp_manager_run (es @ [SntpShutdown]) child'") simp
qed simp


end
