(* ===== verification/Rust_Text.thy ===== *)
theory Rust_Text
  imports Ip_Text
begin

text \<open>
  The text and path methods of the Rust standard library that the boot, logging and interface
  code uses. A \<open>str\<close> is its UTF-8 bytes, so lengths, slices and the white space of Unicode are the
  code's also for text that is not ASCII.
\<close>

section \<open>White space\<close>

text \<open>Bytes of the white-space character a text starts with: ASCII, two or three bytes, or none.\<close>

definition wide_space :: "char \<Rightarrow> char \<Rightarrow> char \<Rightarrow> bool" where
  "wide_space c d e \<longleftrightarrow>
     (let a = ascii_code e in
      (c = CHR 0xE1 \<and> d = CHR 0x9A \<and> a = 128)
      \<or> (c = CHR 0xE2 \<and> d = CHR 0x80 \<and> (128 \<le> a \<and> a \<le> 138 \<or> a = 168 \<or> a = 169 \<or> a = 175))
      \<or> (c = CHR 0xE2 \<and> d = CHR 0x81 \<and> a = 159)
      \<or> (c = CHR 0xE3 \<and> d = CHR 0x80 \<and> a = 128))"

definition pair_space :: "char \<Rightarrow> char \<Rightarrow> bool" where
  "pair_space c d \<longleftrightarrow> c = CHR 0xC2 \<and> (d = CHR 0x85 \<or> d = CHR 0xA0)"

fun ws_len :: "string \<Rightarrow> nat" where
  "ws_len (c # d # e # s) = (if is_whitespace c then 1 else if pair_space c d then 2 else if wide_space c d e then 3 else 0)"
| "ws_len [c, d] = (if is_whitespace c then 1 else if pair_space c d then 2 else 0)"
| "ws_len [c] = (if is_whitespace c then 1 else 0)"
| "ws_len [] = 0"

fun ws_len_rev :: "string \<Rightarrow> nat" where
  "ws_len_rev (e # d # c # s) = (if is_whitespace e then 1 else if pair_space d e then 2 else if wide_space c d e then 3 else 0)"
| "ws_len_rev [e, d] = (if is_whitespace e then 1 else if pair_space d e then 2 else 0)"
| "ws_len_rev [e] = (if is_whitespace e then 1 else 0)"
| "ws_len_rev [] = 0"

lemma ws_len_Nil [simp]: "0 < ws_len s \<Longrightarrow> s \<noteq> []"
  by auto

lemma ws_len_rev_Nil [simp]: "0 < ws_len_rev s \<Longrightarrow> s \<noteq> []"
  by auto

function utf8_trim_start :: "string \<Rightarrow> string" where
  "utf8_trim_start s = (if ws_len s = 0 then s else utf8_trim_start (drop (ws_len s) s))"
  by auto
termination by (relation "measure length") auto

function drop_space_rev :: "string \<Rightarrow> string" where
  "drop_space_rev s = (if ws_len_rev s = 0 then s else drop_space_rev (drop (ws_len_rev s) s))"
  by auto
termination by (relation "measure length") auto

declare utf8_trim_start.simps [simp del] drop_space_rev.simps [simp del]

definition utf8_trim_end :: "string \<Rightarrow> string" where
  "utf8_trim_end s = rev (drop_space_rev (rev s))"

definition utf8_trim :: "string \<Rightarrow> string" where
  "utf8_trim s = utf8_trim_end (utf8_trim_start s)"

text \<open>\<open>split_whitespace\<close>: the non-empty pieces between white space.\<close>

function split_ws :: "string \<Rightarrow> string \<Rightarrow> string list" where
  "split_ws cur [] = (if cur = [] then [] else [cur])"
| "split_ws cur (c # s) =
     (if ws_len (c # s) = 0 then split_ws (cur @ [c]) s
      else (if cur = [] then [] else [cur]) @ split_ws [] (drop (ws_len (c # s)) (c # s)))"
  by pat_completeness auto
termination by (relation "measure (\<lambda>(cur, s). length s)") (auto simp del: ws_len.simps)

definition split_whitespace :: "string \<Rightarrow> string list" where
  "split_whitespace s = split_ws [] s"

section \<open>Searching and splitting\<close>

fun contains_str :: "string \<Rightarrow> string \<Rightarrow> bool" where
  "contains_str s pat = (take (length pat) s = pat \<or> (case s of [] \<Rightarrow> False | _ # t \<Rightarrow> contains_str t pat))"

declare contains_str.simps [simp del]

lemma contains_str_iff: "contains_str s pat \<longleftrightarrow> (\<exists>a b. s = a @ pat @ b)"
proof (induction s pat rule: contains_str.induct)
  case (1 s pat)
  show ?case
  proof
    assume "contains_str s pat"
    then consider "take (length pat) s = pat" | c t where "s = c # t" "contains_str t pat"
      by (subst (asm) contains_str.simps) (auto split: list.splits)
    then show "\<exists>a b. s = a @ pat @ b"
    proof cases
      case 1
      then show ?thesis by (metis append_Nil append_take_drop_id)
    next
      case 2
      with 1 show ?thesis by (metis append_Cons)
    qed
  next
    assume "\<exists>a b. s = a @ pat @ b"
    then obtain a b where "s = a @ pat @ b" by blast
    then show "contains_str s pat"
      using 1 by (cases a) (auto simp: contains_str.simps[of "pat @ b"] contains_str.simps[of "x # xs" for x xs])
  qed
qed

definition strip_prefix :: "string \<Rightarrow> string \<Rightarrow> string option" where
  "strip_prefix s p = (if starts_with s p then Some (drop (length p) s) else None)"

lemma strip_prefix_Some_iff: "strip_prefix s p = Some r \<longleftrightarrow> s = p @ r"
proof
  assume "strip_prefix s p = Some r"
  then have "take (length p) s = p" "r = drop (length p) s"
    by (auto simp: strip_prefix_def starts_with_def split: if_splits)
  then show "s = p @ r" by (metis append_take_drop_id)
qed (auto simp: strip_prefix_def starts_with_def)

definition split_once :: "char \<Rightarrow> string \<Rightarrow> (string \<times> string) option" where
  "split_once c s =
     (case dropWhile (\<lambda>x. x \<noteq> c) s of [] \<Rightarrow> None | _ # rest \<Rightarrow> Some (takeWhile (\<lambda>x. x \<noteq> c) s, rest))"

definition replace_char :: "char \<Rightarrow> char \<Rightarrow> string \<Rightarrow> string" where
  "replace_char c d s = map (\<lambda>x. if x = c then d else x) s"

text \<open>\<open>str::lines\<close>: the pieces before newlines, without a carriage return at their end, and a last unfinished line.\<close>

definition strip_cr :: "string \<Rightarrow> string" where
  "strip_cr l = (if l \<noteq> [] \<and> last l = CHR 0x0D then butlast l else l)"

definition text_lines :: "string \<Rightarrow> string list" where
  "text_lines s =
     (let pieces = split_char (CHR 0x0A) s
      in map strip_cr (butlast pieces) @ (if last pieces = [] then [] else [last pieces]))"

section \<open>Numbers\<close>

text \<open>\<open>parse\<close> of an unsigned type: an optional plus, at least one digit, and no overflow.\<close>

definition parse_unsigned :: "nat \<Rightarrow> string \<Rightarrow> nat option" where
  "parse_unsigned bound s =
     (let digits = (case s of c # t \<Rightarrow> if c = CHR ''+'' then t else s | [] \<Rightarrow> [])
      in if digits = [] \<or> \<not> list_all is_ascii_digit digits \<or> bound < parse_decimal digits then None
         else Some (parse_decimal digits))"

lemma parse_decimal_snoc: "parse_decimal (s @ [c]) = 10 * parse_decimal s + digit_val c"
  by (simp add: parse_decimal_def)

lemma parse_decimal_show [simp]: "parse_decimal (show_nat n) = n"
proof (induction n rule: show_nat.induct)
  case (1 n)
  show ?case
  proof (cases "n < 10")
    case True
    then show ?thesis by (simp add: show_nat.simps[of n] parse_decimal_def digit_facts)
  next
    case False
    then show ?thesis using 1 by (simp add: show_nat.simps[of n] parse_decimal_snoc digit_facts)
  qed
qed

lemma show_nat_digits: "list_all is_ascii_digit (show_nat n)"
proof (induction n rule: show_nat.induct)
  case (1 n)
  then show ?case by (simp add: show_nat.simps[of n] digit_facts)
qed

lemma show_nat_nonempty [simp]: "show_nat n \<noteq> []"
  by (subst show_nat.simps) simp

lemma parse_unsigned_show: "n \<le> bound \<Longrightarrow> parse_unsigned bound (show_nat n) = Some n"
proof -
  assume n: "n \<le> bound"
  obtain c t where ct: "show_nat n = c # t" by (cases "show_nat n") auto
  have "is_ascii_digit c" using show_nat_digits[of n] ct by simp
  then have "c \<noteq> CHR ''+''" by (auto simp: is_ascii_digit_def ascii_code_def)
  then show ?thesis using n show_nat_digits[of n] parse_decimal_show[of n] ct
    by (simp add: parse_unsigned_def Let_def)
qed

section \<open>Paths\<close>

text \<open>\<open>Path::file_name\<close>: the last component, unless that is the parent directory.\<close>

definition path_file_name :: "string \<Rightarrow> string option" where
  "path_file_name p =
     (let comps = filter (\<lambda>c. c \<noteq> [] \<and> c \<noteq> ''.'') (split_char (CHR ''/'') p)
      in if comps = [] \<or> last comps = ''..'' then None else Some (last comps))"

text \<open>\<open>Path::join\<close>: an absolute path replaces the base.\<close>

definition path_join :: "string \<Rightarrow> string \<Rightarrow> string" where
  "path_join base p =
     (if starts_with p ''/'' then p
      else if base = [] \<or> ends_with base ''/'' then base @ p else base @ ''/'' @ p)"

text \<open>\<open>Path::extension\<close> of a file name: what follows the last dot, unless the name starts with its only dot.\<close>

definition name_extension :: "string \<Rightarrow> string option" where
  "name_extension n =
     (let tail_rev = takeWhile (\<lambda>c. c \<noteq> CHR ''.'') (rev n)
      in if length tail_rev + 1 \<ge> length n then None else Some (rev tail_rev))"

end
