(* ===== verification/Wildcard.thy ===== *)
theory Wildcard
  imports Rust_Text
begin

text \<open>
  The matcher for the patterns of \<open>modules.alias\<close> (\<open>wildcard_match\<close> of \<open>init/kmod.rs\<close>): a loop over
  two indices that remembers the last star, against the reference meaning of a pattern.
\<close>

section \<open>The loop of the code\<close>

function skip_stars :: "string \<Rightarrow> nat \<Rightarrow> nat" where
  "skip_stars pattern p_idx =
     (if p_idx < length pattern \<and> pattern ! p_idx = CHR ''*'' then skip_stars pattern (p_idx + 1) else p_idx)"
  by pat_completeness auto
termination by (relation "measure (\<lambda>(pattern, p_idx). length pattern - p_idx)") auto

declare skip_stars.simps [simp del]

function wildcard_loop :: "string \<Rightarrow> string \<Rightarrow> nat \<Rightarrow> nat \<Rightarrow> nat option \<Rightarrow> nat \<Rightarrow> bool" where
  "wildcard_loop pattern input p_idx s_idx star_idx match_idx =
     (if s_idx < length input then
        if p_idx < length pattern \<and> (pattern ! p_idx = CHR ''?'' \<or> pattern ! p_idx = input ! s_idx)
        then wildcard_loop pattern input (p_idx + 1) (s_idx + 1) star_idx match_idx
        else if p_idx < length pattern \<and> pattern ! p_idx = CHR ''*''
        then wildcard_loop pattern input (p_idx + 1) s_idx (Some p_idx) s_idx
        else (case star_idx of
                Some star \<Rightarrow> wildcard_loop pattern input (star + 1) (match_idx + 1) star_idx (match_idx + 1)
              | None \<Rightarrow> False)
      else skip_stars pattern p_idx = length pattern)"
  by pat_completeness auto
termination
  by (relation "measures [\<lambda>(pat, input, p, s, star, m). if s < m then 1 else 0,
        \<lambda>(pat, input, p, s, star, m). length input - m, \<lambda>(pat, input, p, s, star, m). length pat - p]") auto

declare wildcard_loop.simps [simp del]

definition wildcard_match :: "string \<Rightarrow> string \<Rightarrow> bool" where
  "wildcard_match pattern input = wildcard_loop pattern input 0 0 None 0"

section \<open>What a pattern means\<close>

fun glob :: "string \<Rightarrow> string \<Rightarrow> bool" where
  "glob [] s = (s = [])"
| "glob (c # p) [] = (c = CHR ''*'' \<and> glob p [])"
| "glob (c # p) (d # s) =
     (if c = CHR ''*'' then glob p (d # s) \<or> glob (c # p) s else (c = CHR ''?'' \<or> c = d) \<and> glob p s)"

lemma glob_star: "glob (CHR ''*'' # p) s \<longleftrightarrow> (\<exists>j \<le> length s. glob p (drop j s))"
proof (induction s)
  case (Cons d s)
  have "(\<exists>j \<le> length (d # s). glob p (drop j (d # s))) \<longleftrightarrow> glob p (d # s) \<or> (\<exists>j \<le> length s. glob p (drop j s))"
  proof
    assume "\<exists>j \<le> length (d # s). glob p (drop j (d # s))"
    then obtain j where j: "j \<le> length (d # s)" "glob p (drop j (d # s))" by blast
    then show "glob p (d # s) \<or> (\<exists>j \<le> length s. glob p (drop j s))" by (cases j) auto
  next
    assume "glob p (d # s) \<or> (\<exists>j \<le> length s. glob p (drop j s))"
    then show "\<exists>j \<le> length (d # s). glob p (drop j (d # s))"
      by (metis Suc_le_mono drop0 drop_Suc_Cons length_Cons zero_le)
  qed
  with Cons show ?case by simp
qed simp

lemma glob_no_star: "CHR ''*'' \<notin> set seg \<Longrightarrow>
  glob (seg @ p) s \<longleftrightarrow> length seg \<le> length s \<and> list_all2 (\<lambda>c d. c = CHR ''?'' \<or> c = d) seg (take (length seg) s) \<and> glob p (drop (length seg) s)"
proof (induction seg arbitrary: s)
  case (Cons c seg)
  then show ?case by (cases s) auto
qed simp

text \<open>Trailing stars are what may remain of the pattern.\<close>

lemma skip_stars_glob: "p \<le> length pat \<Longrightarrow> (skip_stars pat p = length pat) \<longleftrightarrow> glob (drop p pat) []"
proof (induction pat p rule: skip_stars.induct)
  case (1 pat p)
  show ?case
  proof (cases "p < length pat")
    case True
    then have d: "drop p pat = pat ! p # drop (Suc p) pat" by (simp add: Cons_nth_drop_Suc)
    show ?thesis
    proof (cases "pat ! p = CHR ''*''")
      case True
      with 1 \<open>p < length pat\<close> d show ?thesis by (simp add: skip_stars.simps[of pat p])
    next
      case False
      with \<open>p < length pat\<close> d show ?thesis by (simp add: skip_stars.simps[of pat p])
    qed
  next
    case False
    with "1.prems" have "p = length pat" by simp
    then show ?thesis by (simp add: skip_stars.simps[of pat "length pat"])
  qed
qed

section \<open>The loop recognises the pattern\<close>

text \<open>
  The invariant: since the last star, a piece of the pattern without stars has been matched with
  the text from \<open>m\<close> to \<open>s\<close>.
\<close>

definition since_star :: "string \<Rightarrow> nat \<Rightarrow> nat \<Rightarrow> nat option \<Rightarrow> nat \<Rightarrow> bool" where
  "since_star pat p s star m \<longleftrightarrow>
     (case star of None \<Rightarrow> True
      | Some k \<Rightarrow> k < p \<and> m \<le> s \<and> p - Suc k = s - m \<and> (\<forall>i. k < i \<and> i < p \<longrightarrow> pat ! i \<noteq> CHR ''*''))"

text \<open>A later start after the last star.\<close>

definition later_start :: "string \<Rightarrow> string \<Rightarrow> nat option \<Rightarrow> nat \<Rightarrow> bool" where
  "later_start pat inp star m \<longleftrightarrow>
     (case star of None \<Rightarrow> False | Some k \<Rightarrow> \<exists>j > m. j \<le> length inp \<and> glob (drop (Suc k) pat) (drop j inp))"

lemma later_start_split:
  assumes "since_star pat p s (Some k) m" "p \<le> length pat" "m < j" "j \<le> length inp" "glob (drop (Suc k) pat) (drop j inp)"
  shows "s - m + j \<le> length inp \<and> glob (drop p pat) (drop (s - m + j) inp)"
proof -
  let ?seg = "take (p - Suc k) (drop (Suc k) pat)"
  have k: "k < p" "m \<le> s" "p - Suc k = s - m" "\<forall>i. k < i \<and> i < p \<longrightarrow> pat ! i \<noteq> CHR ''*''"
    using assms(1) by (auto simp: since_star_def)
  have len: "length ?seg = s - m" using k assms(2) by simp
  have "CHR ''*'' \<notin> set ?seg" using k assms(2) by (auto simp: in_set_conv_nth)
  moreover have "drop (Suc k) pat = ?seg @ drop p pat"
    using k(1) by (metis Suc_leI add.commute append_take_drop_id drop_drop le_add_diff_inverse2)
  ultimately show ?thesis using glob_no_star[of ?seg "drop p pat" "drop j inp"] assms(4,5) len by auto
qed

lemma later_start_star:
  assumes "later_start pat inp star m" "since_star pat p s star m" "p < length pat" "pat ! p = CHR ''*''"
  shows "glob (drop p pat) (drop s inp)"
proof -
  from assms(1) obtain k j where k: "star = Some k" "m < j" "j \<le> length inp" "glob (drop (Suc k) pat) (drop j inp)"
    by (auto simp: later_start_def split: option.splits)
  have "m \<le> s" using assms(2) k by (simp add: since_star_def)
  from later_start_split[OF assms(2)[unfolded k(1)] _ k(2-4)] assms(3)
  have e: "s - m + j \<le> length inp" "glob (drop p pat) (drop (s - m + j) inp)" by simp_all
  have d: "drop p pat = CHR ''*'' # drop (Suc p) pat" using assms(3,4) by (metis Cons_nth_drop_Suc)
  from e(2) obtain i where "i \<le> length (drop (s - m + j) inp)" "glob (drop (Suc p) pat) (drop i (drop (s - m + j) inp))"
    unfolding d glob_star by blast
  moreover have "drop i (drop (s - m + j) inp) = drop (i + (j - m)) (drop s inp)" using k(2) \<open>m \<le> s\<close> by (simp add: add.commute add.left_commute)
  ultimately show ?thesis unfolding d glob_star using e(1) k(2) \<open>m \<le> s\<close> by (intro exI[of _ "i + (j - m)"]) auto
qed

lemma later_start_end:
  assumes "since_star pat p s star m" "p \<le> length pat" "s = length inp"
  shows "\<not> later_start pat inp star m"
proof
  assume "later_start pat inp star m"
  then obtain k j where k: "star = Some k" "m < j" "j \<le> length inp" "glob (drop (Suc k) pat) (drop j inp)"
    by (auto simp: later_start_def split: option.splits)
  from later_start_split[OF assms(1)[unfolded k(1)] assms(2) k(2-4)] assms k show False
    by (auto simp: since_star_def)
qed

lemma later_start_step:
  assumes "m < length inp"
  shows "later_start pat inp (Some k) m \<longleftrightarrow> glob (drop (Suc k) pat) (drop (Suc m) inp) \<or> later_start pat inp (Some k) (Suc m)"
proof -
  have "(\<exists>j > m. P j) \<longleftrightarrow> P (Suc m) \<or> (\<exists>j > Suc m. P j)" for P
    by (metis Suc_lessD Suc_lessI lessI)
  from this[of "\<lambda>j. j \<le> length inp \<and> glob (drop (Suc k) pat) (drop j inp)"] assms
  show ?thesis by (simp add: later_start_def Suc_le_eq)
qed

lemma shift_exists: "s \<le> n \<Longrightarrow> (\<exists>i \<le> n - s. P (i + s)) \<longleftrightarrow> (\<exists>j \<ge> s. j \<le> n \<and> P j)" for s n :: nat
proof
  assume "s \<le> n" "\<exists>i \<le> n - s. P (i + s)"
  then obtain i where "i \<le> n - s" "P (i + s)" by blast
  with \<open>s \<le> n\<close> show "\<exists>j \<ge> s. j \<le> n \<and> P j" by (intro exI[of _ "i + s"]) simp
next
  assume "\<exists>j \<ge> s. j \<le> n \<and> P j"
  then obtain j where "s \<le> j" "j \<le> n" "P j" by blast
  then show "\<exists>i \<le> n - s. P (i + s)" by (intro exI[of _ "j - s"]) simp
qed

lemma wildcard_loop_correct:
  assumes "CHR ''*'' \<notin> set inp" "p \<le> length pat" "s \<le> length inp" "since_star pat p s star m" "m \<le> s"
  shows "wildcard_loop pat inp p s star m \<longleftrightarrow> glob (drop p pat) (drop s inp) \<or> later_start pat inp star m"
  using assms
proof (induction pat inp p s star m rule: wildcard_loop.induct)
  case (1 pat inp p s star m)
  note unfold = wildcard_loop.simps[of pat inp p s star m]
  consider (over) "s = length inp"
    | (char) "s < length inp" "p < length pat" "pat ! p = CHR ''?'' \<or> pat ! p = inp ! s"
    | (star) "s < length inp" "p < length pat" "\<not> (pat ! p = CHR ''?'' \<or> pat ! p = inp ! s)" "pat ! p = CHR ''*''"
    | (retry) "s < length inp" "p < length pat \<longrightarrow> \<not> (pat ! p = CHR ''?'' \<or> pat ! p = inp ! s) \<and> pat ! p \<noteq> CHR ''*''"
    using "1.prems"(3) by linarith
  then show ?case
  proof cases
    case over
    then have "wildcard_loop pat inp p s star m \<longleftrightarrow> skip_stars pat p = length pat" unfolding unfold by simp
    with over "1.prems" later_start_end[OF "1.prems"(4,2) over] show ?thesis by (simp add: skip_stars_glob)
  next
    case char
    have "inp ! s \<noteq> CHR ''*''" using nth_mem[OF char(1)] "1.prems"(1) by metis
    then have ns: "pat ! p \<noteq> CHR ''*''" using char(3) by auto
    have "since_star pat (p + 1) (s + 1) star m"
      using "1.prems"(4,5) ns by (auto simp: since_star_def less_Suc_eq split: option.splits)
    with char "1.prems" "1.IH"(1) have "wildcard_loop pat inp p s star m \<longleftrightarrow> glob (drop (Suc p) pat) (drop (Suc s) inp) \<or> later_start pat inp star m"
      by (simp add: unfold)
    moreover have "glob (drop p pat) (drop s inp) \<longleftrightarrow> glob (drop (Suc p) pat) (drop (Suc s) inp)"
      using char ns by (simp add: Cons_nth_drop_Suc[symmetric])
    ultimately show ?thesis by simp
  next
    case star
    have "since_star pat (p + 1) s (Some p) s" by (auto simp: since_star_def)
    with star "1.prems" "1.IH"(2) have "wildcard_loop pat inp p s star m
        \<longleftrightarrow> glob (drop (Suc p) pat) (drop s inp) \<or> later_start pat inp (Some p) s"
      by (simp add: unfold)
    also have "\<dots> \<longleftrightarrow> glob (drop p pat) (drop s inp)"
    proof -
      have "drop p pat = CHR ''*'' # drop (Suc p) pat" using star(2,4) by (metis Cons_nth_drop_Suc)
      then have "glob (drop p pat) (drop s inp) \<longleftrightarrow> (\<exists>i \<le> length inp - s. glob (drop (Suc p) pat) (drop (i + s) inp))"
        by (simp add: glob_star)
      also have "\<dots> \<longleftrightarrow> (\<exists>j \<ge> s. j \<le> length inp \<and> glob (drop (Suc p) pat) (drop j inp))"
        by (rule shift_exists[OF less_imp_le[OF star(1)]])
      finally have "glob (drop p pat) (drop s inp) \<longleftrightarrow> (\<exists>j \<ge> s. j \<le> length inp \<and> glob (drop (Suc p) pat) (drop j inp))" .
      then show ?thesis using star(1) by (auto simp: later_start_def le_less)
    qed
    finally show ?thesis using later_start_star[OF _ "1.prems"(4) star(2,4)] by blast
  next
    case retry
    have no: "\<not> glob (drop p pat) (drop s inp)"
      using retry by (cases "p < length pat") (auto simp: Cons_nth_drop_Suc[symmetric])
    show ?thesis
    proof (cases star)
      case None
      with retry have "\<not> wildcard_loop pat inp p s star m" unfolding unfold by auto
      with None no show ?thesis by (simp add: later_start_def)
    next
      case (Some k)
      have "k < p" using "1.prems"(4) Some by (simp add: since_star_def)
      have "since_star pat (k + 1) (m + 1) (Some k) (m + 1)" by (auto simp: since_star_def)
      with retry Some "1.prems" "1.IH"(3) \<open>k < p\<close>
      have "wildcard_loop pat inp p s star m \<longleftrightarrow> glob (drop (Suc k) pat) (drop (Suc m) inp) \<or> later_start pat inp (Some k) (Suc m)"
        unfolding unfold by auto
      moreover have "m < length inp" using "1.prems"(5) retry by simp
      ultimately show ?thesis using no Some later_start_step by blast
    qed
  qed
qed

text \<open>
  C31. The matcher of module aliases is exact: on a device alias, which has no star in it, the loop
  with one remembered star says yes exactly when the pattern matches, where a question mark stands
  for any character and a star for any text. It always ends.
\<close>

theorem wildcard_match_exact:
  assumes "CHR ''*'' \<notin> set input"
  shows "wildcard_match pattern input \<longleftrightarrow> glob pattern input"
  using wildcard_loop_correct[of input 0 pattern 0 None 0] assms
  by (simp add: wildcard_match_def since_star_def later_start_def)

theorem wildcard_match_exact_witness:
  "wildcard_match ''usb:v*p*d*'' ''usb:v0BDAp8153d3000'' \<and> \<not> wildcard_match ''usb:v*x'' ''usb:v0BDA''"
  by (subst wildcard_match_exact wildcard_match_exact[of "''usb:v0BDA''"], simp, code_simp)+

text \<open>A star in the text is taken for the star of the pattern, which then matches that one character only.\<close>

lemma wildcard_match_star_in_text: "\<not> wildcard_match ''*'' ''*a'' \<and> glob ''*'' ''*a''"
  by code_simp

end
