(* ===== verification/Kmod.thy ===== *)
theory Kmod
  imports Wildcard
begin

text \<open>
  Kernel modules (\<open>init/kmod.rs\<close> and \<open>modes/modprobe.rs\<close>): finding a module file, the alias and
  dependency tables with their caches, loading a module after its dependencies, and the coldplug
  and hotplug events. The file system is a record of what the code reads of it; the kernel call
  that loads a module is a parameter on the kernel's own state \<open>'k\<close>. Names are UTF-8, log lines are
  not modelled, and a lock is never poisoned.
\<close>

section \<open>What the code reads\<close>

text \<open>Directory entries are in the order in which \<open>read_dir\<close> gives them; a directory that cannot be read is empty.\<close>

datatype file_tree = TDir "(string \<times> file_tree) list" | TFile

datatype init_result = InitOk | OpenFailed | InitExists | InitNoDevice | InitOther

text \<open>
  The table \<open>modules.dep\<close> is missing (\<open>None\<close>), unreadable (\<open>Some None\<close>) or has a content; the alias
  table has a content or cannot be read.
\<close>

record 'k module_world =
  mw_release :: string
  mw_tree :: "(string \<times> file_tree) list"
  mw_dep :: "string option option"
  mw_alias :: "string option"
  mw_init :: "string \<Rightarrow> bool \<Rightarrow> 'k \<Rightarrow> init_result \<times> 'k"

type_synonym dep_map = "string \<rightharpoonup> string \<times> string list"

record 'k kmod_state =
  km_loaded :: "string set"
  km_dep_cache :: "dep_map option"
  km_alias_cache :: "(string \<times> string) list option"
  km_kernel :: 'k

section \<open>Names and files\<close>

abbreviation normalize :: "string \<Rightarrow> string" where
  "normalize \<equiv> replace_char (CHR ''_'') (CHR ''-'')"

definition stem_of :: "string \<Rightarrow> string" where
  "stem_of name = normalize (hd (split_char (CHR ''.'') name))"

definition module_stem :: "string \<Rightarrow> string option" where
  "module_stem path = map_option stem_of (path_file_name path)"

fun find_module_recursive :: "string \<Rightarrow> (string \<times> file_tree) list \<Rightarrow> string \<Rightarrow> string option" where
  "find_module_recursive dir [] base_name = None"
| "find_module_recursive dir ((name, TDir entries) # rest) base_name =
     (case find_module_recursive (path_join dir name) entries base_name of
        Some found \<Rightarrow> Some found
      | None \<Rightarrow> find_module_recursive dir rest base_name)"
| "find_module_recursive dir ((name, TFile) # rest) base_name =
     (if stem_of name = stem_of base_name then Some (path_join dir name) else find_module_recursive dir rest base_name)"

definition modules_dir :: "'k module_world \<Rightarrow> string" where
  "modules_dir W = path_join ''/lib/modules'' (mw_release W)"

section \<open>The dependency table\<close>

definition parse_dep_line :: "string \<Rightarrow> string \<Rightarrow> (string \<times> string \<times> string list) option" where
  "parse_dep_line dir line =
     (let parts = split_char (CHR '':'') line;
          mod_path = utf8_trim (hd parts)
      in case module_stem mod_path of
           None \<Rightarrow> None
         | Some stem \<Rightarrow>
             let deps = (if 1 < length parts
                         then filter (\<lambda>d. d \<noteq> [])
                                (map (\<lambda>dep. case module_stem (utf8_trim dep) of Some d \<Rightarrow> d | None \<Rightarrow> []) (split_whitespace (parts ! 1)))
                         else [])
             in Some (stem, path_join dir mod_path, deps))"

definition parse_modules_dep :: "string option \<Rightarrow> string \<Rightarrow> dep_map" where
  "parse_modules_dep content dir =
     (case content of
        None \<Rightarrow> Map.empty
      | Some c \<Rightarrow> foldl (\<lambda>m line. case parse_dep_line dir line of Some (stem, entry) \<Rightarrow> m(stem \<mapsto> entry) | None \<Rightarrow> m)
                    Map.empty (text_lines c))"

definition get_or_load_dep_map :: "'k module_world \<Rightarrow> 'k kmod_state \<Rightarrow> dep_map option \<times> 'k kmod_state" where
  "get_or_load_dep_map W s =
     (if mw_release W = [] then (None, s)
      else case km_dep_cache s of
        Some m \<Rightarrow> (Some m, s)
      | None \<Rightarrow> (case mw_dep W of
            None \<Rightarrow> (None, s)
          | Some content \<Rightarrow>
              let m = parse_modules_dep content (modules_dir W) in (Some m, s\<lparr> km_dep_cache := Some m \<rparr>)))"

definition MAX_DEP_RECURSION_DEPTH :: nat where
  "MAX_DEP_RECURSION_DEPTH = 64"

text \<open>
  \<open>resolve_deps_recursive_internal\<close> returns the list \<open>resolved\<close> and the set \<open>visited\<close>; the second
  function is its loop over the dependencies.
\<close>

function resolve_deps_recursive_internal ::
    "dep_map \<Rightarrow> nat \<Rightarrow> string \<Rightarrow> string list \<times> string set \<Rightarrow> string list \<times> string set"
  and resolve_deps_loop :: "dep_map \<Rightarrow> nat \<Rightarrow> string list \<Rightarrow> string list \<times> string set \<Rightarrow> string list \<times> string set" where
  "resolve_deps_recursive_internal dep_map depth mod_name (resolved, visited) =
     (if MAX_DEP_RECURSION_DEPTH < depth then (resolved, visited)
      else if normalize mod_name \<in> visited then (resolved, visited)
      else
        let visited = insert (normalize mod_name) visited in
        case dep_map (normalize mod_name) of
          Some (path, deps) \<Rightarrow>
            (case resolve_deps_loop dep_map (depth + 1) deps (resolved, visited) of
               (resolved, visited) \<Rightarrow> (resolved @ [path], visited))
        | None \<Rightarrow> (resolved, visited))"
| "resolve_deps_loop dep_map depth [] acc = acc"
| "resolve_deps_loop dep_map depth (dep # deps) acc =
     resolve_deps_loop dep_map depth deps (resolve_deps_recursive_internal dep_map depth dep acc)"
  by pat_completeness auto
termination
  by (relation "measures [\<lambda>x. case x of Inl (m, depth, _) \<Rightarrow> Suc MAX_DEP_RECURSION_DEPTH - depth
                                 | Inr (m, depth, _) \<Rightarrow> Suc MAX_DEP_RECURSION_DEPTH - depth,
                          \<lambda>x. case x of Inl _ \<Rightarrow> 0 | Inr (m, depth, ds, _) \<Rightarrow> Suc (length ds)]") auto

definition resolve_deps_recursive :: "dep_map \<Rightarrow> string \<Rightarrow> string list" where
  "resolve_deps_recursive dep_map mod_name = fst (resolve_deps_recursive_internal dep_map 0 mod_name ([], {}))"

section \<open>The alias table\<close>

definition parse_modules_alias_line :: "string \<Rightarrow> (string \<times> string) option" where
  "parse_modules_alias_line line =
     (case split_whitespace line of
        word # pattern # module # _ \<Rightarrow> if word = ''alias'' then Some (pattern, module) else None
      | _ \<Rightarrow> None)"

definition load_alias_list :: "'k module_world \<Rightarrow> (string \<times> string) list" where
  "load_alias_list W =
     (case mw_alias W of None \<Rightarrow> [] | Some content \<Rightarrow> List.map_filter parse_modules_alias_line (text_lines content))"

definition resolve_alias :: "'k module_world \<Rightarrow> string \<Rightarrow> 'k kmod_state \<Rightarrow> string list \<times> 'k kmod_state" where
  "resolve_alias W alias_or_name s =
     (if mw_release W = [] then ([alias_or_name], s)
      else
        let aliases = (case km_alias_cache s of Some l \<Rightarrow> l | None \<Rightarrow> load_alias_list W);
            matches = map snd (filter (\<lambda>(pattern, module). wildcard_match pattern alias_or_name) aliases)
        in (if matches = [] then [alias_or_name] else matches, s\<lparr> km_alias_cache := Some aliases \<rparr>))"

definition invalidate_module_caches :: "'k kmod_state \<Rightarrow> 'k kmod_state" where
  "invalidate_module_caches s = s\<lparr> km_alias_cache := None, km_dep_cache := None \<rparr>"

section \<open>Loading\<close>

datatype load_module_result = Loaded | NoDevice

definition is_compressed :: "string \<Rightarrow> bool" where
  "is_compressed path =
     (case Option.bind (path_file_name path) name_extension of
        Some e \<Rightarrow> e = ''xz'' \<or> e = ''gz'' \<or> e = ''zst'' | None \<Rightarrow> False)"

text \<open>\<open>None\<close> is an error.\<close>

definition load_module :: "'k module_world \<Rightarrow> string \<Rightarrow> 'k kmod_state \<Rightarrow> load_module_result option \<times> 'k kmod_state" where
  "load_module W path s =
     (case mw_init W path (is_compressed path) (km_kernel s) of
        (r, k) \<Rightarrow>
          (case r of InitOk \<Rightarrow> Some Loaded | InitExists \<Rightarrow> Some Loaded | InitNoDevice \<Rightarrow> Some NoDevice
                   | OpenFailed \<Rightarrow> None | InitOther \<Rightarrow> None,
           s\<lparr> km_kernel := k \<rparr>))"

definition find_module_file :: "'k module_world \<Rightarrow> string \<Rightarrow> 'k kmod_state \<Rightarrow> string option \<times> 'k kmod_state" where
  "find_module_file W name s =
     (if CHR '':'' \<in> set name \<or> CHR ''/'' \<in> set name \<or> contains_str name ''..'' \<or> CHR 0x00 \<in> set name then (None, s)
      else case get_or_load_dep_map W s of
        (dep_map, s) \<Rightarrow>
          (case Option.bind dep_map (\<lambda>m. m (normalize name)) of
             Some (path, _) \<Rightarrow> (Some path, s)
           | None \<Rightarrow>
               if mw_release W = [] then (None, s)
               else (find_module_recursive (modules_dir W) (mw_tree W) (name @ ''.ko''), s)))"

definition load_single_module :: "'k module_world \<Rightarrow> string \<Rightarrow> 'k kmod_state \<Rightarrow> load_module_result option \<times> 'k kmod_state" where
  "load_single_module W mod_name s =
     (case find_module_file W mod_name s of
        (None, s) \<Rightarrow> (Some Loaded, s)
      | (Some path, s) \<Rightarrow> load_module W path s)"

fun load_resolved_module_paths :: "'k module_world \<Rightarrow> string list \<Rightarrow> 'k kmod_state \<Rightarrow> bool \<times> 'k kmod_state" where
  "load_resolved_module_paths W [] s = (True, s)"
| "load_resolved_module_paths W (path # paths) s =
     (case module_stem path of
        None \<Rightarrow> (case load_resolved_module_paths W paths s of (_, s) \<Rightarrow> (False, s))
      | Some stem \<Rightarrow>
          if stem \<in> km_loaded s then load_resolved_module_paths W paths s
          else case load_module W path s of
            (Some Loaded, s) \<Rightarrow> load_resolved_module_paths W paths (s\<lparr> km_loaded := insert stem (km_loaded s) \<rparr>)
          | (Some NoDevice, s) \<Rightarrow> load_resolved_module_paths W paths s
          | (None, s) \<Rightarrow> (case load_resolved_module_paths W paths s of (_, s) \<Rightarrow> (False, s)))"

text \<open>The loop of \<open>load_module_with_dep_map\<close> over the candidates, with \<open>any_success\<close>.\<close>

fun try_candidates :: "'k module_world \<Rightarrow> dep_map \<Rightarrow> string list \<Rightarrow> bool \<Rightarrow> 'k kmod_state \<Rightarrow> bool \<times> 'k kmod_state" where
  "try_candidates W dep_map [] any_success s = (any_success, s)"
| "try_candidates W dep_map (actual_name # names) any_success s =
     (if normalize actual_name \<in> km_loaded s then try_candidates W dep_map names True s
      else
        let resolved = resolve_deps_recursive dep_map actual_name in
        if resolved = [] then
          (if CHR '':'' \<notin> set actual_name then
             (case load_single_module W actual_name s of
                (r, s) \<Rightarrow> try_candidates W dep_map names (any_success \<or> r \<noteq> None) s)
           else try_candidates W dep_map names any_success s)
        else case load_resolved_module_paths W resolved s of
          (True, s) \<Rightarrow> (True, s)
        | (False, s) \<Rightarrow> try_candidates W dep_map names any_success s)"

definition load_module_with_dep_map :: "'k module_world \<Rightarrow> string \<Rightarrow> dep_map \<Rightarrow> 'k kmod_state \<Rightarrow> bool \<times> 'k kmod_state" where
  "load_module_with_dep_map W mod_name dep_map s =
     (case resolve_alias W mod_name s of (candidates, s) \<Rightarrow> try_candidates W dep_map candidates False s)"

fun load_singles :: "'k module_world \<Rightarrow> string list \<Rightarrow> 'k kmod_state \<Rightarrow> 'k kmod_state" where
  "load_singles W [] s = s"
| "load_singles W (actual_name # names) s = load_singles W names (snd (load_single_module W actual_name s))"

definition load_module_with_dependencies :: "'k module_world \<Rightarrow> string \<Rightarrow> 'k kmod_state \<Rightarrow> 'k kmod_state" where
  "load_module_with_dependencies W mod_name s =
     (case get_or_load_dep_map W s of
        (Some dep_map, s) \<Rightarrow> snd (load_module_with_dep_map W mod_name dep_map s)
      | (None, s) \<Rightarrow> (case resolve_alias W mod_name s of (candidates, s) \<Rightarrow> load_singles W candidates s))"

definition load_required_modules :: "'k module_world \<Rightarrow> 'k kmod_state \<Rightarrow> 'k kmod_state" where
  "load_required_modules W s =
     (let modules = [''crc32_generic'', ''crc32-pclmul'', ''crc32c_generic'', ''crc32c-intel'', ''libcrc32c'', ''fat'', ''vfat'',
        ''erofs'', ''nls_cp437'', ''nls_ascii'', ''nls_utf8'', ''nls_iso8859_1'', ''nft_chain_nat'', ''nft_ct'', ''nft_masq'']
      in case get_or_load_dep_map W s of
        (Some dep_map, s) \<Rightarrow> foldl (\<lambda>s m. snd (load_module_with_dep_map W m dep_map s)) s modules
      | (None, s) \<Rightarrow> foldl (\<lambda>s m. load_module_with_dependencies W m s) s modules)"

section \<open>Device events\<close>

fun traverse_and_trigger :: "string \<Rightarrow> (string \<times> file_tree) list \<Rightarrow> string list" where
  "traverse_and_trigger dir [] = []"
| "traverse_and_trigger dir ((name, TDir entries) # rest) =
     traverse_and_trigger (path_join dir name) entries @ traverse_and_trigger dir rest"
| "traverse_and_trigger dir ((name, TFile) # rest) =
     (if name = ''uevent'' then [path_join dir name] else []) @ traverse_and_trigger dir rest"

definition trigger_uevents :: "(string \<times> file_tree) list option \<Rightarrow> string list" where
  "trigger_uevents sys_devices = (case sys_devices of Some es \<Rightarrow> traverse_and_trigger ''/sys/devices'' es | None \<Rightarrow> [])"

text \<open>
  Activating the full set of modules: the boot image is mounted over the directory of modules, the
  caches of the old tree are dropped, and the coldplug events are triggered. \<open>mounted\<close> is the world
  after a successful mount; the second result are the files written.
\<close>

definition activate_boot_modules ::
  "'k module_world \<Rightarrow> bool \<Rightarrow> ('k kmod_state \<Rightarrow> bool) \<Rightarrow> (string \<times> file_tree) list option \<Rightarrow> 'k kmod_state
     \<Rightarrow> 'k kmod_state \<times> string list \<times> bool" where
  "activate_boot_modules W image_exists mount_ok sys_devices s =
     (if mw_release W = [] \<or> \<not> image_exists then (s, [], False)
      else
        let s = foldl (\<lambda>s m. load_module_with_dependencies W m s) s
                  [''crc32_generic'', ''crc32-pclmul'', ''crc32c_generic'', ''crc32c-intel'', ''libcrc32c'', ''erofs'']
        in if \<not> mount_ok s then (s, [], False)
           else (invalidate_module_caches s, trigger_uevents sys_devices, True))"

record uevent =
  ue_add :: bool
  ue_modalias :: "string option"

definition handle_uevent :: "'k module_world \<Rightarrow> uevent \<Rightarrow> 'k kmod_state \<Rightarrow> 'k kmod_state" where
  "handle_uevent W u s =
     (case ue_modalias u of
        Some modalias \<Rightarrow> if ue_add u then load_module_with_dependencies W modalias s else s
      | None \<Rightarrow> s)"

datatype uevent_recv = RecvEvent uevent | RecvMalformed | RecvOverflow | RecvFailed

text \<open>The listener: the events it receives, until a read fails; the second result are the coldplug writes.\<close>

fun run_uevent_listener :: "'k module_world \<Rightarrow> (string \<times> file_tree) list option \<Rightarrow> uevent_recv list \<Rightarrow> 'k kmod_state
    \<Rightarrow> 'k kmod_state \<times> string list" where
  "run_uevent_listener W sys_devices [] s = (s, [])"
| "run_uevent_listener W sys_devices (RecvEvent u # rs) s = run_uevent_listener W sys_devices rs (handle_uevent W u s)"
| "run_uevent_listener W sys_devices (RecvMalformed # rs) s = run_uevent_listener W sys_devices rs s"
| "run_uevent_listener W sys_devices (RecvOverflow # rs) s =
     (case run_uevent_listener W sys_devices rs s of (s, writes) \<Rightarrow> (s, trigger_uevents sys_devices @ writes))"
| "run_uevent_listener W sys_devices (RecvFailed # rs) s = (s, [])"

definition run_as_modprobe :: "'k module_world \<Rightarrow> string \<Rightarrow> 'k kmod_state \<Rightarrow> 'k kmod_state" where
  "run_as_modprobe W module_name s = load_module_with_dependencies W module_name s"

end
