(* ===== verification/Kmod_Deps.thy ===== *)
theory Kmod_Deps
  imports Kmod
begin

text \<open>
  Dependency resolution (\<open>resolve_deps_recursive\<close>) is a depth-first search: on a table without
  cycles and with chains no longer than the recursion limit it lists every module that is needed
  once, each after the modules it depends on. Loading the list therefore works in a kernel that
  accepts a module when its dependencies are there.
\<close>

section \<open>The dependency graph\<close>

definition known_deps :: "dep_map \<Rightarrow> string \<Rightarrow> string set" where
  "known_deps dm n = (case dm n of Some (p, ds) \<Rightarrow> set ds \<inter> dom dm | None \<Rightarrow> {})"

definition path_of :: "dep_map \<Rightarrow> string \<Rightarrow> string" where
  "path_of dm n = (case dm n of Some (p, ds) \<Rightarrow> p | None \<Rightarrow> [])"

definition needed :: "dep_map \<Rightarrow> string \<Rightarrow> string set" where
  "needed dm n = {(a, b). b \<in> known_deps dm a}\<^sup>* `` {n}"

text \<open>Names are normalized, and \<open>rank\<close> bounds the length of the dependency chains of a module.\<close>

definition ranked :: "dep_map \<Rightarrow> (string \<Rightarrow> nat) \<Rightarrow> bool" where
  "ranked dm rank \<longleftrightarrow>
     (\<forall>n p ds. dm n = Some (p, ds) \<longrightarrow> normalize n = n \<and> (\<forall>d \<in> set ds. normalize d = d))
     \<and> (\<forall>n. \<forall>d \<in> known_deps dm n. rank d < rank n)"

definition in_order :: "dep_map \<Rightarrow> string list \<Rightarrow> bool" where
  "in_order dm ns \<longleftrightarrow> (\<forall>i < length ns. known_deps dm (ns ! i) \<subseteq> set (take i ns))"

lemma in_order_Nil [simp]: "in_order dm []"
  by (simp add: in_order_def)

lemma in_order_snoc [simp]: "in_order dm (ns @ [n]) \<longleftrightarrow> in_order dm ns \<and> known_deps dm n \<subseteq> set ns"
  by (auto simp: in_order_def less_Suc_eq nth_append)

lemma in_order_closed: "in_order dm ns \<Longrightarrow> n \<in> set ns \<Longrightarrow> known_deps dm n \<subseteq> set ns"
  unfolding in_order_def by (metis in_set_conv_nth in_set_takeD subset_iff)

lemma in_order_needed:
  assumes "in_order dm ns" "n \<in> set ns"
  shows "needed dm n \<subseteq> set ns"
proof
  fix d assume "d \<in> needed dm n"
  then have "(n, d) \<in> {(a, b). b \<in> known_deps dm a}\<^sup>*" by (simp add: needed_def)
  then show "d \<in> set ns" by induction (use assms in_order_closed in auto)
qed

lemma needed_self [simp]: "n \<in> needed dm n"
  by (simp add: needed_def)

lemma needed_dep: "d \<in> known_deps dm n \<Longrightarrow> needed dm d \<subseteq> needed dm n"
  by (auto simp: needed_def intro: converse_rtrancl_into_rtrancl)

section \<open>The search\<close>

text \<open>
  What holds between the calls: the modules listed are \<open>ns\<close>, those on the recursion stack are
  \<open>stack\<close>, and every known module that was visited is in one of them.
\<close>

definition search_inv :: "dep_map \<Rightarrow> string set \<Rightarrow> string list \<Rightarrow> string set \<Rightarrow> bool" where
  "search_inv dm stack ns visited \<longleftrightarrow>
     distinct ns \<and> set ns \<subseteq> visited \<inter> dom dm \<and> stack \<subseteq> visited \<and> set ns \<inter> stack = {}
     \<and> visited \<inter> dom dm \<subseteq> set ns \<union> stack \<and> in_order dm ns"

definition searched :: "dep_map \<Rightarrow> string set \<Rightarrow> string list \<Rightarrow> string set \<Rightarrow> string set \<Rightarrow> string list \<times> string set \<Rightarrow> bool" where
  "searched dm stack ns visited targets result \<longleftrightarrow>
     (\<exists>new visited'. result = (map (path_of dm) (ns @ new), visited')
        \<and> search_inv dm stack (ns @ new) visited' \<and> visited \<subseteq> visited'
        \<and> targets \<inter> dom dm \<subseteq> set (ns @ new) \<and> set new \<subseteq> (\<Union>n \<in> targets. needed dm n))"

lemma search_enter:
  assumes "search_inv dm stack ns visited" "n \<notin> visited"
  shows "search_inv dm (insert n stack) ns (insert n visited)"
  using assms by (auto simp: search_inv_def)

lemma search_leave:
  assumes "ranked dm rank" "dm n = Some (p, ds)" "n \<notin> stack" "n \<notin> visited" "search_inv dm stack ns visited"
    "searched dm (insert n stack) ns (insert n visited) (set ds) (resolved, visited')"
  shows "searched dm stack ns visited {n} (resolved @ [p], visited')"
proof -
  from assms(6) obtain new where new: "resolved = map (path_of dm) (ns @ new)"
      "search_inv dm (insert n stack) (ns @ new) visited'" "insert n visited \<subseteq> visited'"
      "set ds \<inter> dom dm \<subseteq> set (ns @ new)" "set new \<subseteq> (\<Union>n \<in> set ds. needed dm n)"
    by (auto simp: searched_def)
  have deps: "known_deps dm n \<subseteq> set (ns @ new)" using new(4) assms(2) by (simp add: known_deps_def)
  have "set new \<subseteq> needed dm n"
  proof
    fix x assume x: "x \<in> set new"
    then obtain d where d: "d \<in> set ds" "x \<in> needed dm d" using new(5) by blast
    have "x \<in> dom dm" using new(2) x by (auto simp: search_inv_def)
    have "d \<in> dom dm"
    proof (rule ccontr)
      assume "d \<notin> dom dm"
      then have "known_deps dm d = {}" by (auto simp: known_deps_def split: option.splits)
      with d(2) have "x = d" by (auto simp: needed_def elim: converse_rtranclE)
      with \<open>d \<notin> dom dm\<close> \<open>x \<in> dom dm\<close> show False by simp
    qed
    with d assms(2) have "d \<in> known_deps dm n" by (simp add: known_deps_def)
    with needed_dep d(2) show "x \<in> needed dm n" by blast
  qed
  moreover have "search_inv dm stack (ns @ new @ [n]) visited'"
  proof -
    have "in_order dm ((ns @ new) @ [n])" using new(2) deps by (simp only: in_order_snoc search_inv_def)
    then show ?thesis using new(2,3) assms(2,3) by (auto simp: search_inv_def)
  qed
  moreover have "map (path_of dm) (ns @ new @ [n]) = resolved @ [p]" using new(1) assms(2) by (simp add: path_of_def)
  ultimately show ?thesis
    unfolding searched_def using new(3)
    by (intro exI[of _ "new @ [n]"] exI[of _ visited']) auto
qed

lemma searched_seq:
  assumes "searched dm stack ns visited A (map (path_of dm) ms, v)"
    "\<And>new v'. search_inv dm stack (ns @ new) v' \<Longrightarrow> map (path_of dm) (ns @ new) = map (path_of dm) ms \<Longrightarrow> v' = v
       \<Longrightarrow> searched dm stack (ns @ new) v' B r"
  shows "searched dm stack ns visited (A \<union> B) r"
proof -
  from assms(1) obtain new where 1: "map (path_of dm) ms = map (path_of dm) (ns @ new)" "search_inv dm stack (ns @ new) v"
      "visited \<subseteq> v" "A \<inter> dom dm \<subseteq> set (ns @ new)" "set new \<subseteq> (\<Union>n \<in> A. needed dm n)"
    by (auto simp: searched_def)
  from assms(2)[OF 1(2) 1(1)[symmetric] refl] obtain new2 v2 where 2: "r = (map (path_of dm) ((ns @ new) @ new2), v2)"
      "search_inv dm stack ((ns @ new) @ new2) v2" "v \<subseteq> v2" "B \<inter> dom dm \<subseteq> set ((ns @ new) @ new2)"
      "set new2 \<subseteq> (\<Union>n \<in> B. needed dm n)"
    unfolding searched_def by blast
  show ?thesis unfolding searched_def
    using 1 2 by (intro exI[of _ "new @ new2"] exI[of _ v2]) auto
qed

definition allowed :: "dep_map \<Rightarrow> (string \<Rightarrow> nat) \<Rightarrow> nat \<Rightarrow> string set \<Rightarrow> string \<Rightarrow> bool" where
  "allowed dm rank depth stack n \<longleftrightarrow>
     normalize n = n \<and> (n \<in> dom dm \<longrightarrow> depth + rank n \<le> 64 \<and> (\<forall>x \<in> stack. rank n < rank x))"

lemma allowed_deps:
  assumes "ranked dm rank" "dm n = Some (p, ds)" "allowed dm rank depth stack n" "d \<in> set ds"
  shows "allowed dm rank (depth + 1) (insert n stack) d"
proof -
  have "normalize d = d" using assms(1,2,4) unfolding ranked_def by blast
  moreover have "rank d < rank n" if "d \<in> dom dm"
    using assms that unfolding ranked_def by (force simp: known_deps_def)
  moreover have "n \<in> dom dm" using assms(2) by auto
  ultimately show ?thesis using assms(3) by (fastforce simp: allowed_def)
qed

lemma searched_unchanged:
  assumes "search_inv dm stack ns visited" "targets \<inter> dom dm \<subseteq> set ns"
  shows "searched dm stack ns visited targets (map (path_of dm) ns, visited)"
  using assms unfolding searched_def by (intro exI[of _ "[]"] exI[of _ visited]) auto

lemma search_correct:
  "ranked dm rank \<longrightarrow> allowed dm rank depth stack n \<longrightarrow> acc = (map (path_of dm) ns, visited) \<longrightarrow> search_inv dm stack ns visited
     \<longrightarrow> searched dm stack ns visited {n} (resolve_deps_recursive_internal dm depth n acc)"
  "ranked dm rank \<longrightarrow> (\<forall>d \<in> set ds. allowed dm rank depth stack d) \<longrightarrow> acc = (map (path_of dm) ns, visited)
     \<longrightarrow> search_inv dm stack ns visited \<longrightarrow> searched dm stack ns visited (set ds) (resolve_deps_loop dm depth ds acc)"
proof (induction dm depth n acc and dm depth ds acc
    arbitrary: stack ns visited and stack ns visited
    rule: resolve_deps_recursive_internal_resolve_deps_loop.induct)
  case (1 dm depth n resolved visited0)
  show ?case
  proof (intro impI)
    assume R: "ranked dm rank" and A: "allowed dm rank depth stack n"
      and acc: "(resolved, visited0) = (map (path_of dm) ns, visited)" and I: "search_inv dm stack ns visited"
    have n: "normalize n = n" using A by (simp add: allowed_def)
    consider (deep) "64 < depth" | (seen) "depth \<le> 64" "n \<in> visited"
      | (unknown) "depth \<le> 64" "n \<notin> visited" "dm n = None" | (visit) p ds where "depth \<le> 64" "n \<notin> visited" "dm n = Some (p, ds)"
      by (cases "dm n") force+
    then show "searched dm stack ns visited {n} (resolve_deps_recursive_internal dm depth n (resolved, visited0))"
    proof cases
      case deep
      then have "n \<notin> dom dm" using A by (auto simp: allowed_def)
      with deep acc I show ?thesis by (simp add: MAX_DEP_RECURSION_DEPTH_def searched_unchanged)
    next
      case seen
      have "n \<notin> stack \<or> n \<notin> dom dm" using A by (auto simp: allowed_def)
      then have "{n} \<inter> dom dm \<subseteq> set ns" using I seen by (auto simp: search_inv_def)
      with seen acc I n show ?thesis by (simp add: MAX_DEP_RECURSION_DEPTH_def searched_unchanged)
    next
      case unknown
      have "search_inv dm stack ns (insert n visited)" using I unknown by (auto simp: search_inv_def)
      then have "searched dm stack ns visited {n} (map (path_of dm) ns, insert n visited)"
        unfolding searched_def using unknown by (intro exI[of _ "[]"] exI[of _ "insert n visited"]) auto
      with unknown acc n show ?thesis by (simp add: MAX_DEP_RECURSION_DEPTH_def Let_def)
    next
      case visit
      have ns: "n \<notin> stack" using I visit by (auto simp: search_inv_def)
      obtain resolved' visited' where r: "resolve_deps_loop dm (depth + 1) ds (resolved, insert n visited0) = (resolved', visited')"
        by fastforce
      have "searched dm (insert n stack) ns (insert n visited) (set ds) (resolved', visited')"
        using 1[of "insert n visited0" "(p, ds)" p ds "insert n stack" ns "insert n visited"] R visit acc n r allowed_deps[OF R visit(3) A] search_enter[OF I visit(2)]
        by (simp add: MAX_DEP_RECURSION_DEPTH_def)
      from search_leave[OF R visit(3) ns visit(2) I this] visit acc n r show ?thesis
        by (simp add: MAX_DEP_RECURSION_DEPTH_def Let_def)
    qed
  qed
next
  case (2 dm depth acc)
  then show ?case by (simp add: searched_unchanged)
next
  case (3 dm depth d ds acc)
  show ?case
  proof (intro impI)
    assume R: "ranked dm rank" and A: "\<forall>x \<in> set (d # ds). allowed dm rank depth stack x"
      and acc: "acc = (map (path_of dm) ns, visited)" and I: "search_inv dm stack ns visited"
    have first: "searched dm stack ns visited {d} (resolve_deps_recursive_internal dm depth d acc)"
      using 3(1) R A acc I by simp
    then obtain new v where r: "resolve_deps_recursive_internal dm depth d acc = (map (path_of dm) (ns @ new), v)"
      unfolding searched_def by blast
    have "searched dm stack (ns @ new2) v (set ds) (resolve_deps_loop dm depth ds (map (path_of dm) (ns @ new), v))"
      if "search_inv dm stack (ns @ new2) v" "map (path_of dm) (ns @ new2) = map (path_of dm) (ns @ new)" for new2
      using 3(2)[of stack "ns @ new2" v] R A that r by simp
    from searched_seq[OF first[unfolded r], of "set ds" "resolve_deps_loop dm depth ds (map (path_of dm) (ns @ new), v)"] this
    show "searched dm stack ns visited (set (d # ds)) (resolve_deps_loop dm depth (d # ds) acc)"
      by (simp add: r)
  qed
qed

lemma resolve_deps_listed:
  assumes "ranked dm rank" "normalize n \<in> dom dm" "rank (normalize n) \<le> 64"
  shows "\<exists>ns. resolve_deps_recursive dm n = map (path_of dm) ns \<and> distinct ns \<and> set ns = needed dm (normalize n) \<and> in_order dm ns"
proof -
  have idem: "normalize (normalize n) = normalize n" by (simp add: replace_char_def)
  have same: "resolve_deps_recursive_internal dm 0 (normalize n) ([], {}) = resolve_deps_recursive_internal dm 0 n ([], {})"
    by (simp add: idem)
  have "searched dm {} [] {} {normalize n} (resolve_deps_recursive_internal dm 0 (normalize n) ([], {}))"
    using search_correct(1)[of dm rank 0 "{}" "normalize n" "([], {})" "[]" "{}"] assms idem
    by (simp add: allowed_def search_inv_def)
  then obtain ns v where ns: "resolve_deps_recursive_internal dm 0 n ([], {}) = (map (path_of dm) ns, v)"
      "search_inv dm {} ns v" "normalize n \<in> set ns" "set ns \<subseteq> needed dm (normalize n)"
    using assms(2) unfolding searched_def same by auto
  then have "set ns = needed dm (normalize n)" using in_order_needed by (fastforce simp: search_inv_def)
  with ns show ?thesis by (intro exI[of _ ns]) (simp add: resolve_deps_recursive_def search_inv_def)
qed

section \<open>Loading in a kernel that wants the dependencies first\<close>

text \<open>
  What the kernel does with good module files: it refuses a file whose compression does not fit the flag (\<open>packed\<close>
  tells whether the file at a path is compressed), answers \<open>EEXIST\<close> for a module that is there,
  and otherwise takes the module if and only if the modules it needs are there.
\<close>

definition takes_in_order :: "string set module_world \<Rightarrow> (string \<Rightarrow> bool) \<Rightarrow> dep_map \<Rightarrow> bool" where
  "takes_in_order W packed dm \<longleftrightarrow>
     (\<forall>n \<in> dom dm. \<forall>compressed k. mw_init W (path_of dm n) compressed k =
        (if compressed \<noteq> packed (path_of dm n) then (InitOther, k)
         else if path_of dm n \<in> k then (InitExists, k)
         else if path_of dm ` known_deps dm n \<subseteq> k then (InitOk, insert (path_of dm n) k)
         else (InitOther, k)))"

text \<open>The compressed files are those with the extension of one of the three formats.\<close>

definition packed_by_name :: "(string \<Rightarrow> bool) \<Rightarrow> dep_map \<Rightarrow> bool" where
  "packed_by_name packed dm \<longleftrightarrow>
     (\<forall>n \<in> dom dm. packed (path_of dm n) \<longleftrightarrow>
        (\<exists>b e. path_file_name (path_of dm n) = Some (b @ ''.'' @ e) \<and> b \<noteq> [] \<and> e \<in> {''xz'', ''gz'', ''zst''}))"

lemma name_extension_iff:
  "name_extension f = Some e \<longleftrightarrow> (\<exists>b. b \<noteq> [] \<and> f = b @ ''.'' @ e) \<and> CHR ''.'' \<notin> set e"
proof -
  let ?t = "takeWhile (\<lambda>c. c \<noteq> CHR ''.'') (rev f)" and ?d = "dropWhile (\<lambda>c. c \<noteq> CHR ''.'') (rev f)"
  have f: "f = rev ?d @ rev ?t" by (metis rev_append rev_rev_ident takeWhile_dropWhile_id)
  show ?thesis
  proof
    assume e: "name_extension f = Some e"
    then have l: "length ?t + 1 < length f" and t: "e = rev ?t" by (auto simp: name_extension_def Let_def split: if_splits)
    have "length f = length ?d + length ?t" using arg_cong[OF f, of length] by simp
    with l obtain c ds where d: "?d = c # ds" "ds \<noteq> []" by (cases ?d) auto
    have c: "c = CHR ''.''" using d(1) by (simp add: dropWhile_eq_Cons_conv)
    have "f = rev ds @ ''.'' @ e" using f unfolding d c t by simp
    moreover have "CHR ''.'' \<notin> set e" unfolding t by (auto dest: set_takeWhileD)
    ultimately show "(\<exists>b. b \<noteq> [] \<and> f = b @ ''.'' @ e) \<and> CHR ''.'' \<notin> set e" using d(2) by (intro conjI exI[of _ "rev ds"]) simp_all
  next
    assume "(\<exists>b. b \<noteq> [] \<and> f = b @ ''.'' @ e) \<and> CHR ''.'' \<notin> set e"
    then obtain b where b: "b \<noteq> []" "f = b @ ''.'' @ e" "CHR ''.'' \<notin> set e" by blast
    have "takeWhile (\<lambda>c. c \<noteq> CHR ''.'') (rev e @ CHR ''.'' # rev b) = rev e"
      using b(3) by (simp add: takeWhile_append2 takeWhile_tail) (metis set_rev takeWhile_append2 takeWhile.simps(2) append_Nil2)
    then have "?t = rev e" using b(2) by simp
    then show "name_extension f = Some e" using b(1,2) by (simp add: name_extension_def)
  qed
qed

lemma is_compressed_iff:
  "is_compressed p \<longleftrightarrow> (\<exists>b e. path_file_name p = Some (b @ ''.'' @ e) \<and> b \<noteq> [] \<and> e \<in> {''xz'', ''gz'', ''zst''})"
proof (cases "path_file_name p")
  case (Some f)
  then have "is_compressed p \<longleftrightarrow> (\<exists>e \<in> {''xz'', ''gz'', ''zst''}. name_extension f = Some e)"
    by (auto simp: is_compressed_def split: option.splits)
  then show ?thesis unfolding Some name_extension_iff by auto
qed (simp add: is_compressed_def)

text \<open>The file of a module is named after it, and what the router remembers as loaded is in the kernel.\<close>

definition named_files :: "dep_map \<Rightarrow> bool" where
  "named_files dm \<longleftrightarrow> (\<forall>n \<in> dom dm. module_stem (path_of dm n) = Some n)"

definition in_kernel :: "dep_map \<Rightarrow> string set kmod_state \<Rightarrow> bool" where
  "in_kernel dm s \<longleftrightarrow>
     (\<forall>n \<in> dom dm. (n \<in> km_loaded s \<longrightarrow> path_of dm n \<in> km_kernel s)
        \<and> (path_of dm n \<in> km_kernel s \<longrightarrow> path_of dm ` known_deps dm n \<subseteq> km_kernel s))"

lemma named_files_inj: "named_files dm \<Longrightarrow> n \<in> dom dm \<Longrightarrow> m \<in> dom dm \<Longrightarrow> path_of dm n = path_of dm m \<Longrightarrow> n = m"
  by (metis named_files_def option.inject)

lemma load_new_module:
  assumes "named_files dm" "in_kernel dm s" "n \<in> dom dm" "path_of dm ` known_deps dm n \<subseteq> km_kernel s"
  shows "in_kernel dm (s\<lparr> km_kernel := insert (path_of dm n) (km_kernel s), km_loaded := insert n (km_loaded s) \<rparr>)"
  unfolding in_kernel_def
proof (intro ballI conjI impI)
  fix m assume m: "m \<in> dom dm"
  let ?s = "s\<lparr> km_kernel := insert (path_of dm n) (km_kernel s), km_loaded := insert n (km_loaded s) \<rparr>"
  show "path_of dm m \<in> km_kernel ?s" if "m \<in> km_loaded ?s"
    using that assms(2) m by (auto simp: in_kernel_def)
  show "path_of dm ` known_deps dm m \<subseteq> km_kernel ?s" if k: "path_of dm m \<in> km_kernel ?s"
  proof (cases "m = n")
    case True
    with assms(4) show ?thesis by auto
  next
    case False
    then have "path_of dm m \<in> km_kernel s" using k named_files_inj[OF assms(1) m assms(3)] by auto
    with assms(2) m show ?thesis by (auto simp: in_kernel_def)
  qed
qed

lemma load_resolved_in_order:
  assumes "named_files dm" "takes_in_order W packed dm" "packed_by_name packed dm" "in_kernel dm s" "in_order dm (ls @ ns)" "set (ls @ ns) \<subseteq> dom dm"
    "path_of dm ` set ls \<subseteq> km_kernel s"
  shows "\<exists>s'. load_resolved_module_paths W (map (path_of dm) ns) s = (True, s') \<and> in_kernel dm s'
    \<and> km_kernel s' = km_kernel s \<union> path_of dm ` set ns"
  using assms(4-7)
proof (induction ns arbitrary: ls s)
  case (Cons n ns)
  have n: "n \<in> dom dm" "module_stem (path_of dm n) = Some n"
    using Cons.prems(3) assms(1) by (auto simp: named_files_def)
  have "known_deps dm n \<subseteq> set ls"
    using Cons.prems(2) unfolding in_order_def
    by (elim allE[of _ "length ls"]) simp
  then have deps: "path_of dm ` known_deps dm n \<subseteq> km_kernel s" using Cons.prems(4) by blast
  show ?case
  proof (cases "n \<in> km_loaded s")
    case True
    have k: "path_of dm n \<in> km_kernel s" using True Cons.prems(1) n(1) by (simp add: in_kernel_def)
    with Cons.IH[of s "ls @ [n]"] Cons.prems obtain s' where
      "load_resolved_module_paths W (map (path_of dm) ns) s = (True, s')" "in_kernel dm s'"
      "km_kernel s' = km_kernel s \<union> path_of dm ` set ns" by auto
    with True n k show ?thesis by auto
  next
    case False
    let ?s = "s\<lparr> km_kernel := insert (path_of dm n) (km_kernel s), km_loaded := insert n (km_loaded s) \<rparr>"
    have "packed (path_of dm n) = is_compressed (path_of dm n)"
      using assms(3) n(1) by (simp add: packed_by_name_def is_compressed_iff)
    then have init: "load_module W (path_of dm n) s = (Some Loaded, s\<lparr> km_kernel := insert (path_of dm n) (km_kernel s) \<rparr>)"
      using assms(2) n(1) deps by (auto simp: takes_in_order_def load_module_def insert_absorb)
    have "in_kernel dm ?s" by (rule load_new_module[OF assms(1) Cons.prems(1) n(1) deps])
    with Cons.IH[of ?s "ls @ [n]"] Cons.prems obtain s' where
      "load_resolved_module_paths W (map (path_of dm) ns) ?s = (True, s')" "in_kernel dm s'"
      "km_kernel s' = km_kernel ?s \<union> path_of dm ` set ns" by auto
    with False n init show ?thesis by auto
  qed
qed simp

lemma in_kernel_needed:
  assumes "in_kernel dm s" "n \<in> dom dm" "path_of dm n \<in> km_kernel s"
  shows "path_of dm ` needed dm n \<subseteq> km_kernel s"
proof (intro image_subsetI)
  fix d assume "d \<in> needed dm n"
  then have "(n, d) \<in> {(a, b). b \<in> known_deps dm a}\<^sup>*" by (simp add: needed_def)
  then have "d \<in> dom dm \<and> path_of dm d \<in> km_kernel s"
  proof induction
    case (step a b)
    then show ?case using assms(1) by (fastforce simp: in_kernel_def known_deps_def split: option.splits)
  qed (use assms in simp)
  then show "path_of dm d \<in> km_kernel s" by simp
qed

text \<open>
  C16. Asking for a module loads it with everything it needs: on a dependency table without cycles
  and with chains of at most 64 steps, whose files are named after the modules and after their compression, in a
  kernel that takes a module exactly when the flag fits the file, the module is not there yet and
  its dependencies are there, loading a known module by its name, which is no alias, succeeds, and afterwards exactly the module and
  the modules it depends on, directly or not, have been added to the kernel. Hyphens and
  underscores in the name do not matter.
\<close>

theorem module_loads_with_dependencies:
  assumes "ranked dm rank" "named_files dm" "takes_in_order W packed dm" "packed_by_name packed dm" "in_kernel dm s"
    "fst (resolve_alias W name s) = [name]" "normalize name \<in> dom dm" "rank (normalize name) \<le> 64"
  shows "\<exists>s'. load_module_with_dep_map W name dm s = (True, s') \<and> in_kernel dm s'
    \<and> km_kernel s' = km_kernel s \<union> path_of dm ` needed dm (normalize name)"
proof -
  obtain s1 where s1: "resolve_alias W name s = ([name], s1)" using assms(6) by (metis prod.collapse)
  then have same: "km_kernel s1 = km_kernel s" "km_loaded s1 = km_loaded s"
    by (auto simp: resolve_alias_def Let_def split: if_splits option.splits)
  then have k1: "in_kernel dm s1" using assms(5) by (simp add: in_kernel_def)
  show ?thesis
  proof (cases "normalize name \<in> km_loaded s1")
    case True
    then have "path_of dm (normalize name) \<in> km_kernel s1" using k1 assms(7) by (simp add: in_kernel_def)
    with in_kernel_needed[OF k1 assms(7)] True s1 same k1 show ?thesis
      by (auto simp: load_module_with_dep_map_def)
  next
    case False
    from resolve_deps_listed[OF assms(1,7,8)] obtain ns where ns: "resolve_deps_recursive dm name = map (path_of dm) ns"
      "set ns = needed dm (normalize name)" "in_order dm ns" by blast
    have "set ns \<subseteq> dom dm"
    proof
      fix d assume "d \<in> set ns"
      then have "(normalize name, d) \<in> {(a, b). b \<in> known_deps dm a}\<^sup>*" using ns(2) by (simp add: needed_def)
      then show "d \<in> dom dm" by induction (use assms(7) in \<open>auto simp: known_deps_def split: option.splits\<close>)
    qed
    with load_resolved_in_order[OF assms(2-4) k1, of "[]" ns] ns obtain s' where
      "load_resolved_module_paths W (map (path_of dm) ns) s1 = (True, s')" "in_kernel dm s'"
      "km_kernel s' = km_kernel s1 \<union> path_of dm ` set ns" by auto
    moreover have "ns \<noteq> []" using ns(2) needed_self by (metis empty_iff empty_set)
    ultimately show ?thesis using False s1 same ns(1,2) by (simp add: load_module_with_dep_map_def Let_def)
  qed
qed

text \<open>The table with \<open>vfat\<close> depending on \<open>fat\<close>, as \<open>modules.dep\<close> lists it, in a kernel that checks the dependency.\<close>

definition two_modules :: "string" where
  "two_modules = ''kernel/fs/fat.ko.xz:'' @ [CHR 0x0A] @ ''kernel/fs/vfat.ko.xz: kernel/fs/fat.ko.xz'' @ [CHR 0x0A]"

definition strict_world :: "string set module_world" where
  "strict_world = \<lparr> mw_release = ''6'', mw_tree = [], mw_dep = Some (Some two_modules), mw_alias = None,
     mw_init = (\<lambda>p c k. if \<not> c then (InitOther, k) else if p \<in> k then (InitExists, k)
                       else if p = ''/lib/modules/6/kernel/fs/vfat.ko.xz'' \<and> ''/lib/modules/6/kernel/fs/fat.ko.xz'' \<notin> k
                       then (InitOther, k) else (InitOk, insert p k)) \<rparr>"

lemma two_modules_table:
  "parse_modules_dep (Some two_modules) ''/lib/modules/6'' =
     [''fat'' \<mapsto> (''/lib/modules/6/kernel/fs/fat.ko.xz'', []), ''vfat'' \<mapsto> (''/lib/modules/6/kernel/fs/vfat.ko.xz'', [''fat''])]"
proof -
  have l: "text_lines two_modules = [''kernel/fs/fat.ko.xz:'', ''kernel/fs/vfat.ko.xz: kernel/fs/fat.ko.xz'']" by code_simp
  have 1: "parse_dep_line ''/lib/modules/6'' ''kernel/fs/fat.ko.xz:'' = Some (''fat'', ''/lib/modules/6/kernel/fs/fat.ko.xz'', [])"
    by code_simp
  have 2: "parse_dep_line ''/lib/modules/6'' ''kernel/fs/vfat.ko.xz: kernel/fs/fat.ko.xz''
      = Some (''vfat'', ''/lib/modules/6/kernel/fs/vfat.ko.xz'', [''fat''])" by code_simp
  show ?thesis by (simp add: parse_modules_dep_def l 1 2)
qed

theorem module_loads_with_dependencies_witness:
  "\<exists>s'. load_module_with_dep_map strict_world ''vfat'' (parse_modules_dep (Some two_modules) ''/lib/modules/6'')
        \<lparr> km_loaded = {}, km_dep_cache = None, km_alias_cache = None, km_kernel = {} \<rparr> = (True, s')
     \<and> ''/lib/modules/6/kernel/fs/fat.ko.xz'' \<in> km_kernel s' \<and> ''/lib/modules/6/kernel/fs/vfat.ko.xz'' \<in> km_kernel s'"
proof -
  let ?dm = "parse_modules_dep (Some two_modules) ''/lib/modules/6''"
  let ?s = "\<lparr> km_loaded = {}, km_dep_cache = None, km_alias_cache = None, km_kernel = {} \<rparr> :: string set kmod_state"
  have deps: "known_deps ?dm n = (if n = ''vfat'' then {''fat''} else {})" for n
    by (auto simp: two_modules_table known_deps_def)
  have paths: "path_of ?dm ''fat'' = ''/lib/modules/6/kernel/fs/fat.ko.xz''" "path_of ?dm ''vfat'' = ''/lib/modules/6/kernel/fs/vfat.ko.xz''"
    by (simp_all add: two_modules_table path_of_def)
  have d: "dom ?dm = {''fat'', ''vfat''}" by (auto simp: two_modules_table)
  have stems: "module_stem ''/lib/modules/6/kernel/fs/fat.ko.xz'' = Some ''fat''"
    "module_stem ''/lib/modules/6/kernel/fs/vfat.ko.xz'' = Some ''vfat''" by code_simp+
  have norm: "normalize ''vfat'' = ''vfat''" "normalize ''fat'' = ''fat''" by (simp_all add: replace_char_def)
  have "ranked ?dm (\<lambda>n. if n = ''vfat'' then 1 else 0)"
    unfolding ranked_def deps by (auto simp: two_modules_table norm split: if_splits)
  moreover have "named_files ?dm" unfolding named_files_def d by (simp add: paths stems)
  moreover have "takes_in_order strict_world (\<lambda>_. True) ?dm"
    unfolding takes_in_order_def d deps by (simp add: paths strict_world_def)
  moreover have "packed_by_name (\<lambda>_. True) ?dm"
  proof -
    have "is_compressed ''/lib/modules/6/kernel/fs/fat.ko.xz''" "is_compressed ''/lib/modules/6/kernel/fs/vfat.ko.xz''" by code_simp+
    then show ?thesis unfolding packed_by_name_def d is_compressed_iff[symmetric] by (simp add: paths)
  qed
  moreover have "in_kernel ?dm ?s" by (simp add: in_kernel_def)
  moreover have "fst (resolve_alias strict_world ''vfat'' ?s) = [''vfat'']"
    by (simp add: resolve_alias_def strict_world_def load_alias_list_def)
  moreover have "normalize ''vfat'' \<in> dom ?dm" unfolding norm d by simp
  moreover have "(if normalize ''vfat'' = ''vfat'' then 1 else 0 :: nat) \<le> 64" by simp
  ultimately obtain s' where s': "load_module_with_dep_map strict_world ''vfat'' ?dm ?s = (True, s')"
      "km_kernel s' = km_kernel ?s \<union> path_of ?dm ` needed ?dm (normalize ''vfat'')"
    using module_loads_with_dependencies[of ?dm "\<lambda>n. if n = ''vfat'' then 1 else 0" strict_world "\<lambda>_. True" ?s "''vfat''"] by blast
  have "''fat'' \<in> needed ?dm ''vfat''" using needed_dep[of "''fat''" ?dm "''vfat''"] deps by auto
  with s' paths show ?thesis unfolding norm by (metis Un_iff imageI needed_self)
qed

end
