(* ===== verification/Logging.thy ===== *)
theory Logging
  imports Config Rust_Text "HOL-Library.AList" "HOL-Library.List_Lexorder" "HOL-Library.Char_ord"
begin

text \<open>
  The log (\<open>logging.rs\<close>): formatting of lines, the ring buffer of recent lines, the log file with
  its rotation and the removal of old files. Times are a record with the parts and the texts
  that \<open>chrono\<close> gives; the levels are those of the crate \<open>log\<close>. The log directory is a list of named
  entries; the free space of its partition is a parameter. Removing a symbolic link works.
\<close>

section \<open>Levels and lines\<close>

datatype level = Error | Warn | Info | Debug | Trace

fun level_rank :: "level \<Rightarrow> nat" where
  "level_rank Error = 1" | "level_rank Warn = 2" | "level_rank Info = 3" | "level_rank Debug = 4" | "level_rank Trace = 5"

fun filter_rank :: "log_level \<Rightarrow> nat" where
  "filter_rank LevelOff = 0" | "filter_rank LevelError = 1" | "filter_rank LevelWarn = 2" | "filter_rank LevelInfo = 3"
| "filter_rank LevelDebug = 4" | "filter_rank LevelTrace = 5"

definition enabled :: "level \<Rightarrow> log_level \<Rightarrow> bool" where
  "enabled l f \<longleftrightarrow> level_rank l \<le> filter_rank f"

fun show_level :: "level \<Rightarrow> string" where
  "show_level Error = ''ERROR''" | "show_level Warn = ''WARN''" | "show_level Info = ''INFO''"
| "show_level Debug = ''DEBUG''" | "show_level Trace = ''TRACE''"

record utc_time =
  ut_date :: "int \<times> nat"
  ut_stamp :: string
  ut_suffix :: string

abbreviation newline :: string where
  "newline \<equiv> [CHR 0x0A]"

definition parse_line_level :: "string \<Rightarrow> level" where
  "parse_line_level message =
     (let lower = to_ascii_lowercase message in
      if contains_str lower ''fatal'' \<or> contains_str lower ''error'' \<or> contains_str lower ''failed'' \<or> contains_str lower ''panic''
      then Error
      else if contains_str lower ''warning'' \<or> contains_str lower ''warn'' then Warn
      else if contains_str lower ''debug'' then Debug
      else if contains_str lower ''trace'' then Trace
      else Info)"

text \<open>
  A slice of a text panics when an end of it is inside a character: the byte there is a
  continuation byte. \<open>None\<close> is a panic.
\<close>

definition is_char_boundary :: "string \<Rightarrow> nat \<Rightarrow> bool" where
  "is_char_boundary s i \<longleftrightarrow> i = 0 \<or> i = length s \<or> (i < length s \<and> \<not> (128 \<le> ascii_code (s ! i) \<and> ascii_code (s ! i) < 192))"

definition str_slice :: "string \<Rightarrow> nat \<Rightarrow> nat \<Rightarrow> string option" where
  "str_slice s a b = (if a \<le> b \<and> is_char_boundary s a \<and> is_char_boundary s b then Some (drop a (take b s)) else None)"

definition log_line :: "string \<Rightarrow> level \<Rightarrow> string \<Rightarrow> string \<Rightarrow> string" where
  "log_line stamp l service body =
     ''['' @ stamp @ ''] ['' @ show_level l @ ''] ['' @ service @ ''] '' @ body @ newline"

definition format_raw_line_with_explicit_level :: "utc_time \<Rightarrow> level option \<Rightarrow> string \<Rightarrow> string option" where
  "format_raw_line_with_explicit_level now explicit_level message =
     (let trimmed = utf8_trim_end message;
          unformatted =
            (case Option.bind (strip_prefix trimmed ''['') (split_once (CHR '']'')) of
               Some (service, body) \<Rightarrow>
                 let l = (case explicit_level of Some l \<Rightarrow> l | None \<Rightarrow> parse_line_level body)
                 in log_line (ut_stamp now) l service (utf8_trim_start body)
             | None \<Rightarrow>
                 let l = (case explicit_level of Some l \<Rightarrow> l | None \<Rightarrow> parse_line_level trimmed)
                 in log_line (ut_stamp now) l ''system'' trimmed)
      in if starts_with trimmed ''['' \<and> 20 < length trimmed
         then (case str_slice trimmed 1 5 of
                 None \<Rightarrow> None
               | Some year \<Rightarrow> if list_all is_ascii_digit year then Some (trimmed @ newline) else Some unformatted)
         else Some unformatted)"

definition format_raw_line :: "utc_time \<Rightarrow> string \<Rightarrow> string option" where
  "format_raw_line now message = format_raw_line_with_explicit_level now None message"

definition format_log_line :: "utc_time \<Rightarrow> level \<Rightarrow> string \<Rightarrow> string \<Rightarrow> string" where
  "format_log_line now l service message = log_line (ut_stamp now) l service message"

text \<open>The last piece of a target between double colons.\<close>

fun last_colon_part :: "string \<Rightarrow> string \<Rightarrow> string" where
  "last_colon_part part [] = part"
| "last_colon_part part (c # s) =
     (if c = CHR '':'' \<and> s \<noteq> [] \<and> hd s = CHR '':'' then last_colon_part [] (tl s) else last_colon_part (part @ [c]) s)"

definition clean_target :: "string \<Rightarrow> string" where
  "clean_target target =
     replace_char (CHR ''_'') (CHR ''-'')
       (if starts_with target ''trimrouter::'' then last_colon_part [] target else target)"

section \<open>The logger\<close>

definition BYTES_PER_MB :: u64 where "BYTES_PER_MB = 1024 * 1024"
definition MIN_USABLE_LOG_SPACE :: u64 where "MIN_USABLE_LOG_SPACE = 64 * 1024"
definition MAX_RING_BUFFER_LINES :: nat where "MAX_RING_BUFFER_LINES = 500"
definition active_log_name :: string where "active_log_name = ''system.log''"

definition saturating_mul64 :: "u64 \<Rightarrow> u64 \<Rightarrow> u64" where
  "saturating_mul64 a b = (if unat a * unat b < 2 ^ 64 then a * b else - 1)"

datatype log_node = LogFile string | LogLink | LogDir

record log_disk =
  ld_exists :: bool
  ld_entries :: "(string \<times> log_node) list"

record logger =
  log_file :: bool
  max_size_bytes :: u64
  logger_level :: log_level
  current_size :: u64
  last_rotation_date :: "int \<times> nat"
  log_disabled :: bool

text \<open>The whole log: what went to the console and to the subscribers, the ring buffer, the logger and its directory.\<close>

record log_state =
  ls_console :: "string list"
  ls_broadcast :: "string list"
  ls_ring :: "string list"
  ls_logger :: logger
  ls_disk :: log_disk

text \<open>
  The answers of the system during one operation: the total and the available space of the
  partition, whether opening, renaming and removing work, and for a write how many bytes are
  written when it fails.
\<close>

record log_env =
  le_now :: utc_time
  le_pid1 :: bool
  le_space :: "log_disk \<Rightarrow> (u64 \<times> u64) option"
  le_open_ok :: bool
  le_rename_ok :: bool
  le_remove_ok :: "string \<Rightarrow> bool"
  le_write_fails :: "string \<Rightarrow> nat option"

definition logger_new :: "utc_time \<Rightarrow> u64 \<Rightarrow> log_level \<Rightarrow> logger" where
  "logger_new now max_size_mb l =
     \<lparr> log_file = False, max_size_bytes = saturating_mul64 max_size_mb BYTES_PER_MB, logger_level = l, current_size = 0,
       last_rotation_date = ut_date now, log_disabled = False \<rparr>"

definition push_to_ring_buffer :: "string \<Rightarrow> string list \<Rightarrow> string list" where
  "push_to_ring_buffer line buf = (if MAX_RING_BUFFER_LINES \<le> length buf then tl buf else buf) @ [line]"

definition push_to_ring_buffer_and_broadcast :: "string \<Rightarrow> log_state \<Rightarrow> log_state" where
  "push_to_ring_buffer_and_broadcast line st =
     st\<lparr> ls_ring := push_to_ring_buffer line (ls_ring st), ls_broadcast := ls_broadcast st @ [line] \<rparr>"

definition get_recent_logs :: "nat \<Rightarrow> log_level option \<Rightarrow> string list \<Rightarrow> string list" where
  "get_recent_logs max_lines min_level buf =
     (let count = min max_lines MAX_RING_BUFFER_LINES;
          result = filter (\<lambda>line. case min_level of Some f \<Rightarrow> enabled (parse_line_level line) f | None \<Rightarrow> True) buf
      in if count < length result then drop (length result - count) result else result)"

definition entry_of :: "log_disk \<Rightarrow> string \<Rightarrow> log_node option" where
  "entry_of d name = map_of (ld_entries d) name"

definition put_entry :: "string \<Rightarrow> log_node \<Rightarrow> log_disk \<Rightarrow> log_disk" where
  "put_entry name node d = d\<lparr> ld_entries := AList.update name node (ld_entries d) \<rparr>"

definition remove_entry :: "string \<Rightarrow> log_disk \<Rightarrow> log_disk" where
  "remove_entry name d = d\<lparr> ld_entries := AList.delete name (ld_entries d) \<rparr>"

definition active_content :: "log_disk \<Rightarrow> string" where
  "active_content d = (case entry_of d active_log_name of Some (LogFile c) \<Rightarrow> c | _ \<Rightarrow> [])"

text \<open>Appending to the open file: the number of bytes written, all of them when the write works.\<close>

definition append_active :: "log_env \<Rightarrow> string \<Rightarrow> log_disk \<Rightarrow> bool \<times> log_disk" where
  "append_active E line d =
     (let written = (case le_write_fails E line of None \<Rightarrow> line | Some n \<Rightarrow> take n line)
      in (le_write_fails E line = None, put_entry active_log_name (LogFile (active_content d @ written)) d))"

fun flush_ring_buffer_to_file :: "log_env \<Rightarrow> string list \<Rightarrow> u64 \<Rightarrow> log_disk \<Rightarrow> u64 \<times> log_disk" where
  "flush_ring_buffer_to_file E [] sz d = (sz, d)"
| "flush_ring_buffer_to_file E (line # buf) sz d =
     (case append_active E line d of
        (True, d) \<Rightarrow> flush_ring_buffer_to_file E buf (saturating_add64 sz (of_nat (length line))) d
      | (False, d) \<Rightarrow> (sz, d))"

definition cap_max_size :: "(u64 \<times> u64) option \<Rightarrow> u64 \<Rightarrow> u64" where
  "cap_max_size space max_size =
     (case space of
        Some (whole, _) \<Rightarrow> if 0 < whole \<and> whole \<le> max_size then max (whole div 2) (1024 * 1024) else max_size
      | None \<Rightarrow> max_size)"

definition open_log_file :: "log_env \<Rightarrow> log_state \<Rightarrow> log_state" where
  "open_log_file E st =
     (let L = ls_logger st; d = ls_disk st in
      if \<not> ld_exists d then st\<lparr> ls_logger := L\<lparr> log_file := False \<rparr> \<rparr>
      else
        let d = (if entry_of d active_log_name = Some LogLink then remove_entry active_log_name d else d);
            L = L\<lparr> max_size_bytes := cap_max_size (le_space E d) (max_size_bytes L) \<rparr>
        in if \<not> le_open_ok E \<or> entry_of d active_log_name = Some LogDir
           then st\<lparr> ls_logger := L\<lparr> log_file := False \<rparr>, ls_disk := d \<rparr>
           else
             let d = put_entry active_log_name (LogFile (active_content d)) d;
                 sz = of_nat (length (active_content d))
             in case (if log_file L then (sz, d) else flush_ring_buffer_to_file E (ls_ring st) sz d) of
                  (sz, d) \<Rightarrow> st\<lparr> ls_logger := L\<lparr> current_size := sz, log_file := True, log_disabled := False \<rparr>, ls_disk := d \<rparr>)"

section \<open>Rotation\<close>

definition rotated_stamp :: "string \<times> log_node \<Rightarrow> string option" where
  "rotated_stamp e =
     (case e of
        (_, LogDir) \<Rightarrow> None
      | (name, _) \<Rightarrow>
          (case Option.bind (strip_prefix name ''system.'') (\<lambda>rest. strip_suffix rest ''.log'') of
             Some ts \<Rightarrow> if ts = [] then None else Some ts
           | None \<Rightarrow> None))"

definition list_rotated_log_files :: "log_disk \<Rightarrow> (string \<times> string) list" where
  "list_rotated_log_files d =
     List.map_filter (\<lambda>e. map_option (\<lambda>ts. (ts, fst e)) (rotated_stamp e)) (ld_entries d)"

definition enough_space :: "log_env \<Rightarrow> u64 \<Rightarrow> log_disk \<Rightarrow> bool" where
  "enough_space E wanted d = (case le_space E d of Some (_, free) \<Rightarrow> wanted \<le> free | None \<Rightarrow> False)"

fun reclaim_loop :: "log_env \<Rightarrow> u64 \<Rightarrow> string list \<Rightarrow> log_disk \<Rightarrow> log_disk" where
  "reclaim_loop E wanted [] d = d"
| "reclaim_loop E wanted (name # names) d =
     (if enough_space E wanted d then d
      else reclaim_loop E wanted names (if le_remove_ok E name then remove_entry name d else d))"

definition reclaim_space :: "log_env \<Rightarrow> u64 \<Rightarrow> log_disk \<Rightarrow> log_disk" where
  "reclaim_space E wanted d = reclaim_loop E wanted (map snd (sort_key fst (list_rotated_log_files d))) d"

definition short_of_space :: "log_env \<Rightarrow> u64 \<Rightarrow> log_disk \<Rightarrow> bool" where
  "short_of_space E wanted d = (case le_space E d of Some (_, free) \<Rightarrow> free < wanted | None \<Rightarrow> False)"

definition rotated_name :: "utc_time \<Rightarrow> string" where
  "rotated_name now = ''system.'' @ ut_suffix now @ ''.log''"

text \<open>Moving the active file over an existing entry replaces that entry.\<close>

definition rename_active :: "log_env \<Rightarrow> string \<Rightarrow> log_disk \<Rightarrow> log_disk" where
  "rename_active E new_name d =
     (case entry_of d active_log_name of
        Some node \<Rightarrow>
          if le_rename_ok E \<and> entry_of d new_name \<noteq> Some LogDir
          then put_entry new_name node (remove_entry active_log_name d) else d
      | None \<Rightarrow> d)"

definition rotate :: "log_env \<Rightarrow> log_state \<Rightarrow> log_state" where
  "rotate E st =
     (let L = ls_logger st;
          d = (if short_of_space E (max_size_bytes L) (ls_disk st)
               then reclaim_space E (max_size_bytes L) (ls_disk st) else ls_disk st)
      in if short_of_space E (min (max_size_bytes L) MIN_USABLE_LOG_SPACE) d
         then st\<lparr> ls_logger := L\<lparr> log_disabled := True \<rparr>, ls_disk := d \<rparr>
         else
           let new_name = rotated_name (le_now E);
               d = (if entry_of d new_name = Some LogLink then remove_entry new_name d else d);
               d = rename_active E new_name d;
               L = L\<lparr> log_file := False, last_rotation_date := ut_date (le_now E), current_size := 0 \<rparr>
           in open_log_file E (st\<lparr> ls_logger := L, ls_disk := d \<rparr>))"

definition append_line :: "log_env \<Rightarrow> string \<Rightarrow> log_state \<Rightarrow> log_state" where
  "append_line E line st =
     (let L = ls_logger st in
      if log_disabled L \<or> \<not> log_file L then st
      else case append_active E line (ls_disk st) of
        (True, d) \<Rightarrow> st\<lparr> ls_logger := L\<lparr> current_size := saturating_add64 (current_size L) (of_nat (length line)) \<rparr>, ls_disk := d \<rparr>
      | (False, d) \<Rightarrow> st\<lparr> ls_disk := d \<rparr>)"

definition must_rotate :: "log_env \<Rightarrow> string \<Rightarrow> logger \<Rightarrow> bool" where
  "must_rotate E line L \<longleftrightarrow>
     le_pid1 E
     \<and> (max_size_bytes L \<le> saturating_add64 (current_size L) (of_nat (length line)) \<or> ut_date (le_now E) \<noteq> last_rotation_date L)"

definition write_entry :: "log_env \<Rightarrow> string \<Rightarrow> log_state \<Rightarrow> log_state" where
  "write_entry E line st =
     (let st = push_to_ring_buffer_and_broadcast line (st\<lparr> ls_console := ls_console st @ [line] \<rparr>);
          L = ls_logger st
      in if log_disabled L \<or> \<not> log_file L then st
         else append_line E line (if must_rotate E line L then rotate E st else st))"

section \<open>The entry points\<close>

definition log_record :: "log_env \<Rightarrow> level \<Rightarrow> string \<Rightarrow> string \<Rightarrow> log_state \<Rightarrow> log_state" where
  "log_record E l target message st =
     (if enabled l (logger_level (ls_logger st))
      then write_entry E (format_log_line (le_now E) l (clean_target target) message) st else st)"

definition log_service :: "log_env \<Rightarrow> level \<Rightarrow> string \<Rightarrow> string \<Rightarrow> log_state \<Rightarrow> log_state" where
  "log_service E l service message st =
     (if enabled l (logger_level (ls_logger st)) then write_entry E (format_log_line (le_now E) l service message) st else st)"

text \<open>\<open>None\<close> is a panic of the thread that logs.\<close>

definition log_raw :: "log_env \<Rightarrow> string \<Rightarrow> log_state \<Rightarrow> log_state option" where
  "log_raw E message st =
     (case format_raw_line (le_now E) message of Some line \<Rightarrow> Some (write_entry E line st) | None \<Rightarrow> None)"

definition log_raw_with_level :: "log_env \<Rightarrow> level \<Rightarrow> string \<Rightarrow> log_state \<Rightarrow> log_state option" where
  "log_raw_with_level E l message st =
     (case format_raw_line_with_explicit_level (le_now E) (Some l) message of
        Some line \<Rightarrow> Some (if enabled l (logger_level (ls_logger st)) then write_entry E line st else st)
      | None \<Rightarrow> None)"

definition init_logging :: "log_env \<Rightarrow> u64 \<Rightarrow> log_level \<Rightarrow> log_state \<Rightarrow> log_state" where
  "init_logging E max_size_mb l st =
     open_log_file E (st\<lparr> ls_logger := (ls_logger st)\<lparr> max_size_bytes := saturating_mul64 max_size_mb BYTES_PER_MB, logger_level := l \<rparr> \<rparr>)"

end
