(* ===== verification/Logging_Props.thy ===== *)
theory Logging_Props
  imports Logging
begin

text \<open>
  What the log keeps and loses: every line reaches the console, the subscribers and the ring
  buffer; old files are removed oldest first and never the active one; and what a rotation leaves
  in the new file.
\<close>

section \<open>Directory entries\<close>

lemma entry_of_put [simp]: "entry_of (put_entry n v d) m = (if m = n then Some v else entry_of d m)"
  by (simp add: entry_of_def put_entry_def update_conv')

lemma entry_of_remove [simp]: "entry_of (remove_entry n d) m = (if m = n then None else entry_of d m)"
  by (simp add: entry_of_def remove_entry_def delete_conv')

lemma put_exists [simp]: "ld_exists (put_entry n v d) = ld_exists d"
  by (simp add: put_entry_def)

lemma remove_exists [simp]: "ld_exists (remove_entry n d) = ld_exists d"
  by (simp add: remove_entry_def)

lemma active_content_put [simp]: "active_content (put_entry active_log_name (LogFile c) d) = c"
  by (simp add: active_content_def)

lemma rotated_name_active [simp]: "rotated_name now \<noteq> active_log_name"
proof
  assume "rotated_name now = active_log_name"
  then have "length (rotated_name now) = length active_log_name" by simp
  then show False by (simp add: rotated_name_def active_log_name_def)
qed

lemmas rotated_name_active_sym [simp] = rotated_name_active[symmetric]

section \<open>The sinks in memory\<close>

definition sinks :: "log_state \<Rightarrow> string list \<times> string list \<times> string list" where
  "sinks st = (ls_console st, ls_broadcast st, ls_ring st)"

lemma open_log_file_sinks [simp]: "sinks (open_log_file E st) = sinks st"
  by (simp add: open_log_file_def Let_def sinks_def split: prod.splits)

lemma rotate_sinks [simp]: "sinks (rotate E st) = sinks st"
proof -
  have "sinks (st\<lparr> ls_logger := L, ls_disk := d \<rparr>) = sinks st" for L d by (simp add: sinks_def)
  then show ?thesis unfolding rotate_def Let_def by (simp only: open_log_file_sinks split: if_splits) simp
qed

lemma append_line_sinks [simp]: "sinks (append_line E line st) = sinks st"
  by (simp add: append_line_def Let_def sinks_def split: prod.splits bool.splits)

lemma write_entry_sinks:
  "sinks (write_entry E line st) =
     (ls_console st @ [line], ls_broadcast st @ [line], push_to_ring_buffer line (ls_ring st))"
proof -
  have "sinks (push_to_ring_buffer_and_broadcast line (st\<lparr> ls_console := ls_console st @ [line] \<rparr>)) =
      (ls_console st @ [line], ls_broadcast st @ [line], push_to_ring_buffer line (ls_ring st))"
    by (simp add: sinks_def push_to_ring_buffer_and_broadcast_def)
  then show ?thesis by (simp add: write_entry_def Let_def)
qed

definition last_lines :: "nat \<Rightarrow> string list \<Rightarrow> string list" where
  "last_lines n xs = drop (length xs - n) xs"

lemma push_last_lines:
  "push_to_ring_buffer line (last_lines 500 xs) = last_lines 500 (xs @ [line])"
proof (cases "500 \<le> length xs")
  case True
  then have "length xs - 500 + 1 = length (xs @ [line]) - 500" by simp
  then show ?thesis using True
    by (simp add: push_to_ring_buffer_def last_lines_def MAX_RING_BUFFER_LINES_def tl_drop drop_Suc[symmetric] tl_def[symmetric])
next
  case False
  then show ?thesis by (simp add: push_to_ring_buffer_def last_lines_def MAX_RING_BUFFER_LINES_def)
qed


section \<open>Removing old files\<close>

lemma rotated_not_active: "(ts, active_log_name) \<notin> set (list_rotated_log_files d)"
proof
  assume "(ts, active_log_name) \<in> set (list_rotated_log_files d)"
  then obtain node where "rotated_stamp (active_log_name, node) = Some ts"
    by (auto simp: list_rotated_log_files_def set_map_filter_iff)
  moreover have "Option.bind (strip_prefix active_log_name ''system.'') (\<lambda>rest. strip_suffix rest ''.log'') = None"
    unfolding active_log_name_def by code_simp
  ultimately show False by (simp add: rotated_stamp_def split: log_node.splits)
qed

definition without :: "string list \<Rightarrow> log_disk \<Rightarrow> log_disk" where
  "without names d = d\<lparr> ld_entries := filter (\<lambda>(n, _). n \<notin> set names) (ld_entries d) \<rparr>"

lemma without_Nil [simp]: "without [] d = d"
  by (simp add: without_def)

lemma without_Cons: "without names (remove_entry n d) = without (n # names) d"
  by (simp add: without_def remove_entry_def AList.delete_eq filter_filter) (rule arg_cong[where f = "\<lambda>f. d\<lparr>ld_entries := filter f (ld_entries d)\<rparr>"], auto)

lemma reclaim_loop_exact:
  assumes "\<And>n. le_remove_ok E n"
  shows "\<exists>k \<le> length names. reclaim_loop E wanted names d = without (take k names) d
    \<and> (k < length names \<longrightarrow> enough_space E wanted (without (take k names) d))
    \<and> (\<forall>j < k. \<not> enough_space E wanted (without (take j names) d))"
proof (induction names arbitrary: d)
  case (Cons n names)
  show ?case
  proof (cases "enough_space E wanted d")
    case True
    then show ?thesis by (intro exI[of _ 0]) simp
  next
    case False
    from Cons[of "remove_entry n d"] obtain k where k: "k \<le> length names"
        "reclaim_loop E wanted names (remove_entry n d) = without (n # take k names) d"
        "k < length names \<longrightarrow> enough_space E wanted (without (n # take k names) d)"
        "\<forall>j < k. \<not> enough_space E wanted (without (n # take j names) d)"
      unfolding without_Cons by blast
    have "\<not> enough_space E wanted (without (take j (n # names)) d)" if "j < Suc k" for j
      using that False k(4) by (cases j) auto
    with False assms k show ?thesis by (intro exI[of _ "Suc k"]) simp
  qed
qed simp

text \<open>
  Space is reclaimed from the oldest rotated files and from nothing else: the files removed are
  the first ones in the order of their time stamps, no more of them than needed for the wanted
  space, all of them when the space is never reached, and the active log is not among them.
\<close>

lemma reclaim_oldest_first:
  assumes "\<And>n. le_remove_ok E n"
  shows "\<exists>k. let names = map snd (sort_key fst (list_rotated_log_files d)) in
    reclaim_space E wanted d = d\<lparr> ld_entries := filter (\<lambda>(n, _). n \<notin> set (take k names)) (ld_entries d) \<rparr>
    \<and> (k < length names \<longrightarrow> enough_space E wanted (reclaim_space E wanted d))
    \<and> (\<forall>j < k. \<not> enough_space E wanted (d\<lparr> ld_entries := filter (\<lambda>(n, _). n \<notin> set (take j names)) (ld_entries d) \<rparr>))
    \<and> active_log_name \<notin> set names \<and> sorted (map fst (sort_key fst (list_rotated_log_files d)))"
proof -
  have a: "active_log_name \<notin> set (map snd (sort_key fst (list_rotated_log_files d)))"
    using rotated_not_active by auto
  from reclaim_loop_exact[OF assms, of "map snd (sort_key fst (list_rotated_log_files d))" wanted d] obtain k where
    "reclaim_space E wanted d = without (take k (map snd (sort_key fst (list_rotated_log_files d)))) d"
    "k < length (map snd (sort_key fst (list_rotated_log_files d))) \<longrightarrow> enough_space E wanted (reclaim_space E wanted d)"
    "\<forall>j < k. \<not> enough_space E wanted (without (take j (map snd (sort_key fst (list_rotated_log_files d)))) d)"
    unfolding reclaim_space_def by metis
  with a show ?thesis unfolding Let_def without_def by (intro exI[of _ k]) simp
qed

definition sample_env :: log_env where
  "sample_env = \<lparr> le_now = \<lparr> ut_date = (2026, 227), ut_stamp = ''2026-08-15T00:00:00Z'', ut_suffix = ''2026-08-15T000000Z'' \<rparr>,
     le_pid1 = True, le_space = (\<lambda>d. Some (1000, of_nat (1000 - 300 * length (ld_entries d)))), le_open_ok = True, le_rename_ok = True,
     le_remove_ok = (\<lambda>_. True), le_write_fails = (\<lambda>_. None) \<rparr>"

definition full_disk :: log_disk where
  "full_disk = \<lparr> ld_exists = True, ld_entries = [(''system.log'', LogFile ''x''), (''system.2026-02.log'', LogFile ''b''), (''system.2026-01.log'', LogFile ''a'')] \<rparr>"

lemma reclaim_oldest_first_example:
  "map fst (ld_entries (reclaim_space sample_env 400 full_disk)) = [''system.log'', ''system.2026-02.log'']
   \<and> (active_log_name, LogFile ''x'') \<in> set (ld_entries (reclaim_space sample_env 400 full_disk))"
proof
  show "map fst (ld_entries (reclaim_space sample_env 400 full_disk)) = [''system.log'', ''system.2026-02.log'']" by code_simp
  have "le_remove_ok sample_env n" for n by (simp add: sample_env_def)
  from reclaim_oldest_first[OF this, of full_disk 400] obtain k where
    e: "reclaim_space sample_env 400 full_disk = full_disk\<lparr> ld_entries := filter (\<lambda>(n, _). n \<notin> set (take k (map snd (sort_key fst (list_rotated_log_files full_disk))))) (ld_entries full_disk) \<rparr>"
    and a: "active_log_name \<notin> set (map snd (sort_key fst (list_rotated_log_files full_disk)))"
    unfolding Let_def by blast
  have "active_log_name \<notin> set (take k (map snd (sort_key fst (list_rotated_log_files full_disk))))"
    using a in_set_takeD by metis
  moreover have "(active_log_name, LogFile ''x'') \<in> set (ld_entries full_disk)"
    by (simp add: full_disk_def active_log_name_def)
  ultimately show "(active_log_name, LogFile ''x'') \<in> set (ld_entries (reclaim_space sample_env 400 full_disk))"
    unfolding e by simp
qed

section \<open>Rotation\<close>

lemma flush_ring_all:
  assumes "\<And>l. le_write_fails E l = None" "entry_of d active_log_name = Some (LogFile c)"
  shows "entry_of (snd (flush_ring_buffer_to_file E buf sz d)) active_log_name = Some (LogFile (c @ concat buf))
    \<and> (\<forall>n. n \<noteq> active_log_name \<longrightarrow> entry_of (snd (flush_ring_buffer_to_file E buf sz d)) n = entry_of d n)"
  using assms(2)
proof (induction buf arbitrary: sz d c)
  case (Cons l buf)
  then have "active_content d = c" by (simp add: active_content_def)
  with Cons.IH[of "put_entry active_log_name (LogFile (c @ l)) d" "c @ l"] assms(1) show ?case
    by (simp add: append_active_def Let_def)
qed simp

lemma min_le_not_short: "\<not> short_of_space E a d \<Longrightarrow> \<not> short_of_space E (min a b) d"
  by (auto simp: short_of_space_def split: option.splits)

lemma open_fresh_file:
  assumes "ld_exists d" "le_open_ok E" "\<And>l. le_write_fails E l = None" "entry_of d active_log_name = None" "\<not> log_file L"
  shows "let st' = open_log_file E (st\<lparr> ls_logger := L, ls_disk := d \<rparr>) in
    entry_of (ls_disk st') active_log_name = Some (LogFile (concat (ls_ring st)))
    \<and> (\<forall>n. n \<noteq> active_log_name \<longrightarrow> entry_of (ls_disk st') n = entry_of d n)
    \<and> log_file (ls_logger st') \<and> \<not> log_disabled (ls_logger st')"
proof -
  have c: "active_content d = []" using assms(4) by (simp add: active_content_def)
  let ?d = "put_entry active_log_name (LogFile []) d"
  obtain sz d' where f: "flush_ring_buffer_to_file E (ls_ring st) 0 ?d = (sz, d')" by fastforce
  from flush_ring_all[OF assms(3), of ?d "[]" "ls_ring st" 0] f
  have "entry_of d' active_log_name = Some (LogFile (concat (ls_ring st)))"
    "\<forall>n. n \<noteq> active_log_name \<longrightarrow> entry_of d' n = entry_of d n" by auto
  then show ?thesis using assms(1,2,4,5) c f by (simp add: open_log_file_def Let_def)
qed

text \<open>
  A rotation does not start an empty file. When an entry makes the log rotate and all file
  operations work, the old file is moved to the name with the current second, replacing a file
  that an earlier rotation in the same second left there; and the new file begins with all lines
  of the ring buffer, which are in the old file already and end with the new entry, so that the
  new entry stands in the new file twice.
\<close>

lemma rotation_replays_ring_buffer:
  assumes "log_file (ls_logger st)" "\<not> log_disabled (ls_logger st)" "must_rotate E line (ls_logger st)"
    "ld_exists (ls_disk st)" "\<not> short_of_space E (max_size_bytes (ls_logger st)) (ls_disk st)"
    "le_open_ok E" "le_rename_ok E" "\<And>l. le_write_fails E l = None"
    "entry_of (ls_disk st) active_log_name = Some (LogFile old)" "entry_of (ls_disk st) (rotated_name (le_now E)) \<noteq> Some LogDir"
  shows "let st' = write_entry E line st; ring = push_to_ring_buffer line (ls_ring st) in
    entry_of (ls_disk st') (rotated_name (le_now E)) = Some (LogFile old)
    \<and> entry_of (ls_disk st') active_log_name = Some (LogFile (concat ring @ line)) \<and> last ring = line"
proof -
  let ?new = "rotated_name (le_now E)"
  let ?ring = "push_to_ring_buffer line (ls_ring st)"
  define st1 where "st1 = push_to_ring_buffer_and_broadcast line (st\<lparr> ls_console := ls_console st @ [line] \<rparr>)"
  have st1: "ls_logger st1 = ls_logger st" "ls_disk st1 = ls_disk st" "ls_ring st1 = ?ring"
    by (simp_all add: st1_def push_to_ring_buffer_and_broadcast_def)
  define d where "d = put_entry ?new (LogFile old) (remove_entry active_log_name
      (if entry_of (ls_disk st) ?new = Some LogLink then remove_entry ?new (ls_disk st) else ls_disk st))"
  define L where "L = (ls_logger st)\<lparr> log_file := False, last_rotation_date := ut_date (le_now E), current_size := 0 \<rparr>"
  have rot: "rotate E st1 = open_log_file E (st1\<lparr> ls_logger := L, ls_disk := d \<rparr>)"
    using assms(5,7,9,10) min_le_not_short[OF assms(5)] st1
    by (simp add: rotate_def Let_def rename_active_def d_def L_def)
  have d: "ld_exists d" "entry_of d active_log_name = None" "entry_of d ?new = Some (LogFile old)"
    using assms(4) by (simp_all add: d_def)
  have "\<not> log_file L" by (simp add: L_def)
  from open_fresh_file[OF d(1) assms(6,8) d(2) this, of st1, folded rot]
  have o: "entry_of (ls_disk (rotate E st1)) active_log_name = Some (LogFile (concat ?ring))"
    "entry_of (ls_disk (rotate E st1)) ?new = Some (LogFile old)"
    "log_file (ls_logger (rotate E st1))" "\<not> log_disabled (ls_logger (rotate E st1))"
    by (simp_all add: Let_def st1 d)
  have "write_entry E line st = append_line E line (rotate E st1)"
    using assms(1-3) st1 by (simp add: write_entry_def Let_def flip: st1_def)
  with o assms(8) show ?thesis
    by (simp add: append_line_def append_active_def active_content_def Let_def push_to_ring_buffer_def)
qed

definition sample_state :: log_state where
  "sample_state = \<lparr> ls_console = [], ls_broadcast = [], ls_ring = [''a''],
     ls_logger = \<lparr> log_file = True, max_size_bytes = 100, logger_level = LevelInfo, current_size = 1,
                   last_rotation_date = (2026, 226), log_disabled = False \<rparr>,
     ls_disk = \<lparr> ld_exists = True, ld_entries = [(''system.log'', LogFile ''a'')] \<rparr> \<rparr>"

lemma rotation_replays_ring_buffer_example:
  "entry_of (ls_disk (write_entry sample_env ''b'' sample_state)) active_log_name = Some (LogFile ''abb'')"
proof -
  have "must_rotate sample_env ''b'' (ls_logger sample_state)"
    by (simp add: must_rotate_def sample_env_def sample_state_def)
  moreover have "\<not> short_of_space sample_env (max_size_bytes (ls_logger sample_state)) (ls_disk sample_state)" by code_simp
  moreover have "entry_of (ls_disk sample_state) active_log_name = Some (LogFile ''a'')" by code_simp
  moreover have "entry_of (ls_disk sample_state) (rotated_name (le_now sample_env)) \<noteq> Some LogDir" by code_simp
  ultimately have "entry_of (ls_disk (write_entry sample_env ''b'' sample_state)) active_log_name
      = Some (LogFile (concat (push_to_ring_buffer ''b'' (ls_ring sample_state)) @ ''b''))"
    using rotation_replays_ring_buffer[of sample_state sample_env "''b''" "''a''"]
    by (simp add: Let_def) (simp add: sample_state_def sample_env_def)
  then show ?thesis by (simp add: sample_state_def push_to_ring_buffer_def MAX_RING_BUFFER_LINES_def)
qed

section \<open>Levels\<close>

text \<open>
  The filter of recent lines guesses the level from the words of the whole line: lines of the
  levels error and warning always pass a filter for their level, but an info line about
  debugging does not pass the filter for info.
\<close>

lemma lower_append [simp]: "to_ascii_lowercase (a @ b) = to_ascii_lowercase a @ to_ascii_lowercase b"
  by (simp add: to_ascii_lowercase_def)

lemma contains_mid: "contains_str (a @ pat @ b) pat"
  by (auto simp: contains_str_iff)

lemma severe_lines_pass:
  "l = Error \<or> l = Warn \<Longrightarrow> level_rank (parse_line_level (log_line stamp l service body)) \<le> level_rank l"
proof -
  assume l: "l = Error \<or> l = Warn"
  let ?low = "to_ascii_lowercase (log_line stamp l service body)"
  have low: "to_ascii_lowercase ''ERROR'' = ''error''" "to_ascii_lowercase ''WARN'' = ''warn''" by code_simp+
  have "?low = to_ascii_lowercase (''['' @ stamp @ ''] ['') @ to_ascii_lowercase (show_level l)
      @ to_ascii_lowercase (''] ['' @ service @ ''] '' @ body @ newline)"
    unfolding log_line_def by (simp only: lower_append append_assoc)
  moreover have "to_ascii_lowercase (show_level l) = (if l = Error then ''error'' else ''warn'')" using l low by auto
  ultimately have "contains_str ?low (if l = Error then ''error'' else ''warn'')" by (simp only: contains_mid)
  then show ?thesis using l by (auto simp: parse_line_level_def Let_def split: if_splits)
qed

lemma info_line_hidden:
  "get_recent_logs 10 (Some LevelInfo) [log_line ''2026-08-15T00:00:00Z'' Info ''init'' ''Debug console ready''] = []"
  by code_simp

end
