(* ===== verification/Init_System.thy ===== *)
theory Init_System
  imports Logging Sandbox
begin

text \<open>
  Duties of process 1: mounting the virtual file systems and writing \<open>resolv.conf\<close>
  (\<open>init/system.rs\<close>), recovery from a panic (\<open>init/system.rs\<close>), power-off by button or signal
  (\<open>init/power.rs\<close>), reaping of children (\<open>init/reaper.rs\<close>), kernel messages (\<open>init/kmsg.rs\<close>) and the
  output of the workers (\<open>stream_to_logger\<close> of \<open>services/supervisor.rs\<close>). System calls are effects in
  the order in which the code makes them; their answers are arguments.
\<close>

section \<open>Mounts\<close>

datatype mount_flag = NoSuid | NoDev | RdOnly

record mount_call =
  mc_source :: "string option"
  mc_target :: string
  mc_fstype :: string
  mc_flags :: "mount_flag list"
  mc_data :: "string option"

definition RUN_TMPFS_DATA :: string where "RUN_TMPFS_DATA = ''size=8M,mode=0755''"
definition TMP_TMPFS_DATA :: string where "TMP_TMPFS_DATA = ''size=16M,mode=1777''"

definition virtual_mounts :: "mount_call list" where
  "virtual_mounts =
     [ \<lparr> mc_source = None, mc_target = ''/proc'', mc_fstype = ''proc'', mc_flags = [], mc_data = None \<rparr>,
       \<lparr> mc_source = None, mc_target = ''/sys'', mc_fstype = ''sysfs'', mc_flags = [], mc_data = None \<rparr>,
       \<lparr> mc_source = None, mc_target = ''/dev'', mc_fstype = ''devtmpfs'', mc_flags = [], mc_data = None \<rparr>,
       \<lparr> mc_source = None, mc_target = ''/run'', mc_fstype = ''tmpfs'', mc_flags = [NoSuid, NoDev], mc_data = Some RUN_TMPFS_DATA \<rparr>,
       \<lparr> mc_source = None, mc_target = ''/tmp'', mc_fstype = ''tmpfs'', mc_flags = [NoSuid, NoDev], mc_data = Some TMP_TMPFS_DATA \<rparr> ]"

text \<open>\<open>MountOps for RealSystem\<close>: outside process 1 nothing is mounted. The kernel's answer is \<open>ok\<close>.\<close>

definition real_mount :: "bool \<Rightarrow> (mount_call \<Rightarrow> bool) \<Rightarrow> mount_call \<Rightarrow> bool \<times> mount_call list" where
  "real_mount pid1 ok c = (if \<not> pid1 then (True, []) else (ok c, [c]))"

fun mount_all :: "bool \<Rightarrow> (mount_call \<Rightarrow> bool) \<Rightarrow> mount_call list \<Rightarrow> bool \<times> mount_call list" where
  "mount_all pid1 ok [] = (True, [])"
| "mount_all pid1 ok (c # cs) =
     (case real_mount pid1 ok c of
        (False, made) \<Rightarrow> (False, made)
      | (True, made) \<Rightarrow> (case mount_all pid1 ok cs of (r, later) \<Rightarrow> (r, made @ later)))"

text \<open>The result and the mounts made; the last result says whether the module helper was then set.\<close>

definition mount_virtual_filesystems :: "bool \<Rightarrow> (mount_call \<Rightarrow> bool) \<Rightarrow> (router_error + unit) \<times> mount_call list \<times> bool" where
  "mount_virtual_filesystems pid1 ok =
     (case mount_all pid1 ok virtual_mounts of
        (True, made) \<Rightarrow> (Inr (), made, True)
      | (False, made) \<Rightarrow> (Inl Generic, made, False))"

section \<open>The resolver file\<close>

definition RESOLV_CONF_CONTENT :: string where
  "RESOLV_CONF_CONTENT = ''nameserver 127.0.0.1'' @ newline"

text \<open>Files by name; the three answers are for creating the directory, writing the temporary file and renaming it.\<close>

definition setup_resolv_conf :: "bool \<Rightarrow> bool \<times> bool \<times> bool \<Rightarrow> (string \<rightharpoonup> string) \<Rightarrow> bool \<times> (string \<rightharpoonup> string)" where
  "setup_resolv_conf pid1 answers files =
     (case answers of
        (dir_ok, write_ok, rename_ok) \<Rightarrow>
          if \<not> pid1 then (True, files)
          else if \<not> dir_ok then (False, files)
          else if \<not> write_ok then (False, files)
          else
            let files = files(''/etc/resolv.tmp'' \<mapsto> RESOLV_CONF_CONTENT) in
            if \<not> rename_ok then (False, files)
            else (True, (files(''/etc/resolv.tmp'' := None))(''/etc/resolv.conf'' \<mapsto> RESOLV_CONF_CONTENT)))"

section \<open>Children\<close>

datatype wait_status = Exited u32 int | Signaled u32 nat | StillAlive | NoChild | WaitOther

fun try_reap_zombie :: "wait_status \<Rightarrow> bool" where
  "try_reap_zombie (Exited pid code) = True"
| "try_reap_zombie (Signaled pid sig) = True"
| "try_reap_zombie StillAlive = False"
| "try_reap_zombie NoChild = False"
| "try_reap_zombie WaitOther = False"

text \<open>The answers of \<open>waitpid\<close> that are left over; the loop ends at the first one that reaps nothing.\<close>

fun reap_zombies :: "wait_status list \<Rightarrow> wait_status list" where
  "reap_zombies [] = []"
| "reap_zombies (w # ws) = (if try_reap_zombie w then reap_zombies ws else ws)"

datatype reap_outcome = NoChildrenRemaining | ChildrenStillRunning

fun reap_and_check_all_exited :: "wait_status list \<Rightarrow> reap_outcome" where
  "reap_and_check_all_exited [] = ChildrenStillRunning"
| "reap_and_check_all_exited (Exited pid code # ws) = reap_and_check_all_exited ws"
| "reap_and_check_all_exited (Signaled pid sig # ws) = reap_and_check_all_exited ws"
| "reap_and_check_all_exited (StillAlive # ws) = ChildrenStillRunning"
| "reap_and_check_all_exited (NoChild # ws) = NoChildrenRemaining"
| "reap_and_check_all_exited (WaitOther # ws) = ChildrenStillRunning"

section \<open>Recovery from a panic\<close>

datatype reboot_mode = PowerOff | AutoBoot

datatype power_effect =
    KillAll worker_signal
  | SleepFor duration
  | FlushLog
  | SyncDisks
  | Reboot reboot_mode

definition PANIC_REBOOT_DELAY :: duration where "PANIC_REBOOT_DELAY = from_secs 10"
definition PANIC_GRACE_PERIOD :: duration where "PANIC_GRACE_PERIOD = from_secs 2"
definition PANIC_REAP_POLL_INTERVAL :: duration where "PANIC_REAP_POLL_INTERVAL = from_millis 50"

text \<open>
  The passes of the loop: the time since the first signal, and the answers of \<open>waitpid\<close> in that
  pass. The list ends with a pass after the grace period; without one the loop would go on.
\<close>

fun grace_loop :: "(duration \<times> wait_status list) list \<Rightarrow> power_effect list \<times> bool" where
  "grace_loop [] = ([], False)"
| "grace_loop ((elapsed, ws) # passes) =
     (if PANIC_GRACE_PERIOD \<le> elapsed then ([], False)
      else case reap_and_check_all_exited ws of
        NoChildrenRemaining \<Rightarrow> ([], True)
      | ChildrenStillRunning \<Rightarrow>
          (case grace_loop passes of (effects, clean) \<Rightarrow> (SleepFor PANIC_REAP_POLL_INTERVAL # effects, clean)))"

definition terminate_children_with_grace :: "(duration \<times> wait_status list) list \<Rightarrow> power_effect list" where
  "terminate_children_with_grace passes =
     KillAll SigTerm
       # (case grace_loop passes of
            (effects, True) \<Rightarrow> effects
          | (effects, False) \<Rightarrow> effects @ [KillAll SigKill, SleepFor PANIC_REAP_POLL_INTERVAL])"

definition halt_on_panic :: "bool \<Rightarrow> (duration \<times> wait_status list) list \<Rightarrow> duration \<Rightarrow> power_effect list" where
  "halt_on_panic pid1 passes elapsed =
     (if \<not> pid1 then []
      else terminate_children_with_grace passes
        @ [FlushLog, SyncDisks]
        @ (if elapsed < PANIC_REBOOT_DELAY then [SleepFor (PANIC_REBOOT_DELAY - elapsed)] else [])
        @ [FlushLog, SyncDisks, Reboot AutoBoot])"

section \<open>Power-off\<close>

definition KEY_POWER :: u16 where "KEY_POWER = 116"
definition KEY_POWER2 :: u16 where "KEY_POWER2 = 356"
definition KEY_SLEEP :: u16 where "KEY_SLEEP = 142"

definition is_power_event :: "bool \<Rightarrow> u16 \<Rightarrow> int \<Rightarrow> bool" where
  "is_power_event is_key code value \<longleftrightarrow>
     is_key \<and> (code = KEY_POWER \<or> code = KEY_POWER2 \<or> code = KEY_SLEEP) \<and> value = 1"

definition execute_clean_poweroff :: "bool \<Rightarrow> power_effect list" where
  "execute_clean_poweroff poweroff_ok =
     [FlushLog, SyncDisks, FlushLog, Reboot PowerOff] @ (if poweroff_ok then [] else [Reboot AutoBoot])"

text \<open>The events of one input device until its stream ends; the first result says whether the shutdown flag was set.\<close>

fun monitor_single_power_device :: "bool \<Rightarrow> (bool \<times> u16 \<times> int) list \<Rightarrow> bool \<times> power_effect list" where
  "monitor_single_power_device poweroff_ok [] = (False, [])"
| "monitor_single_power_device poweroff_ok ((is_key, code, value) # events) =
     (if is_power_event is_key code value then (True, execute_clean_poweroff poweroff_ok)
      else monitor_single_power_device poweroff_ok events)"

definition MAX_INPUT_EVENT_DEVICES :: nat where "MAX_INPUT_EVENT_DEVICES = 32"

text \<open>One scan for input devices: those opened so far, and whether a device can be opened.\<close>

definition scan_power_devices :: "(nat \<Rightarrow> bool) \<Rightarrow> nat set \<Rightarrow> nat list \<times> nat set" where
  "scan_power_devices can_open opened =
     (let new = filter (\<lambda>i. i \<notin> opened \<and> can_open i) [0..<MAX_INPUT_EVENT_DEVICES]
      in (new, opened \<union> set new))"

fun start_power_button_monitor :: "(bool \<times> (nat \<Rightarrow> bool)) list \<Rightarrow> nat set \<Rightarrow> nat list" where
  "start_power_button_monitor [] opened = []"
| "start_power_button_monitor ((shutdown, can_open) # scans) opened =
     (if shutdown then []
      else case scan_power_devices can_open opened of (new, opened) \<Rightarrow> new @ start_power_button_monitor scans opened)"

definition SIGNAL_SHUTDOWN_GRACE_PERIOD :: duration where "SIGNAL_SHUTDOWN_GRACE_PERIOD = from_millis 500"

text \<open>The signal monitor, when the three handlers could be set and a signal came; the first result is the shutdown flag.\<close>

definition start_signal_monitor :: "bool \<Rightarrow> bool \<Rightarrow> bool \<times> power_effect list" where
  "start_signal_monitor bound poweroff_ok =
     (if \<not> bound then (False, [])
      else (True, SleepFor SIGNAL_SHUTDOWN_GRACE_PERIOD # execute_clean_poweroff poweroff_ok))"

section \<open>Kernel messages and the output of workers\<close>

definition parse_kmsg_record :: "string \<Rightarrow> (level \<times> string) option" where
  "parse_kmsg_record raw =
     Option.bind (split_once (CHR '';'') raw) (\<lambda>(header, rest).
     Option.bind (parse_unsigned (2 ^ 32 - 1) (hd (split_char (CHR '','') header))) (\<lambda>prio.
     let severity = prio mod 8;
         l = (if severity \<le> 3 then Error else if severity = 4 then Warn else if severity = 7 then Debug else Info)
     in case text_lines rest of
          [] \<Rightarrow> None
        | line # _ \<Rightarrow> let msg = utf8_trim line in if msg = [] then None else Some (l, msg)))"

text \<open>
  A reader of \<open>/dev/kmsg\<close>: the records read, \<open>None\<close> for one that is not UTF-8, until the device ends.
  The result is \<open>None\<close> when the thread panics.
\<close>

fun run_kmsg_reader :: "(log_env \<times> string option) list \<Rightarrow> log_state \<Rightarrow> log_state option" where
  "run_kmsg_reader [] st = Some st"
| "run_kmsg_reader ((E, None) # rs) st = run_kmsg_reader rs st"
| "run_kmsg_reader ((E, Some raw) # rs) st =
     (case parse_kmsg_record raw of
        None \<Rightarrow> run_kmsg_reader rs st
      | Some (l, msg) \<Rightarrow> Option.bind (log_raw_with_level E l (''[kernel] '' @ msg) st) (run_kmsg_reader rs))"

text \<open>The lines that a worker prints, up to one that is not UTF-8; \<open>None\<close> is a panic of the reading thread.\<close>

fun stream_to_logger :: "(log_env \<times> string) list \<Rightarrow> log_state \<Rightarrow> log_state option" where
  "stream_to_logger [] st = Some st"
| "stream_to_logger ((E, line) # rest) st = Option.bind (log_raw E line st) (stream_to_logger rest)"

text \<open>
  What the hook of \<open>register_panic_handler\<close> does after a thread of process 1 has panicked while it read
  a worker's output; nothing happens without a panic.
\<close>

definition reader_thread ::
  "bool \<Rightarrow> (log_env \<times> string) list \<Rightarrow> log_state \<Rightarrow> (duration \<times> wait_status list) list \<Rightarrow> duration \<Rightarrow> power_effect list" where
  "reader_thread pid1 printed st passes elapsed =
     (case stream_to_logger printed st of
        Some _ \<Rightarrow> []
      | None \<Rightarrow> FlushLog # halt_on_panic pid1 passes elapsed)"

end
