(* ===== verification/Init_Props.thy ===== *)
theory Init_Props
  imports Init_System Watchdog
begin

text \<open>
  Process 1 under stress: what a panic leads to, what can cause one, and what a power-off leaves
  undone.
\<close>

section \<open>Panics\<close>

definition children_gone :: "(duration \<times> wait_status list) list \<Rightarrow> bool" where
  "children_gone passes \<longleftrightarrow>
     (\<exists>(elapsed, ws) \<in> set (takeWhile (\<lambda>(elapsed, ws). elapsed < from_secs 2) passes).
        reap_and_check_all_exited ws = NoChildrenRemaining)"

lemma grace_loop_result:
  "snd (grace_loop passes) = children_gone passes \<and> set (fst (grace_loop passes)) \<subseteq> {SleepFor (from_millis 50)}"
proof (induction passes rule: grace_loop.induct)
  case (2 elapsed ws passes)
  then show ?case
    by (cases "grace_loop passes")
      (auto simp: children_gone_def PANIC_GRACE_PERIOD_def PANIC_REAP_POLL_INTERVAL_def split: reap_outcome.splits)
qed (simp add: children_gone_def)

text \<open>
  C30. A panic in process 1 ends in a reboot with the disks in order, and in any other process in
  nothing: all children are first asked to end, and killed unless a check within two seconds
  finds that none is left; then the log is flushed and the disks are synchronized, the rest of
  ten seconds since the panic is waited for, and after another flush and synchronization the
  system is rebooted, once.
\<close>

theorem panic_ends_in_reboot:
  "halt_on_panic False passes elapsed = []
   \<and> (\<exists>naps. set naps \<subseteq> {SleepFor (from_millis 50)}
        \<and> halt_on_panic True passes elapsed =
            [KillAll SigTerm] @ naps
            @ (if children_gone passes then [] else [KillAll SigKill, SleepFor (from_millis 50)])
            @ [FlushLog, SyncDisks]
            @ (if elapsed < from_secs 10 then [SleepFor (from_secs 10 - elapsed)] else [])
            @ [FlushLog, SyncDisks, Reboot AutoBoot])"
proof -
  obtain naps clean where g: "grace_loop passes = (naps, clean)" by fastforce
  with grace_loop_result[of passes] have "clean = children_gone passes" "set naps \<subseteq> {SleepFor (from_millis 50)}" by auto
  then show ?thesis
    by (intro conjI exI[of _ naps])
      (simp_all add: halt_on_panic_def terminate_children_with_grace_def g PANIC_REAP_POLL_INTERVAL_def PANIC_REBOOT_DELAY_def)
qed

section \<open>Log lines that panic\<close>

definition inside_char :: "string \<Rightarrow> nat \<Rightarrow> bool" where
  "inside_char s i \<longleftrightarrow> 128 \<le> ascii_code (s ! i) \<and> ascii_code (s ! i) < 192"

definition breaks_slice :: "string \<Rightarrow> bool" where
  "breaks_slice line =
     (let t = utf8_trim_end line in starts_with t ''['' \<and> 20 < length t \<and> (inside_char t 1 \<or> inside_char t 5))"

lemma format_panics: "format_raw_line_with_explicit_level now l line = None \<longleftrightarrow> breaks_slice line"
  by (auto simp: format_raw_line_with_explicit_level_def breaks_slice_def Let_def str_slice_def inside_char_def
      is_char_boundary_def split: option.splits if_splits)

lemma log_raw_panics: "log_raw E line st = None \<longleftrightarrow> breaks_slice line"
  using format_panics[of "le_now E" None line] by (auto simp: log_raw_def format_raw_line_def split: option.splits)

lemma stream_panics: "stream_to_logger printed st = None \<longleftrightarrow> list_ex (\<lambda>(E, line). breaks_slice line) printed"
proof (induction printed arbitrary: st)
  case (Cons e rest)
  obtain E line where "e = (E, line)" by fastforce
  then show ?case using Cons log_raw_panics[of E line st] by (cases "log_raw E line st") auto
qed simp

text \<open>Kernel messages carry the tag of the kernel in front and cannot do this.\<close>

lemma drop_space_rev_drop: "\<exists>k. drop_space_rev s = drop k s"
proof (induction s rule: drop_space_rev.induct)
  case (1 s)
  show ?case
  proof (cases "ws_len_rev s = 0")
    case True
    then show ?thesis by (intro exI[of _ 0]) (simp add: drop_space_rev.simps[of s])
  next
    case False
    with 1 obtain k where "drop_space_rev (drop (ws_len_rev s) s) = drop k (drop (ws_len_rev s) s)" by blast
    with False show ?thesis by (intro exI[of _ "k + ws_len_rev s"]) (simp add: drop_space_rev.simps[of s])
  qed
qed

lemma trim_end_prefix: "\<exists>k. utf8_trim_end s = take k s"
  using drop_space_rev_drop[of "rev s"] by (auto simp: utf8_trim_end_def rev_drop)

lemma tagged_safe: "\<not> breaks_slice (''[kernel] '' @ msg)"
proof
  assume b: "breaks_slice (''[kernel] '' @ msg)"
  obtain k where k: "utf8_trim_end (''[kernel] '' @ msg) = take k (''[kernel] '' @ msg)" using trim_end_prefix by blast
  with b have "20 < k" by (simp add: breaks_slice_def Let_def)
  then have "utf8_trim_end (''[kernel] '' @ msg) ! 1 = CHR ''k''" "utf8_trim_end (''[kernel] '' @ msg) ! 5 = CHR ''e''"
    unfolding k by simp_all
  with b show False by (simp add: breaks_slice_def Let_def inside_char_def ascii_code_def)
qed

lemma kernel_messages_never_panic: "run_kmsg_reader rs st \<noteq> None"
proof (induction rs arbitrary: st)
  case (Cons r rs)
  obtain E raw where r: "r = (E, raw)" by fastforce
  show ?case
  proof (cases "Option.bind raw parse_kmsg_record")
    case None
    with r Cons show ?thesis by (cases raw) auto
  next
    case (Some lm)
    then obtain rec l msg where m: "raw = Some rec" "parse_kmsg_record rec = Some (l, msg)"
      by (cases lm) (auto simp: bind_eq_Some_conv)
    obtain line where "format_raw_line_with_explicit_level (le_now E) (Some l) (''[kernel] '' @ msg) = Some line"
      using format_panics[of "le_now E" "Some l" "''[kernel] '' @ msg"] tagged_safe by (metis option.exhaust)
    with m r Cons show ?thesis by (simp add: log_raw_with_level_def)
  qed
qed simp

text \<open>
  C28. A single line of a worker's output can reboot the router. The thread of process 1 that copies
  the output of a worker into the log panics exactly at a line of more than 20 bytes that starts
  with a bracket and has its second or sixth byte inside a character, and a panic of any thread of
  process 1 kills all workers and reboots the system; without such a line nothing of this happens.
  A bracket followed by ten euro signs is such a line, so a sandboxed worker, which may write to
  its output, can bring down the whole router.
\<close>

theorem worker_line_reboots_router:
  "(if list_ex (\<lambda>(E, line). breaks_slice line) printed
    then KillAll SigTerm \<in> set (reader_thread True printed st passes elapsed) \<and> last (reader_thread True printed st passes elapsed) = Reboot AutoBoot
    else reader_thread True printed st passes elapsed = [])
   \<and> breaks_slice (''['' @ concat (replicate 10 [CHR 0xE2, CHR 0x82, CHR 0xAC]))"
proof
  show "breaks_slice (''['' @ concat (replicate 10 [CHR 0xE2, CHR 0x82, CHR 0xAC]))" by code_simp
  show "if list_ex (\<lambda>(E, line). breaks_slice line) printed
    then KillAll SigTerm \<in> set (reader_thread True printed st passes elapsed) \<and> last (reader_thread True printed st passes elapsed) = Reboot AutoBoot
    else reader_thread True printed st passes elapsed = []"
    using stream_panics[of printed st]
    by (auto simp: reader_thread_def halt_on_panic_def terminate_children_with_grace_def)
qed

section \<open>Power-off and the watchdog\<close>

text \<open>The ticks of the watchdog task that have happened by some time, with the flag set at \<open>stop\<close>.\<close>

definition ticks_until :: "instant \<Rightarrow> duration \<Rightarrow> instant \<Rightarrow> (nat \<Rightarrow> monitored_service list) \<Rightarrow> nat \<Rightarrow> tick list" where
  "ticks_until start period stop beats n =
     map (\<lambda>i. \<lparr> tk_now = start + i * period, tk_queue = beats i, tk_shutdown = (stop \<le> start + i * period), tk_write_ok = True \<rparr>) [0..<n]"

lemma no_magic_before_stop:
  assumes "\<forall>tk \<in> set tks. \<not> tk_shutdown tk" "MAGIC_CLOSE_BYTE \<notin> set (lw_written (wd_device w))" "lw_open (wd_device w)"
  shows "MAGIC_CLOSE_BYTE \<notin> set (lw_written (wd_device (start_watchdog_monitor expected tks w)))
    \<and> lw_open (wd_device (start_watchdog_monitor expected tks w))"
  using assms
proof (induction tks arbitrary: w)
  case (Cons tk tks)
  obtain w' go where t: "watchdog_tick expected tk w = (w', go)" by fastforce
  then have "MAGIC_CLOSE_BYTE \<notin> set (lw_written (wd_device w')) \<and> lw_open (wd_device w')"
    using Cons.prems by (auto simp: watchdog_tick_def keepalive_def Let_def KEEPALIVE_BYTE_def MAGIC_CLOSE_BYTE_def split: if_splits)
  with Cons t show ?case by simp
qed simp

text \<open>
  A signal that shuts the router down powers it off before the watchdog is disarmed, unless it
  comes in the last half second before a tick of the watchdog task: the flag that it sets is read at
  the next tick only, up to five seconds later, and the power-off is carried out after half a
  second. At that time the device is still open and armed.
\<close>

lemma poweroff_before_disarm:
  assumes "start + k * watchdog_interval None < stop"
    "stop + SIGNAL_SHUTDOWN_GRACE_PERIOD < start + Suc k * watchdog_interval None"
    "lw_open dev" "MAGIC_CLOSE_BYTE \<notin> set (lw_written dev)"
  shows "let happened = filter (\<lambda>tk. tk_now tk \<le> stop + SIGNAL_SHUTDOWN_GRACE_PERIOD)
               (ticks_until start (watchdog_interval None) stop beats n);
             w = start_watchdog_monitor expected happened (watchdog_start expected start dev)
         in lw_open (wd_device w) \<and> MAGIC_CLOSE_BYTE \<notin> set (lw_written (wd_device w))
            \<and> start_signal_monitor True True = (True, [SleepFor SIGNAL_SHUTDOWN_GRACE_PERIOD, FlushLog, SyncDisks, FlushLog, Reboot PowerOff])"
proof -
  let ?p = "watchdog_interval None"
  let ?ticks = "filter (\<lambda>tk. tk_now tk \<le> stop + SIGNAL_SHUTDOWN_GRACE_PERIOD) (ticks_until start ?p stop beats n)"
  have "\<not> tk_shutdown tk" if "tk \<in> set ?ticks" for tk
  proof -
    from that obtain i where "tk = \<lparr> tk_now = start + i * ?p, tk_queue = beats i, tk_shutdown = (stop \<le> start + i * ?p), tk_write_ok = True \<rparr>"
      by (auto simp: ticks_until_def)
    with that have i: "tk_shutdown tk = (stop \<le> start + i * ?p)" "start + i * ?p \<le> stop + SIGNAL_SHUTDOWN_GRACE_PERIOD" by simp_all
    then have "i * ?p < Suc k * ?p" using i(2) assms(2) by linarith
    then have "i \<le> k" using mult_less_cancel2[of i ?p "Suc k"] by simp
    then have "i * ?p \<le> k * ?p" by simp
    then show ?thesis using i(1) assms(1) by linarith
  qed
  with no_magic_before_stop[of ?ticks "watchdog_start expected start dev" expected] assms(3,4) show ?thesis
    by (simp add: Let_def watchdog_start_def start_signal_monitor_def execute_clean_poweroff_def)
qed

lemma poweroff_before_disarm_example:
  "lw_open (wd_device (start_watchdog_monitor [MsDnsForwarder]
       (filter (\<lambda>tk. tk_now tk \<le> from_secs 7 + SIGNAL_SHUTDOWN_GRACE_PERIOD)
          (ticks_until 0 (watchdog_interval None) (from_secs 7) (\<lambda>_. [MsDnsForwarder]) 10))
       (watchdog_start [MsDnsForwarder] 0 (watchdog_open (False, 0)))))"
  using poweroff_before_disarm[of 0 1 "from_secs 7" "watchdog_open (False, 0)" "\<lambda>_. [MsDnsForwarder]" 10 "[MsDnsForwarder]"]
  by (simp add: Let_def watchdog_interval_def DEFAULT_WATCHDOG_INTERVAL_SECS_def SIGNAL_SHUTDOWN_GRACE_PERIOD_def from_secs_def
      from_millis_def watchdog_open_def)

end
