(* ===== verification/Storage.thy ===== *)
theory Storage
  imports Init_System
begin

text \<open>
  The disk (\<open>init/storage.rs\<close>): finding the boot partition, creating the log partition in the partition
  table, mounting both. Reading and writing the table is the crate \<open>mbrman\<close>, the label and the
  formatting the crate \<open>fatfs\<close>: the table is a record of its four entries, and what the crates answer
  are arguments. Error texts are not modelled.
\<close>

section \<open>The layout of the log partition\<close>

definition calculate_p2_layout :: "u32 \<Rightarrow> u32 \<Rightarrow> u64 \<Rightarrow> router_error + u32 \<times> u32" where
  "calculate_p2_layout p1_starting_lba p1_sectors disk_sectors =
     (if p1_sectors = 0 then Inl Generic
      else
        let start_sector = saturating_add64 (ucast p1_starting_lba) (ucast p1_sectors) in
        if disk_sectors \<le> start_sector then Inl Generic
        else
          let p2_sectors = disk_sectors - start_sector in
          if p2_sectors = 0 then Inl Generic
          else if 2 ^ 32 \<le> unat start_sector then Inl Generic
          else Inr (ucast start_sector, ucast (min p2_sectors (ucast (- 1 :: u32)))))"

definition derive_p2_device_name :: "string \<Rightarrow> router_error + string" where
  "derive_p2_device_name boot_dev =
     and_then (ok_or (path_file_name boot_dev) Generic) (\<lambda>p1_name.
       if ends_with p1_name ''1'' then Inr (''/dev/'' @ butlast p1_name @ ''2'') else Inl Generic)"

section \<open>The partition table\<close>

record mbr_entry =
  me_boot :: u8
  me_sys :: u8
  me_starting_lba :: u32
  me_sectors :: u32

record mbr =
  mbr1 :: mbr_entry
  mbr2 :: mbr_entry
  mbr3 :: mbr_entry
  mbr4 :: mbr_entry

definition MBR_PART_TYPE_FAT32_LBA :: u8 where "MBR_PART_TYPE_FAT32_LBA = 12"
definition BOOT_INACTIVE :: u8 where "BOOT_INACTIVE = 0"

text \<open>
  A disk: the content of its size file, whether the device can be opened, its table when it can be
  read, and whether seeking, writing and synchronizing work. A failed write leaves the table.
\<close>

record disk =
  dk_size_text :: "string option"
  dk_open :: bool
  dk_table :: "mbr option"
  dk_seek_ok :: bool
  dk_write_ok :: bool
  dk_sync_ok :: bool

definition get_partition_sectors :: "string option \<Rightarrow> router_error + u64" where
  "get_partition_sectors size_text =
     and_then (ok_or size_text Generic) (\<lambda>s.
       map_sum id of_nat (ok_or (parse_unsigned (2 ^ 64 - 1) (utf8_trim s)) Generic))"

definition write_mbr_partition_2 :: "string \<Rightarrow> disk \<Rightarrow> (router_error + unit) \<times> disk" where
  "write_mbr_partition_2 parent_disk d =
     (if path_file_name parent_disk = None then (Inl Generic, d)
      else case get_partition_sectors (dk_size_text d) of
        Inl e \<Rightarrow> (Inl e, d)
      | Inr disk_sectors \<Rightarrow>
          if \<not> dk_open d then (Inl Generic, d)
          else case dk_table d of
            None \<Rightarrow> (Inl Generic, d)
          | Some t \<Rightarrow>
              (case calculate_p2_layout (me_starting_lba (mbr1 t)) (me_sectors (mbr1 t)) disk_sectors of
                 Inl e \<Rightarrow> (Inl e, d)
               | Inr (p2_lba, p2_len) \<Rightarrow>
                   let entry = \<lparr> me_boot = BOOT_INACTIVE, me_sys = MBR_PART_TYPE_FAT32_LBA,
                                 me_starting_lba = p2_lba, me_sectors = p2_len \<rparr>
                   in if \<not> dk_seek_ok d \<or> \<not> dk_write_ok d then (Inl Generic, d)
                      else (if dk_sync_ok d then Inr () else Inl Generic, d\<lparr> dk_table := Some (t\<lparr> mbr2 := entry \<rparr>) \<rparr>)))"

definition DEV_NODE_POLL_RETRIES :: nat where "DEV_NODE_POLL_RETRIES = 50"

text \<open>
  \<open>p2_in_sys\<close> says whether the kernel knows the partition already, \<open>node_after\<close> the number of the check
  at which the device node has appeared.
\<close>

definition ensure_log_partition_in_mbr ::
  "string \<Rightarrow> string \<Rightarrow> bool \<Rightarrow> nat option \<Rightarrow> disk \<Rightarrow> (router_error + unit) \<times> disk" where
  "ensure_log_partition_in_mbr boot_dev parent_disk p2_in_sys node_after d =
     (case derive_p2_device_name boot_dev of
        Inl e \<Rightarrow> (Inl e, d)
      | Inr p2_dev_path \<Rightarrow>
          if path_file_name p2_dev_path = None then (Inl Generic, d)
          else if p2_in_sys then (Inr (), d)
          else case write_mbr_partition_2 parent_disk d of
            (Inl e, d) \<Rightarrow> (Inl e, d)
          | (Inr _, d) \<Rightarrow>
              (case node_after of
                 Some k \<Rightarrow> if k < DEV_NODE_POLL_RETRIES then (Inr (), d) else (Inl Generic, d)
               | None \<Rightarrow> (Inl Generic, d)))"

section \<open>The boot partition\<close>

text \<open>
  An entry of \<open>/sys/class/block\<close>: whether it is a partition, whether its device opens and has a FAT
  file system, the label, and the directory that its resolved path lies in (\<open>None\<close> when resolving
  fails). An entry that cannot be read is \<open>None\<close>.
\<close>

record block_entry =
  be_name :: string
  be_partition :: bool
  be_opens :: bool
  be_label :: "string option"
  be_parent :: "string option"

definition check_partition_entry :: "block_entry \<Rightarrow> router_error + (string \<times> string) option" where
  "check_partition_entry e =
     (if be_name e = [] \<or> \<not> be_partition e \<or> \<not> be_opens e then Inr None
      else case be_label e of
        None \<Rightarrow> Inr None
      | Some label \<Rightarrow>
          if utf8_trim label \<noteq> ''TRIMROUTER'' then Inr None
          else and_then (ok_or (be_parent e) Io) (\<lambda>parent.
                 and_then (ok_or (path_file_name parent) Generic) (\<lambda>parent_name.
                   Inr (Some (''/dev/'' @ be_name e, ''/dev/'' @ parent_name)))))"

fun find_boot_partition :: "block_entry option list \<Rightarrow> router_error + string \<times> string" where
  "find_boot_partition [] = Inl Generic"
| "find_boot_partition (None # es) = Inl Io"
| "find_boot_partition (Some e # es) =
     (case check_partition_entry e of
        Inl err \<Rightarrow> Inl err
      | Inr (Some found) \<Rightarrow> Inr found
      | Inr None \<Rightarrow> find_boot_partition es)"

definition BOOT_MOUNT_TIMEOUT :: duration where "BOOT_MOUNT_TIMEOUT = from_secs 15"

text \<open>The passes of the wait: the time since its start and the directory then, \<open>None\<close> when it cannot be read.\<close>

fun wait_for_boot_partition :: "(duration \<times> block_entry option list option) list \<Rightarrow> router_error + string \<times> string" where
  "wait_for_boot_partition [] = Inl Generic"
| "wait_for_boot_partition ((elapsed, entries) # passes) =
     (if BOOT_MOUNT_TIMEOUT \<le> elapsed then Inl Generic
      else case (case entries of Some es \<Rightarrow> find_boot_partition es | None \<Rightarrow> Inl Generic) of
        Inr found \<Rightarrow> Inr found
      | Inl e \<Rightarrow> wait_for_boot_partition passes)"

definition boot_mount :: "string \<Rightarrow> mount_call" where
  "boot_mount boot_dev = \<lparr> mc_source = Some boot_dev, mc_target = ''/boot'', mc_fstype = ''vfat'', mc_flags = [RdOnly], mc_data = None \<rparr>"

definition mount_boot_partition :: "bool \<Rightarrow> (mount_call \<Rightarrow> bool) \<Rightarrow> string \<Rightarrow> (router_error + unit) \<times> mount_call list" where
  "mount_boot_partition pid1 ok boot_dev =
     (case real_mount pid1 ok (boot_mount boot_dev) of (r, made) \<Rightarrow> (if r then Inr () else Inl Generic, made))"

section \<open>The log partition\<close>

definition log_mount :: "string \<Rightarrow> mount_call" where
  "log_mount dev = \<lparr> mc_source = Some dev, mc_target = ''/var/log'', mc_fstype = ''vfat'', mc_flags = [], mc_data = None \<rparr>"

datatype log_setup = LogMount mount_call | LogFormat string | LogReopen

text \<open>The first mount, the formatting (opening, formatting and synchronizing) and the second mount may fail.\<close>

definition setup_log_partition :: "bool \<Rightarrow> bool \<Rightarrow> bool \<Rightarrow> bool \<Rightarrow> string \<Rightarrow> (router_error + unit) \<times> log_setup list" where
  "setup_log_partition pid1 first_ok format_ok second_ok boot_dev =
     (case derive_p2_device_name boot_dev of
        Inl e \<Rightarrow> (Inl e, [])
      | Inr dev \<Rightarrow>
          (case real_mount pid1 (\<lambda>_. first_ok) (log_mount dev) of
             (True, made) \<Rightarrow> (Inr (), map LogMount made @ [LogReopen])
           | (False, made) \<Rightarrow>
               if \<not> format_ok then (Inl Generic, map LogMount made @ [LogFormat dev])
               else (case real_mount pid1 (\<lambda>_. second_ok) (log_mount dev) of
                       (True, again) \<Rightarrow> (Inr (), map LogMount made @ LogFormat dev # map LogMount again @ [LogReopen])
                     | (False, again) \<Rightarrow> (Inl Generic, map LogMount made @ LogFormat dev # map LogMount again))))"

section \<open>The boot partition is safe\<close>

lemma unat_widen: "unat (ucast (a :: u32) :: u64) = unat a"
proof -
  have "unat a < 2 ^ 64" by (rule less_trans[OF unsigned_less]) simp
  then show ?thesis by (simp add: unsigned_ucast_eq unsigned_take_bit_eq take_bit_nat_eq_self)
qed

lemma unat_narrow: "unat (w :: u64) < 2 ^ 32 \<Longrightarrow> unat (ucast w :: u32) = unat w"
  by (simp add: unsigned_ucast_eq unsigned_take_bit_eq take_bit_nat_eq_self)

lemma unat_start:
  "unat (saturating_add64 (ucast (a :: u32)) (ucast (b :: u32))) = unat a + unat b"
proof -
  have "unat a < 2 ^ 32" "unat b < 2 ^ 32" using unsigned_less[of a] unsigned_less[of b] by simp_all
  then have "unat a + unat b < 2 ^ 64" by simp
  then show ?thesis by (simp add: saturating_add64_def unat_widen unat_word_ariths)
qed

lemma unat_max32: "unat (ucast (- 1 :: u32) :: u64) = 2 ^ 32 - 1"
  unfolding unat_widen by (simp add: unsigned_minus_1_eq_mask mask_eq_exp_minus_1)

text \<open>
  The layout is computed exactly when there is room: the log partition starts where the boot
  partition ends and takes the rest of the disk, as far as 32 bits count.
\<close>

lemma p2_layout_exact:
  "calculate_p2_layout lba n disk = Inr (a, len) \<longleftrightarrow>
     n \<noteq> 0 \<and> unat lba + unat n < unat disk \<and> unat lba + unat n < 2 ^ 32
     \<and> unat a = unat lba + unat n \<and> unat len = min (unat disk - (unat lba + unat n)) (2 ^ 32 - 1)"
proof -
  define start where "start = saturating_add64 (ucast lba) (ucast n :: u64)"
  have s: "unat start = unat lba + unat n" unfolding start_def by (rule unat_start)
  show ?thesis
  proof (cases "n \<noteq> 0 \<and> start < disk \<and> unat start < 2 ^ 32")
    case True
    then have d: "unat (disk - start) = unat disk - unat start" by (simp add: unat_sub less_imp_le)
    have lt: "unat start < unat disk" using True by (simp add: word_less_nat_alt)
    have m: "unat (ucast (min (disk - start) (ucast (- 1 :: u32))) :: u32) = min (unat disk - unat start) (2 ^ 32 - 1)"
    proof -
      have "unat (min (disk - start) (ucast (- 1 :: u32))) = min (unat disk - unat start) (2 ^ 32 - 1)"
        unfolding d[symmetric] unat_max32[symmetric] by (simp only: min_def word_le_nat_alt) simp
      then show ?thesis using unat_narrow[of "min (disk - start) (ucast (- 1 :: u32))"] by simp
    qed
    have nz: "disk - start \<noteq> 0" using lt by auto
    have "calculate_p2_layout lba n disk = Inr (ucast start, ucast (min (disk - start) (ucast (- 1 :: u32))))"
      using True nz by (simp add: calculate_p2_layout_def Let_def not_le flip: start_def)
    then show ?thesis using True lt m unat_narrow[of start] s by (auto simp: word_unat_eq_iff)
  next
    case False
    then have "calculate_p2_layout lba n disk = Inl Generic"
      by (auto simp: calculate_p2_layout_def Let_def not_less simp flip: start_def)
    with False s show ?thesis by (auto simp: word_less_nat_alt)
  qed
qed

text \<open>
  C17. Making room for the logs never harms the boot partition: whatever fails, the entries 1, 3 and
  4 of the partition table stay as they are; the table changes only when the kernel does not know
  a second partition yet, and then the new entry is an inactive FAT32 partition that begins
  exactly where the boot partition ends and reaches to the end of the disk or to the largest size
  that an entry can hold.
\<close>

theorem log_partition_safe:
  assumes "ensure_log_partition_in_mbr boot_dev parent_disk p2_in_sys node_after d = (r, d')" "dk_table d = Some t" "d' \<noteq> d"
  shows "\<exists>t' sectors. dk_table d' = Some t' \<and> \<not> p2_in_sys \<and> get_partition_sectors (dk_size_text d) = Inr sectors
    \<and> mbr1 t' = mbr1 t \<and> mbr3 t' = mbr3 t \<and> mbr4 t' = mbr4 t
    \<and> me_boot (mbr2 t') = 0 \<and> me_sys (mbr2 t') = 12
    \<and> unat (me_starting_lba (mbr2 t')) = unat (me_starting_lba (mbr1 t)) + unat (me_sectors (mbr1 t))
    \<and> 0 < me_sectors (mbr2 t')
    \<and> unat (me_starting_lba (mbr2 t')) + unat (me_sectors (mbr2 t')) \<le> unat sectors
    \<and> (unat (me_starting_lba (mbr2 t')) + unat (me_sectors (mbr2 t')) = unat sectors \<or> me_sectors (mbr2 t') = - 1)"
proof -
  from assms obtain r2 where w: "write_mbr_partition_2 parent_disk d = (r2, d')" "\<not> p2_in_sys"
    by (auto simp: ensure_log_partition_in_mbr_def split: sum.splits if_splits prod.splits option.splits unit.splits)
  then obtain sectors a len where s: "get_partition_sectors (dk_size_text d) = Inr sectors"
      "calculate_p2_layout (me_starting_lba (mbr1 t)) (me_sectors (mbr1 t)) sectors = Inr (a, len)"
      "d' = d\<lparr> dk_table := Some (t\<lparr> mbr2 := \<lparr> me_boot = BOOT_INACTIVE, me_sys = MBR_PART_TYPE_FAT32_LBA, me_starting_lba = a, me_sectors = len \<rparr> \<rparr>) \<rparr>"
    using assms(2,3) by (auto simp: write_mbr_partition_2_def Let_def split: sum.splits if_splits option.splits prod.splits)
  from s(2)[unfolded p2_layout_exact] have l: "unat a = unat (me_starting_lba (mbr1 t)) + unat (me_sectors (mbr1 t))"
      "unat a < unat sectors" "unat len = min (unat sectors - unat a) (2 ^ 32 - 1)" by auto
  have "0 < unat len" using l by simp
  then have "0 < len" by (simp add: word_less_nat_alt)
  moreover have "unat a + unat len = unat sectors \<or> len = - 1"
  proof (cases "unat sectors - unat a \<le> 2 ^ 32 - 1")
    case False
    then have "unat len = unat (- 1 :: u32)" using l by (simp add: unsigned_minus_1_eq_mask mask_eq_exp_minus_1)
    then have "len = - 1" by (simp only: word_unat_eq_iff)
    then show ?thesis ..
  qed (use l in simp)
  ultimately show ?thesis using s w(2) l by (simp add: BOOT_INACTIVE_def MBR_PART_TYPE_FAT32_LBA_def)
qed

definition fresh_disk :: disk where
  "fresh_disk = \<lparr> dk_size_text = Some (''62521344'' @ newline), dk_open = True,
     dk_table = (let empty = \<lparr> me_boot = 0, me_sys = 0, me_starting_lba = 0, me_sectors = 0 \<rparr> in
       Some \<lparr> mbr1 = \<lparr> me_boot = 128, me_sys = 12, me_starting_lba = 2048, me_sectors = 245760 \<rparr>, mbr2 = empty, mbr3 = empty, mbr4 = empty \<rparr>),
     dk_seek_ok = True, dk_write_ok = True, dk_sync_ok = True \<rparr>"

theorem log_partition_safe_witness:
  "map_option (\<lambda>t. (unat (me_starting_lba (mbr2 t)), me_boot (mbr1 t)))
     (dk_table (snd (ensure_log_partition_in_mbr ''/dev/sda1'' ''/dev/sda'' False (Some 0) fresh_disk))) = Some (247808, 128)"
proof -
  let ?t = "the (dk_table fresh_disk)"
  obtain r d' where e: "ensure_log_partition_in_mbr ''/dev/sda1'' ''/dev/sda'' False (Some 0) fresh_disk = (r, d')" by fastforce
  have t: "utf8_trim (''62521344'' @ newline) = ''62521344''" by code_simp
  have "list_all is_ascii_digit ''62521344''" by code_simp
  then have "parse_unsigned (2 ^ 64 - 1) ''62521344'' = Some 62521344"
    by (simp add: parse_unsigned_def parse_decimal_def digit_val_def)
  then have sectors: "get_partition_sectors (dk_size_text fresh_disk) = Inr 62521344"
    using t by (simp add: get_partition_sectors_def fresh_disk_def)
  have layout: "calculate_p2_layout 2048 245760 62521344 = Inr (247808, 62273536)" by (simp add: p2_layout_exact)
  have names: "path_file_name ''/dev/sda'' = Some ''sda''" "derive_p2_device_name ''/dev/sda1'' = Inr ''/dev/sda2''"
    "path_file_name ''/dev/sda2'' = Some ''sda2''" by code_simp+
  let ?new = "\<lparr> me_boot = BOOT_INACTIVE, me_sys = MBR_PART_TYPE_FAT32_LBA, me_starting_lba = 247808, me_sectors = 62273536 \<rparr>"
  have "write_mbr_partition_2 ''/dev/sda'' fresh_disk = (Inr (), fresh_disk\<lparr> dk_table := Some (?t\<lparr> mbr2 := ?new \<rparr>) \<rparr>)"
    using layout unfolding write_mbr_partition_2_def sectors names
    by (simp add: Let_def) (simp add: fresh_disk_def Let_def)
  then have "d' = fresh_disk\<lparr> dk_table := Some (?t\<lparr> mbr2 := ?new \<rparr>) \<rparr>"
    using e by (simp add: ensure_log_partition_in_mbr_def names DEV_NODE_POLL_RETRIES_def)
  then have "d' \<noteq> fresh_disk" by (auto simp: fresh_disk_def Let_def)
  moreover have "dk_table fresh_disk = Some ?t" by (simp add: fresh_disk_def Let_def)
  ultimately obtain t' where "dk_table d' = Some t'" "mbr1 t' = mbr1 ?t"
      "unat (me_starting_lba (mbr2 t')) = unat (me_starting_lba (mbr1 ?t)) + unat (me_sectors (mbr1 ?t))"
    using log_partition_safe[OF e] by blast
  moreover have "unat (me_starting_lba (mbr1 ?t)) + unat (me_sectors (mbr1 ?t)) = 247808" "me_boot (mbr1 ?t) = 128"
    by (simp_all add: fresh_disk_def Let_def)
  ultimately show ?thesis using e by simp
qed

end
