(* ===== verification/Interface.thy ===== *)
theory Interface
  imports Network Rust_Text Watchdog Service_Controller
begin

text \<open>
  The interface monitor, \<open>interface.rs\<close>, and the services it starts and stops. Link messages and requests go through the
  kernel and the crate \<open>rtnetlink\<close>, whose answers are the fields of \<open>link_kernel\<close>; the files under
  \<open>/sys/class/net\<close> are read through it too. An error that the code answers with a panic ends the
  monitor.
\<close>

section \<open>Services\<close>

datatype service_kind = DhcpClientService | SntpClientService | LanManagerService | ObservabilityService

record router_service =
  rs_kind :: service_kind
  rs_controller :: controller

text \<open>
  \<open>start\<close> and \<open>stop\<close> of a service go to its controller; only the observability service binds a socket
  first, which may fail.
\<close>

definition service_start :: "(service_kind \<Rightarrow> bool) \<Rightarrow> router_service \<Rightarrow> (service_error + unit) \<times> router_service" where
  "service_start binds s =
     (if rs_kind s = ObservabilityService \<and> \<not> binds (rs_kind s) then (Inl ServiceIo, s)
      else case controller_start (rs_controller s) of (r, c) \<Rightarrow> (r, s\<lparr> rs_controller := c \<rparr>))"

definition service_stop :: "router_service \<Rightarrow> (service_error + unit) \<times> router_service" where
  "service_stop s = (case controller_stop (rs_controller s) of (r, c) \<Rightarrow> (r, s\<lparr> rs_controller := c \<rparr>))"

section \<open>Managed interfaces\<close>

record managed_interface =
  mi_name :: string
  mi_mac :: mac
  mi_services :: "router_service list"
  mi_active_index :: "u32 option"

definition managed_interface_new :: "string \<Rightarrow> mac \<Rightarrow> router_service list \<Rightarrow> managed_interface" where
  "managed_interface_new name m services = \<lparr> mi_name = name, mi_mac = m, mi_services = services, mi_active_index = None \<rparr>"

text \<open>An error of a service is logged and the next one is tried.\<close>

definition start_services :: "(service_kind \<Rightarrow> bool) \<Rightarrow> managed_interface \<Rightarrow> managed_interface" where
  "start_services binds i = i\<lparr> mi_services := map (\<lambda>s. snd (service_start binds s)) (mi_services i) \<rparr>"

definition stop_iface_services :: "managed_interface \<Rightarrow> managed_interface" where
  "stop_iface_services i = i\<lparr> mi_services := map (\<lambda>s. snd (service_stop s)) (mi_services i) \<rparr>"

section \<open>The kernel's links\<close>

datatype link_attribute = IfName string | LinkAddress bytes | OtherAttribute

record link_msg =
  lm_index :: u32
  lm_lower_up :: bool
  lm_attributes :: "link_attribute list"

datatype link_change = LinkDown | LinkName string | LinkUp

record 'k link_kernel =
  lk_net :: "'k netlink"
  lk_links :: "'k \<Rightarrow> (router_error + link_msg) list"
  lk_change :: "u32 \<Rightarrow> link_change \<Rightarrow> 'k \<Rightarrow> bool \<times> 'k"
  lk_sysfs_names :: "'k \<Rightarrow> string list option"
  lk_sysfs :: "string \<Rightarrow> string \<Rightarrow> 'k \<Rightarrow> string option"

fun parse_link_attributes :: "link_attribute list \<Rightarrow> string option \<times> mac option \<Rightarrow> string option \<times> mac option" where
  "parse_link_attributes [] (name, address) = (name, address)"
| "parse_link_attributes (IfName n # nlas) (name, address) = parse_link_attributes nlas (Some n, address)"
| "parse_link_attributes (LinkAddress b # nlas) (name, address) =
     parse_link_attributes nlas (name, case mac_from_slice b of Inr m \<Rightarrow> Some m | Inl _ \<Rightarrow> None)"
| "parse_link_attributes (OtherAttribute # nlas) (name, address) = parse_link_attributes nlas (name, address)"

definition rename_interface_by_index :: "'k link_kernel \<Rightarrow> u32 \<Rightarrow> string \<Rightarrow> ('k, router_error, unit) nl" where
  "rename_interface_by_index K index new_name =
     try_nl (new_connection (lk_net K)) (\<lambda>_.
     try_nl (check_nl Netlink (lk_change K index LinkDown)) (\<lambda>_.
     try_nl (check_nl Netlink (lk_change K index (LinkName new_name))) (\<lambda>_.
     check_nl Netlink (lk_change K index LinkUp))))"

definition rename_and_up_interface :: "'k link_kernel \<Rightarrow> string \<Rightarrow> u32 \<Rightarrow> string \<Rightarrow> ('k, router_error, unit) nl" where
  "rename_and_up_interface K target_name index current_name =
     (if current_name = target_name then (\<lambda>k. (Inr (), k)) else rename_interface_by_index K index target_name)"

text \<open>The dump of the links up to an error.\<close>

fun good_links :: "(router_error + link_msg) list \<Rightarrow> link_msg list" where
  "good_links [] = []"
| "good_links (Inl e # ls) = []"
| "good_links (Inr l # ls) = l # good_links ls"

definition named_link :: "link_msg \<Rightarrow> (u32 \<times> string \<times> mac) option" where
  "named_link l =
     (case parse_link_attributes (lm_attributes l) (None, None) of
        (Some n, Some a) \<Rightarrow> Some (lm_index l, n, a) | _ \<Rightarrow> None)"

definition find_interface_by_mac :: "'k link_kernel \<Rightarrow> mac \<Rightarrow> 'k \<Rightarrow> (u32 \<times> string) option" where
  "find_interface_by_mac K target_mac k =
     (if \<not> nl_connect (lk_net K) k then None
      else map_option (\<lambda>(i, n, a). (i, n))
             (List.find (\<lambda>(i, n, a). a = target_mac) (List.map_filter named_link (good_links (lk_links K k)))))"

section \<open>Carrier\<close>

definition parse_link_speed_str :: "string \<Rightarrow> string" where
  "parse_link_speed_str content =
     (case parse_unsigned (2 ^ 32 - 1) (utf8_trim content) of
        Some mbps \<Rightarrow> if 0 < mbps then show_nat mbps @ '' Mbps'' else ''unknown''
      | None \<Rightarrow> ''unknown'')"

definition get_link_speed :: "'k link_kernel \<Rightarrow> 'k \<Rightarrow> string \<Rightarrow> string" where
  "get_link_speed K k iface_name =
     (case lk_sysfs K iface_name ''speed'' k of Some s \<Rightarrow> parse_link_speed_str s | None \<Rightarrow> ''unknown'')"

definition parse_carrier_file_content :: "string \<Rightarrow> bool option" where
  "parse_carrier_file_content content =
     (if utf8_trim content = ''1'' then Some True else if utf8_trim content = ''0'' then Some False else None)"

definition parse_operstate_str :: "string \<Rightarrow> bool option" where
  "parse_operstate_str content =
     (let s = utf8_trim content in
      if s = ''up'' then Some True
      else if s = ''down'' \<or> s = ''lowerlayerdown'' \<or> s = ''dormant'' then Some False else None)"

definition get_interface_carrier :: "'k link_kernel \<Rightarrow> 'k \<Rightarrow> string \<Rightarrow> bool option" where
  "get_interface_carrier K k iface_name =
     (case Option.bind (lk_sysfs K iface_name ''carrier'' k) parse_carrier_file_content of
        Some carrier \<Rightarrow> Some carrier
      | None \<Rightarrow> Option.bind (lk_sysfs K iface_name ''operstate'' k) parse_operstate_str)"

type_synonym link_states = "u32 \<rightharpoonup> string \<times> mac \<times> bool"

text \<open>A transition that is logged: the name, the hardware address and the new carrier state.\<close>

type_synonym carrier_log = "(string \<times> mac \<times> bool) list"

definition update_carrier_state :: "u32 \<Rightarrow> string \<Rightarrow> mac \<Rightarrow> bool \<Rightarrow> link_states \<Rightarrow> link_states \<times> carrier_log" where
  "update_carrier_state index name m carrier states =
     (case states index of
        Some (n, a, c) \<Rightarrow>
          if c = carrier then (states, []) else (states(index \<mapsto> (n, a, carrier)), [(name, m, carrier)])
      | None \<Rightarrow> (states(index \<mapsto> (name, m, carrier)), if carrier then [(name, m, carrier)] else []))"

fun poll_interface_carrier_states :: "(string \<Rightarrow> bool option) \<Rightarrow> managed_interface list \<Rightarrow> link_states \<Rightarrow> link_states \<times> carrier_log" where
  "poll_interface_carrier_states reader [] states = (states, [])"
| "poll_interface_carrier_states reader (i # ifaces) states =
     (case (mi_active_index i, reader (mi_name i)) of
        (Some index, Some carrier) \<Rightarrow>
          (case update_carrier_state index (mi_name i) (mi_mac i) carrier states of
             (states, logged) \<Rightarrow>
               (case poll_interface_carrier_states reader ifaces states of (states, later) \<Rightarrow> (states, logged @ later)))
      | _ \<Rightarrow> poll_interface_carrier_states reader ifaces states)"

definition if_indextoname :: "'k link_kernel \<Rightarrow> 'k \<Rightarrow> u32 \<Rightarrow> string option" where
  "if_indextoname K k index =
     (case lk_sysfs_names K k of
        None \<Rightarrow> None
      | Some names \<Rightarrow>
          List.find (\<lambda>n. Option.bind (lk_sysfs K n ''ifindex'' k) (\<lambda>s. parse_unsigned (2 ^ 32 - 1) (utf8_trim s)) = Some (unat index)) names)"

section \<open>The monitor\<close>

record 'k monitor =
  mo_ifaces :: "managed_interface list"
  mo_detected :: "u32 set"
  mo_states :: link_states
  mo_kernel :: 'k
  mo_log :: carrier_log

text \<open>\<open>Inl\<close> is the error that the caller answers with a panic.\<close>

definition activate_interface ::
  "'k link_kernel \<Rightarrow> (service_kind \<Rightarrow> bool) \<Rightarrow> managed_interface \<Rightarrow> u32 \<Rightarrow> string \<Rightarrow> 'k \<Rightarrow> (router_error + managed_interface) \<times> 'k" where
  "activate_interface K binds i index current_name =
     try_nl (rename_and_up_interface K (mi_name i) index current_name) (\<lambda>_.
     try_nl (ensure_interface_up (lk_net K) (mi_name i)) (\<lambda>_ k.
     (Inr ((start_services binds i)\<lparr> mi_active_index := Some index \<rparr>), k)))"

definition handle_new_link ::
  "'k link_kernel \<Rightarrow> (service_kind \<Rightarrow> bool) \<Rightarrow> managed_interface \<Rightarrow> u32 \<Rightarrow> string \<Rightarrow> mac \<Rightarrow> 'k \<Rightarrow> (router_error + managed_interface) \<times> 'k" where
  "handle_new_link K binds i index name m =
     (if m = mi_mac i then
        (case mi_active_index i of
           None \<Rightarrow> activate_interface K binds i index name
         | Some active \<Rightarrow>
             if active = index then try_nl (ensure_interface_up (lk_net K) (mi_name i)) (\<lambda>_ k. (Inr i, k))
             else (\<lambda>k. (Inr i, k)))
      else if name = mi_name i
      then try_nl (rename_interface_by_index K index (mi_name i @ ''_old_'' @ show_nat (unat index))) (\<lambda>_ k. (Inr i, k))
      else (\<lambda>k. (Inr i, k)))"

fun route_new_link ::
  "'k link_kernel \<Rightarrow> (service_kind \<Rightarrow> bool) \<Rightarrow> u32 \<Rightarrow> string \<Rightarrow> mac \<Rightarrow> managed_interface list \<Rightarrow> 'k
     \<Rightarrow> (router_error + unit) \<times> managed_interface list \<times> 'k" where
  "route_new_link K binds index name m [] k = (Inr (), [], k)"
| "route_new_link K binds index name m (i # ifaces) k =
     (case handle_new_link K binds i index name m k of
        (Inl e, k) \<Rightarrow> (Inl e, i # ifaces, k)
      | (Inr i', k) \<Rightarrow>
          (case route_new_link K binds index name m ifaces k of (r, rest, k) \<Rightarrow> (r, i' # rest, k)))"

text \<open>The name and address of a link message, from the message, the cache or the file system.\<close>

definition resolve_link :: "'k link_kernel \<Rightarrow> link_msg \<Rightarrow> 'k monitor \<Rightarrow> (string \<times> mac) option" where
  "resolve_link K l mo =
     (case parse_link_attributes (lm_attributes l) (None, None) of
        (Some n, Some a) \<Rightarrow> Some (n, a)
      | (name, address) \<Rightarrow>
          (case mo_states mo (lm_index l) of
             Some (cached_name, cached_mac, _) \<Rightarrow>
               Some (case name of Some n \<Rightarrow> n | None \<Rightarrow> cached_name, case address of Some a \<Rightarrow> a | None \<Rightarrow> cached_mac)
           | None \<Rightarrow>
               (case (case name of Some n \<Rightarrow> Some n | None \<Rightarrow> if_indextoname K (mo_kernel mo) (lm_index l)) of
                  None \<Rightarrow> None
                | Some n \<Rightarrow> Some (n, case address of Some a \<Rightarrow> a | None \<Rightarrow> MacAddr 0 0 0 0 0 0))))"

definition handle_new_link_event ::
  "'k link_kernel \<Rightarrow> (service_kind \<Rightarrow> bool) \<Rightarrow> link_msg \<Rightarrow> 'k monitor \<Rightarrow> (router_error + unit) \<times> 'k monitor" where
  "handle_new_link_event K binds l mo =
     (case resolve_link K l mo of
        None \<Rightarrow> (Inr (), mo)
      | Some (n, a) \<Rightarrow>
          if n = ''lo'' then (Inr (), mo)
          else
            case update_carrier_state (lm_index l) n a (lm_lower_up l) (mo_states mo) of
              (states, logged) \<Rightarrow>
                let k = (if lm_index l \<in> mo_detected mo then mo_kernel mo
                         else snd (ensure_interface_up (lk_net K) n (mo_kernel mo)))
                in case route_new_link K binds (lm_index l) n a (mo_ifaces mo) k of
                     (r, ifaces, k) \<Rightarrow>
                       (r, mo\<lparr> mo_ifaces := ifaces, mo_detected := insert (lm_index l) (mo_detected mo),
                               mo_states := states, mo_kernel := k, mo_log := mo_log mo @ logged \<rparr>))"

definition handle_del_link :: "u32 \<Rightarrow> managed_interface \<Rightarrow> managed_interface" where
  "handle_del_link index i =
     (if mi_active_index i = Some index then (stop_iface_services i)\<lparr> mi_active_index := None \<rparr> else i)"

definition handle_del_link_event :: "link_msg \<Rightarrow> 'k monitor \<Rightarrow> 'k monitor" where
  "handle_del_link_event l mo =
     (let logged = (case mo_states mo (lm_index l) of Some (n, a, True) \<Rightarrow> [(n, a, False)] | _ \<Rightarrow> [])
      in mo\<lparr> mo_detected := mo_detected mo - {lm_index l}, mo_states := (mo_states mo)(lm_index l := None),
             mo_log := mo_log mo @ logged, mo_ifaces := map (handle_del_link (lm_index l)) (mo_ifaces mo) \<rparr>)"

datatype link_event = NewLink link_msg | DelLink link_msg | OtherMessage

fun process_netlink_message ::
  "'k link_kernel \<Rightarrow> (service_kind \<Rightarrow> bool) \<Rightarrow> link_event \<Rightarrow> 'k monitor \<Rightarrow> (router_error + unit) \<times> 'k monitor" where
  "process_netlink_message K binds (NewLink l) mo = handle_new_link_event K binds l mo"
| "process_netlink_message K binds (DelLink l) mo = (Inr (), handle_del_link_event l mo)"
| "process_netlink_message K binds OtherMessage mo = (Inr (), mo)"

section \<open>Startup and the loop\<close>

fun initial_link_scan :: "'k link_kernel \<Rightarrow> link_msg list \<Rightarrow> link_states \<times> carrier_log \<Rightarrow> 'k \<Rightarrow> link_states \<times> carrier_log \<times> 'k" where
  "initial_link_scan K [] (states, logged) k = (states, logged, k)"
| "initial_link_scan K (l # ls) (states, logged) k =
     (case named_link l of
        Some (index, n, a) \<Rightarrow>
          if n = ''lo'' then initial_link_scan K ls (states, logged) k
          else
            (case update_carrier_state index n a (lm_lower_up l) states of
               (states', new) \<Rightarrow> initial_link_scan K ls (states', logged @ new) (snd (ensure_interface_up (lk_net K) n k)))
      | None \<Rightarrow> initial_link_scan K ls (states, logged) k)"

text \<open>\<open>None\<close> is a panic.\<close>

fun activate_startup_interfaces ::
  "'k link_kernel \<Rightarrow> (service_kind \<Rightarrow> bool) \<Rightarrow> managed_interface list \<Rightarrow> u32 set \<Rightarrow> 'k \<Rightarrow> (managed_interface list \<times> u32 set \<times> 'k) option" where
  "activate_startup_interfaces K binds [] detected k = Some ([], detected, k)"
| "activate_startup_interfaces K binds (i # ifaces) detected k =
     (case find_interface_by_mac K (mi_mac i) k of
        None \<Rightarrow> map_option (\<lambda>(rest, detected, k). (i # rest, detected, k)) (activate_startup_interfaces K binds ifaces detected k)
      | Some (index, name) \<Rightarrow>
          (case activate_interface K binds i index name k of
             (Inl e, k) \<Rightarrow> None
           | (Inr i', k) \<Rightarrow>
               map_option (\<lambda>(rest, detected, k). (i' # rest, detected, k))
                 (activate_startup_interfaces K binds ifaces (insert index detected) k)))"

definition iface_monitor_start :: "'k link_kernel \<Rightarrow> (service_kind \<Rightarrow> bool) \<Rightarrow> managed_interface list \<Rightarrow> 'k \<Rightarrow> 'k monitor option" where
  "iface_monitor_start K binds ifaces k =
     (case initial_link_scan K (good_links (lk_links K k)) (Map.empty, []) k of
        (states, logged, k) \<Rightarrow>
          map_option (\<lambda>(ifaces, detected, k).
              \<lparr> mo_ifaces = ifaces, mo_detected = detected, mo_states = states, mo_kernel = k, mo_log = logged \<rparr>)
            (activate_startup_interfaces K binds ifaces {} k))"

datatype iface_event = MonTimer | MonMessage link_event

text \<open>One turn of the loop; each sends a heartbeat of the interface monitor. \<open>None\<close> is a panic.\<close>

fun iface_monitor_step ::
  "'k link_kernel \<Rightarrow> (service_kind \<Rightarrow> bool) \<Rightarrow> iface_event \<Rightarrow> 'k monitor \<Rightarrow> (monitored_service list \<times> 'k monitor) option" where
  "iface_monitor_step K binds MonTimer mo =
     (case poll_interface_carrier_states (get_interface_carrier K (mo_kernel mo)) (mo_ifaces mo) (mo_states mo) of
        (states, logged) \<Rightarrow> Some ([MsInterfaceMonitor], mo\<lparr> mo_states := states, mo_log := mo_log mo @ logged \<rparr>))"
| "iface_monitor_step K binds (MonMessage m) mo =
     (case process_netlink_message K binds m mo of
        (Inl e, mo') \<Rightarrow> None
      | (Inr _, mo') \<Rightarrow> Some ([MsInterfaceMonitor], mo'))"

end
