(* ===== verification/Boot.thy ===== *)
theory Boot
  imports Kmod Storage Interface Firewall Config
begin

text \<open>
  The boot of process 1, \<open>init/mod.rs\<close>: \<open>run_as_init\<close> and what it calls, composed of the models of
  those parts. What the system answers is the record \<open>boot_world\<close>, what boot changes the record
  \<open>boot_state\<close>, and what it does, in order, a list of actions that ends with the panic when there is
  one. The messages boot prints, and the version in them, are not modelled, nor is the duplication of the
  console's file descriptor.
\<close>

section \<open>The world and the actions\<close>

record ('k, 'f, 'p, 'm) boot_world =
  bw_pid1 :: bool
  bw_mount_ok :: "mount_call \<Rightarrow> bool"
  bw_resolv :: "bool \<times> bool \<times> bool"
  bw_modules :: "'m module_world"
  bw_devices :: "(string \<times> file_tree) list option"
  bw_partitions :: "(duration \<times> block_entry option list option) list"
  bw_p2_known :: bool
  bw_node_after :: "nat option"
  bw_image :: bool
  bw_image_mounts :: "'m kmod_state \<Rightarrow> bool"
  bw_log_mounts :: "bool \<times> bool \<times> bool"
  bw_log_disk :: log_disk
  bw_jail :: "bool \<times> bool \<times> bool"
  bw_log_env :: log_env
  bw_config :: "string option"
  bw_netlink :: "'k netlink"
  bw_nft :: "('f, 'p) nft_lib"
  bw_watchdog :: "(bool \<times> int) option"

record ('k, 'f, 'm) boot_state =
  bs_files :: "string \<rightharpoonup> string"
  bs_kmod :: "'m kmod_state"
  bs_disk :: disk
  bs_log :: log_state
  bs_net :: 'k
  bs_filter :: 'f

datatype boot_task = ReaperTask | PowerButtonTask | WatchdogTask "monitored_service list" | HeartbeatSink | SignalTask | KmsgTask

datatype boot_action =
    PanicHandler
  | UeventListener
  | Mounted "mount_call list"
  | ResolvConf
  | Coldplug "string list"
  | RequiredModules
  | LogTable bool
  | BootModules bool
  | LogSetup "log_setup list"
  | ChrootJail bool
  | ConfigLoaded router_config
  | Spawned boot_task
  | NetworkInitialised
  | FirewallInstalled "port_forward_rule list"
  | HostRegistered string ip
  | DnsStarted "ip list"
  | MonitorStarted "managed_interface list"
  | Panic

section \<open>Early boot\<close>

text \<open>Whether the jail's directory was made read-only: making it, reading its mode and setting it may fail.\<close>

definition setup_chroot_jail :: "bool \<times> bool \<times> bool \<Rightarrow> bool" where
  "setup_chroot_jail answers = (case answers of (made, found, changed) \<Rightarrow> made \<and> found \<and> changed)"

definition mount_storage_and_modules ::
  "('k, 'f, 'p, 'm) boot_world \<Rightarrow> ('k, 'f, 'm) boot_state \<Rightarrow> boot_action list \<times> ('k, 'f, 'm) boot_state" where
  "mount_storage_and_modules W s =
     (if \<not> bw_pid1 W then ([ChrootJail (setup_chroot_jail (bw_jail W))], s)
      else case mount_virtual_filesystems (bw_pid1 W) (bw_mount_ok W) of
        (Inl e, made, _) \<Rightarrow> ([Mounted made, Panic], s)
      | (Inr _, made, _) \<Rightarrow>
          (case setup_resolv_conf (bw_pid1 W) (bw_resolv W) (bs_files s) of
             (False, files) \<Rightarrow> ([Mounted made, Panic], s\<lparr> bs_files := files \<rparr>)
           | (True, files) \<Rightarrow>
               let s = s\<lparr> bs_files := files, bs_kmod := load_required_modules (bw_modules W) (bs_kmod s) \<rparr>;
                   early = [Mounted made, ResolvConf, Coldplug (trigger_uevents (bw_devices W)), RequiredModules]
               in case wait_for_boot_partition (bw_partitions W) of
                 Inl e \<Rightarrow> (early @ [Panic], s)
               | Inr (boot_dev, parent_disk) \<Rightarrow>
                   (case ensure_log_partition_in_mbr boot_dev parent_disk (bw_p2_known W) (bw_node_after W) (bs_disk s) of
                      (table, d) \<Rightarrow>
                        let s = s\<lparr> bs_disk := d \<rparr> in
                        (case mount_boot_partition (bw_pid1 W) (bw_mount_ok W) boot_dev of
                           (Inl e, made) \<Rightarrow> (early @ [LogTable (table = Inr ()), Mounted made, Panic], s)
                         | (Inr _, made) \<Rightarrow>
                             (case (activate_boot_modules (bw_modules W) (bw_image W) (bw_image_mounts W) (bw_devices W) (bs_kmod s),
                                    bw_log_mounts W) of
                                ((km, written, active), (first, format, second)) \<Rightarrow>
                                  (case setup_log_partition (bw_pid1 W) first format second boot_dev of
                                     (_, logged) \<Rightarrow>
                                       (early @ [LogTable (table = Inr ()), Mounted made, BootModules active, Coldplug written,
                                          LogSetup logged, ChrootJail (setup_chroot_jail (bw_jail W))],
                                        s\<lparr> bs_kmod := km,
                                           bs_log := if LogReopen \<in> set logged
                                             then open_log_file (bw_log_env W) ((bs_log s)\<lparr> ls_disk := bw_log_disk W \<rparr>)
                                             else bs_log s \<rparr>)))))))"

text \<open>\<open>None\<close> is a panic.\<close>

definition load_and_apply_config ::
  "'n net_lib \<Rightarrow> config_lib \<Rightarrow> ('k, 'f, 'p, 'm) boot_world \<Rightarrow> ('k, 'f, 'm) boot_state \<Rightarrow> router_config option \<times> ('k, 'f, 'm) boot_state" where
  "load_and_apply_config L C W s =
     (case parse_config L C (bw_config W) of
        Inl e \<Rightarrow> (None, s)
      | Inr c \<Rightarrow>
          (Some c, s\<lparr> bs_log := init_logging (bw_log_env W) (max_log_size_mb (rc_logging c)) (log_level (rc_logging c)) (bs_log s) \<rparr>))"

definition early_boot ::
  "'n net_lib \<Rightarrow> config_lib \<Rightarrow> ('k, 'f, 'p, 'm) boot_world \<Rightarrow> ('k, 'f, 'm) boot_state
     \<Rightarrow> router_config option \<times> boot_action list \<times> ('k, 'f, 'm) boot_state" where
  "early_boot L C W s =
     (case mount_storage_and_modules W s of
        (acts, s) \<Rightarrow>
          let acts = [PanicHandler, UeventListener] @ acts in
          if Panic \<in> set acts then (None, acts, s)
          else case load_and_apply_config L C W s of
            (None, s) \<Rightarrow> (None, acts @ [Panic], s)
          | (Some c, s) \<Rightarrow> (Some c, acts @ [ConfigLoaded c], s))"

section \<open>Background tasks\<close>

definition all_services :: "monitored_service list" where
  "all_services = [MsDnsForwarder, MsInterfaceMonitor, MsDhcpClient, MsLanManager]"

definition init_and_spawn_watchdog :: "bool \<Rightarrow> (bool \<times> int) option \<Rightarrow> monitored_service list \<Rightarrow> bool \<times> boot_task" where
  "init_and_spawn_watchdog on device expected_services =
     (if \<not> on then (False, HeartbeatSink)
      else case device of
        Some reply \<Rightarrow> (True, WatchdogTask expected_services)
      | None \<Rightarrow> (False, HeartbeatSink))"

definition start_system_services :: "('k, 'f, 'p, 'm) boot_world \<Rightarrow> bool \<Rightarrow> boot_action list" where
  "start_system_services W watchdog_on =
     [Spawned ReaperTask, Spawned PowerButtonTask,
      Spawned (snd (init_and_spawn_watchdog watchdog_on (bw_watchdog W) all_services)),
      Spawned SignalTask, Spawned KmsgTask]"

section \<open>Networking\<close>

definition WAN_INTERFACE :: string where "WAN_INTERFACE = ''wan''"
definition LAN_INTERFACE :: string where "LAN_INTERFACE = ''lan''"

definition setup_loopback_and_firewall ::
  "'n net_lib \<Rightarrow> ('k, 'f, 'p, 'm) boot_world \<Rightarrow> router_config \<Rightarrow> ('k, 'f, 'm) boot_state \<Rightarrow> boot_action list \<times> ('k, 'f, 'm) boot_state" where
  "setup_loopback_and_firewall L W c s =
     (if \<not> bw_pid1 W then ([], s)
      else case configure_network_init L (bw_netlink W) (bs_net s) of
        (Inl e, k) \<Rightarrow> ([Panic], s\<lparr> bs_net := k \<rparr>)
      | (Inr _, k) \<Rightarrow>
          let s = s\<lparr> bs_net := k \<rparr> in
          (case configure_firewall (bw_nft W) WAN_INTERFACE LAN_INTERFACE (rc_port_forwards c) (bs_filter s) of
             (Inl e, f) \<Rightarrow> ([NetworkInitialised, Panic], s\<lparr> bs_filter := f \<rparr>)
           | (Inr _, f) \<Rightarrow> ([NetworkInitialised, FirewallInstalled (rc_port_forwards c)], s\<lparr> bs_filter := f \<rparr>)))"

definition build_managed_interfaces :: "router_config \<Rightarrow> managed_interface list" where
  "build_managed_interfaces c =
     [managed_interface_new WAN_INTERFACE (rc_wan_mac c)
        [\<lparr> rs_kind = DhcpClientService, rs_controller = controller_new \<rparr>,
         \<lparr> rs_kind = SntpClientService, rs_controller = controller_new \<rparr>],
      managed_interface_new LAN_INTERFACE (rc_lan_mac c)
        [\<lparr> rs_kind = LanManagerService, rs_controller = controller_new \<rparr>]]"

text \<open>The names sent to the DNS forwarder before it runs; the channel holds 64 and \<open>try_send\<close> drops the others.\<close>

definition startup_hosts :: "'n net_lib \<Rightarrow> router_config \<Rightarrow> (string \<times> ip) list" where
  "startup_hosts L c =
     take 64
       ((case net_parse L (rc_lan_ip c) of Some n \<Rightarrow> [(ROUTER_HOSTNAME, net_addr L n)] | None \<Rightarrow> [])
        @ List.map_filter (\<lambda>l. map_option (\<lambda>n. (n, sl_ip l)) (sl_hostname l)) (rc_static_leases c))"

definition configure_networking_and_services ::
  "'n net_lib \<Rightarrow> ('k, 'f, 'p, 'm) boot_world \<Rightarrow> router_config \<Rightarrow> ('k, 'f, 'm) boot_state \<Rightarrow> boot_action list \<times> ('k, 'f, 'm) boot_state" where
  "configure_networking_and_services L W c s =
     (case setup_loopback_and_firewall L W c s of
        (acts, s) \<Rightarrow>
          if Panic \<in> set acts then (acts, s)
          else (acts @ map (\<lambda>(n, i). HostRegistered n i) (startup_hosts L c)
                  @ [DnsStarted (rc_dns_servers c), MonitorStarted (build_managed_interfaces c)], s))"

text \<open>Boot up to the main loop, which waits for the signal task.\<close>

definition run_as_init ::
  "'n net_lib \<Rightarrow> config_lib \<Rightarrow> ('k, 'f, 'p, 'm) boot_world \<Rightarrow> ('k, 'f, 'm) boot_state \<Rightarrow> boot_action list \<times> ('k, 'f, 'm) boot_state" where
  "run_as_init L C W s =
     (case early_boot L C W s of
        (None, acts, s) \<Rightarrow> (acts, s)
      | (Some c, acts, s) \<Rightarrow>
          (case configure_networking_and_services L W c s of
             (later, s) \<Rightarrow> (acts @ start_system_services W (rc_watchdog c) @ later, s)))"

end
