(* ===== verification/Interface_Props.thy ===== *)
theory Interface_Props
  imports Interface
begin

text \<open>
  Services live exactly as long as their interface: an invariant of the interface monitor, and what
  it means for the watchdog when an interface is missing.
\<close>

section \<open>Runs\<close>

fun iface_run ::
  "'k link_kernel \<Rightarrow> (service_kind \<Rightarrow> bool) \<Rightarrow> iface_event list \<Rightarrow> 'k monitor \<Rightarrow> (monitored_service list \<times> 'k monitor) option" where
  "iface_run K binds [] mo = Some ([], mo)"
| "iface_run K binds (e # es) mo =
     (case iface_monitor_step K binds e mo of
        None \<Rightarrow> None
      | Some (beats, mo') \<Rightarrow> map_option (\<lambda>(later, final). (beats @ later, final)) (iface_run K binds es mo'))"

section \<open>The invariant\<close>

definition iface_ok :: "managed_interface \<Rightarrow> bool" where
  "iface_ok i \<longleftrightarrow>
     (\<forall>s \<in> set (mi_services i). rs_kind s \<noteq> ObservabilityService \<and> (is_running (rs_controller s) \<longleftrightarrow> mi_active_index i \<noteq> None))"

text \<open>What never changes of an interface.\<close>

definition identity :: "managed_interface \<Rightarrow> string \<times> mac \<times> service_kind list" where
  "identity i = (mi_name i, mi_mac i, map rs_kind (mi_services i))"

lemma start_services_ok:
  assumes "iface_ok i" "mi_active_index i = None"
  shows "iface_ok ((start_services binds i)\<lparr> mi_active_index := Some index \<rparr>)
    \<and> identity ((start_services binds i)\<lparr> mi_active_index := Some index \<rparr>) = identity i"
  using assms
  by (auto simp: iface_ok_def identity_def start_services_def service_start_def is_running_def)

lemma handle_del_link_ok: "iface_ok i \<Longrightarrow> iface_ok (handle_del_link index i) \<and> identity (handle_del_link index i) = identity i"
  by (auto simp: iface_ok_def identity_def handle_del_link_def stop_iface_services_def service_stop_def
      controller_new_def is_running_def)

lemma try_nl_Inr: "try_nl m f k = (Inr y, k') \<longleftrightarrow> (\<exists>x k1. m k = (Inr x, k1) \<and> f x k1 = (Inr y, k'))"
  by (auto simp: try_nl_def split: prod.splits sum.splits)

lemma activate_interface_result:
  "activate_interface K binds i index name k = (Inr i', k') \<Longrightarrow> i' = (start_services binds i)\<lparr> mi_active_index := Some index \<rparr>"
  by (auto simp: activate_interface_def try_nl_Inr)

lemma handle_new_link_result:
  assumes "handle_new_link K binds i index name m k = (Inr i', k')"
  shows "i' = (if m = mi_mac i \<and> mi_active_index i = None then (start_services binds i)\<lparr> mi_active_index := Some index \<rparr> else i)"
  using assms activate_interface_result
  by (fastforce simp: handle_new_link_def try_nl_Inr split: if_splits option.splits)

lemma handle_new_link_ok:
  assumes "handle_new_link K binds i index name m k = (Inr i', k')" "iface_ok i"
  shows "iface_ok i' \<and> identity i' = identity i"
  using handle_new_link_result[OF assms(1)] start_services_ok[OF assms(2)] assms(2) by auto

lemma route_new_link_result:
  assumes "route_new_link K binds index name m ifaces k = (Inr r, ifaces', k')"
  shows "list_all2 (\<lambda>i i'. i' = (if m = mi_mac i \<and> mi_active_index i = None
      then (start_services binds i)\<lparr> mi_active_index := Some index \<rparr> else i)) ifaces ifaces'"
  using assms
proof (induction ifaces arbitrary: ifaces' k)
  case (Cons i ifaces)
  then obtain i1 k1 rest where "handle_new_link K binds i index name m k = (Inr i1, k1)"
      "route_new_link K binds index name m ifaces k1 = (Inr r, rest, k')" "ifaces' = i1 # rest"
    by (auto split: prod.splits sum.splits)
  with Cons.IH[of k1 rest] show ?case using handle_new_link_result[of K binds i index name m k i1 k1] by simp
qed simp

definition all_ok :: "(string \<times> mac \<times> service_kind list) list \<Rightarrow> managed_interface list \<Rightarrow> bool" where
  "all_ok ids ifaces \<longleftrightarrow> list_all iface_ok ifaces \<and> map identity ifaces = ids"

lemma route_new_link_ok:
  assumes "route_new_link K binds index name m ifaces k = (Inr r, ifaces', k')" "all_ok ids ifaces"
  shows "all_ok ids ifaces'"
proof -
  from route_new_link_result[OF assms(1)] assms(2) show ?thesis
  proof (induction arbitrary: ids rule: list_all2_induct)
    case (Cons i tl i' tl')
    then show ?case using start_services_ok[of i index binds] by (auto simp: all_ok_def)
  qed (simp add: all_ok_def)
qed

lemma iface_step_ok:
  assumes "iface_monitor_step K binds e mo = Some (beats, mo')" "all_ok ids (mo_ifaces mo)"
  shows "all_ok ids (mo_ifaces mo')"
proof (cases e)
  case MonTimer
  with assms show ?thesis by (auto split: prod.splits)
next
  case (MonMessage msg)
  show ?thesis
  proof (cases msg)
    case (NewLink l)
    from assms(1) MonMessage NewLink obtain u where h: "handle_new_link_event K binds l mo = (Inr u, mo')"
      by (auto split: prod.splits sum.splits)
    show ?thesis
    proof (cases "mo' = mo")
      case False
      with h obtain n a k k' where
        "route_new_link K binds (lm_index l) n a (mo_ifaces mo) k = (Inr u, mo_ifaces mo', k')"
        by (auto simp: handle_new_link_event_def Let_def split: option.splits if_splits prod.splits)
      with route_new_link_ok[OF _ assms(2)] show ?thesis by simp
    qed (use assms(2) in simp)
  next
    case (DelLink l)
    then have "mo_ifaces mo' = map (handle_del_link (lm_index l)) (mo_ifaces mo)"
      using assms(1) MonMessage by (auto simp: handle_del_link_event_def Let_def)
    with assms(2) show ?thesis using handle_del_link_ok by (auto simp: all_ok_def list_all_iff)
  qed (use assms MonMessage in simp)
qed

lemma run_ok: "iface_run K binds es mo = Some (beats, mo') \<Longrightarrow> all_ok ids (mo_ifaces mo) \<Longrightarrow> all_ok ids (mo_ifaces mo')"
proof (induction es arbitrary: mo beats)
  case (Cons e es)
  then obtain b1 mo1 b2 where "iface_monitor_step K binds e mo = Some (b1, mo1)" "iface_run K binds es mo1 = Some (b2, mo')"
    by (auto split: option.splits)
  with Cons iface_step_ok show ?case by blast
qed simp

lemma startup_ok:
  "activate_startup_interfaces K binds ifaces detected k = Some (ifaces', detected', k') \<Longrightarrow> \<forall>i \<in> set ifaces. iface_ok i \<and> mi_active_index i = None
   \<Longrightarrow> all_ok (map identity ifaces) ifaces'"
proof (induction ifaces arbitrary: ifaces' detected k)
  case (Cons i ifaces)
  then obtain i1 rest d1 k1 where "ifaces' = i1 # rest" "activate_startup_interfaces K binds ifaces d1 k1 = Some (rest, detected', k')"
      "i1 = i \<or> (\<exists>index. i1 = (start_services binds i)\<lparr> mi_active_index := Some index \<rparr>)"
    by (fastforce split: option.splits prod.splits sum.splits dest: activate_interface_result)
  with Cons start_services_ok show ?case by (auto simp: all_ok_def)
qed (simp add: all_ok_def)

definition fresh_ifaces :: "managed_interface list \<Rightarrow> bool" where
  "fresh_ifaces ifaces \<longleftrightarrow>
     (\<forall>i \<in> set ifaces. mi_active_index i = None
        \<and> (\<forall>s \<in> set (mi_services i). rs_controller s = controller_new \<and> rs_kind s \<noteq> ObservabilityService))"

lemma start_ok:
  assumes "fresh_ifaces ifaces" "iface_monitor_start K binds ifaces k = Some mo"
  shows "all_ok (map identity ifaces) (mo_ifaces mo)"
proof -
  have "\<forall>i \<in> set ifaces. iface_ok i \<and> mi_active_index i = None"
    using assms(1) by (auto simp: fresh_ifaces_def iface_ok_def is_running_def controller_new_def)
  with assms(2) startup_ok show ?thesis by (fastforce simp: iface_monitor_start_def split: prod.splits)
qed


section \<open>An interface that is not there\<close>

text \<open>No link the kernel lists and no link message carries the hardware address \<open>m\<close>.\<close>

definition never_listed :: "'k link_kernel \<Rightarrow> mac \<Rightarrow> bool" where
  "never_listed K m \<longleftrightarrow> (\<forall>k. \<forall>l \<in> set (good_links (lk_links K k)). \<forall>x n. named_link l \<noteq> Some (x, n, m))"

definition never_announced :: "iface_event list \<Rightarrow> mac \<Rightarrow> bool" where
  "never_announced events m \<longleftrightarrow>
     (\<forall>l. MonMessage (NewLink l) \<in> set events \<longrightarrow> snd (parse_link_attributes (lm_attributes l) (None, None)) \<noteq> Some m)"

definition absent :: "mac \<Rightarrow> 'k monitor \<Rightarrow> bool" where
  "absent m mo \<longleftrightarrow> (\<forall>x n c. mo_states mo x \<noteq> Some (n, m, c)) \<and> (\<forall>i \<in> set (mo_ifaces mo). mi_mac i = m \<longrightarrow> mi_active_index i = None)"

lemma update_carrier_absent:
  "update_carrier_state x n a c states = (states', logged) \<Longrightarrow> a \<noteq> m \<Longrightarrow> \<forall>y n c. states y \<noteq> Some (n, m, c) \<Longrightarrow> \<forall>y n c. states' y \<noteq> Some (n, m, c)"
  by (auto simp: update_carrier_state_def split: option.splits prod.splits if_splits)

lemma poll_absent:
  "poll_interface_carrier_states reader ifaces states = (states', logged) \<Longrightarrow> \<forall>i \<in> set ifaces. mi_mac i = m \<longrightarrow> mi_active_index i = None
   \<Longrightarrow> \<forall>y n c. states y \<noteq> Some (n, m, c) \<Longrightarrow> \<forall>y n c. states' y \<noteq> Some (n, m, c)"
proof (induction ifaces arbitrary: states logged)
  case (Cons i ifaces)
  show ?case
  proof (cases "\<exists>x c. mi_active_index i = Some x \<and> reader (mi_name i) = Some c")
    case True
    then obtain x c where xc: "mi_active_index i = Some x" "reader (mi_name i) = Some c" by blast
    obtain s1 l1 where u: "update_carrier_state x (mi_name i) (mi_mac i) c states = (s1, l1)" by fastforce
    with xc Cons.prems(1) obtain l2 where "poll_interface_carrier_states reader ifaces s1 = (states', l2)"
      by (auto split: prod.splits)
    then show ?thesis using Cons.IH Cons.prems(2) update_carrier_absent[OF u _ Cons.prems(3)] xc by auto
  qed (use Cons in \<open>auto split: option.splits\<close>)
qed simp

lemma resolve_link_absent:
  assumes "resolve_link K l mo = Some (n, a)" "absent m mo" "m \<noteq> MacAddr 0 0 0 0 0 0"
    "snd (parse_link_attributes (lm_attributes l) (None, None)) \<noteq> Some m"
  shows "a \<noteq> m"
  using assms by (auto simp: resolve_link_def absent_def split: prod.splits option.splits)

lemma route_new_link_absent:
  assumes "route_new_link K binds x n a ifaces k = (Inr u, ifaces', k')" "a \<noteq> m" "\<forall>i \<in> set ifaces. mi_mac i = m \<longrightarrow> mi_active_index i = None"
  shows "\<forall>i \<in> set ifaces'. mi_mac i = m \<longrightarrow> mi_active_index i = None"
proof -
  from route_new_link_result[OF assms(1)] assms(2,3) show ?thesis
    by (induction rule: list_all2_induct) (auto simp: start_services_def)
qed

lemma step_absent:
  assumes "iface_monitor_step K binds e mo = Some (beats, mo')" "absent m mo" "m \<noteq> MacAddr 0 0 0 0 0 0" "never_announced [e] m"
  shows "absent m mo'"
proof (cases e)
  case MonTimer
  with assms(1,2) poll_absent[of _ "mo_ifaces mo" "mo_states mo" _ _ m] show ?thesis
    by (auto simp: absent_def split: prod.splits)
next
  case (MonMessage msg)
  show ?thesis
  proof (cases msg)
    case (NewLink l)
    from assms(1) MonMessage NewLink obtain u where h: "handle_new_link_event K binds l mo = (Inr u, mo')"
      by (auto split: prod.splits sum.splits)
    show ?thesis
    proof (cases "mo' = mo")
      case False
      with h obtain n a k k' logged where r: "resolve_link K l mo = Some (n, a)"
          "route_new_link K binds (lm_index l) n a (mo_ifaces mo) k = (Inr u, mo_ifaces mo', k')"
          "update_carrier_state (lm_index l) n a (lm_lower_up l) (mo_states mo) = (mo_states mo', logged)"
        by (auto simp: handle_new_link_event_def Let_def split: option.splits if_splits prod.splits)
      have "a \<noteq> m"
        using resolve_link_absent[OF r(1) assms(2,3)] assms(4) MonMessage NewLink by (simp add: never_announced_def)
      with route_new_link_absent[OF r(2)] update_carrier_absent[OF r(3)] assms(2) show ?thesis by (simp add: absent_def)
    qed (use assms(2) in simp)
  next
    case (DelLink l)
    with assms(1,2) MonMessage show ?thesis
      by (auto simp: absent_def handle_del_link_event_def Let_def handle_del_link_def stop_iface_services_def split: if_splits)
  qed (use assms MonMessage in simp)
qed

lemma run_absent:
  "iface_run K binds es mo = Some (beats, mo') \<Longrightarrow> absent m mo \<Longrightarrow> m \<noteq> MacAddr 0 0 0 0 0 0 \<Longrightarrow> never_announced es m \<Longrightarrow> absent m mo'"
proof (induction es arbitrary: mo beats)
  case (Cons e es)
  then obtain b1 mo1 b2 where st: "iface_monitor_step K binds e mo = Some (b1, mo1)" "iface_run K binds es mo1 = Some (b2, mo')"
    by (auto split: option.splits)
  have "never_announced [e] m" "never_announced es m" using Cons.prems(4) by (auto simp: never_announced_def)
  with Cons.IH[OF st(2)] step_absent[OF st(1)] Cons.prems(2,3) show ?case by blast
qed simp

lemma scan_absent:
  "initial_link_scan K ls (states, logged) k = (states', logged', k') \<Longrightarrow> \<forall>l \<in> set ls. \<forall>x n. named_link l \<noteq> Some (x, n, m)
   \<Longrightarrow> \<forall>y n c. states y \<noteq> Some (n, m, c) \<Longrightarrow> \<forall>y n c. states' y \<noteq> Some (n, m, c)"
proof (induction ls arbitrary: states logged k)
  case (Cons l ls)
  show ?case
  proof (cases "named_link l")
    case (Some p)
    obtain x n a where p: "p = (x, n, a)" by (cases p)
    obtain s1 l1 where u: "update_carrier_state x n a (lm_lower_up l) states = (s1, l1)" by fastforce
    have "a \<noteq> m" using Cons.prems(2) Some p by auto
    with update_carrier_absent[OF u _ Cons.prems(3)] Cons.IH Cons.prems Some p u show ?thesis
      by (auto split: if_splits)
  qed (use Cons in auto)
qed simp

lemma startup_absent:
  "activate_startup_interfaces K binds ifaces detected k = Some (ifaces', detected', k') \<Longrightarrow> never_listed K m
   \<Longrightarrow> \<forall>i \<in> set ifaces. mi_active_index i = None \<Longrightarrow> \<forall>i \<in> set ifaces'. mi_mac i = m \<longrightarrow> mi_active_index i = None"
proof (induction ifaces arbitrary: ifaces' detected k)
  case (Cons i ifaces)
  then obtain i1 rest d1 k1 where *: "ifaces' = i1 # rest" "activate_startup_interfaces K binds ifaces d1 k1 = Some (rest, detected', k')"
      "i1 = i \<or> (find_interface_by_mac K (mi_mac i) k \<noteq> None \<and> (\<exists>index. i1 = (start_services binds i)\<lparr> mi_active_index := Some index \<rparr>))"
    by (fastforce split: option.splits prod.splits sum.splits dest: activate_interface_result)
  have "find_interface_by_mac K m k = None"
    using Cons.prems(2) by (fastforce simp: find_interface_by_mac_def never_listed_def find_None_iff List.map_filter_def)
  with * Cons show ?case by (auto simp: start_services_def)
qed simp

lemma start_absent:
  assumes "iface_monitor_start K binds ifaces k = Some mo" "fresh_ifaces ifaces" "never_listed K m"
  shows "absent m mo"
proof -
  obtain states logged k1 where sc: "initial_link_scan K (good_links (lk_links K k)) (Map.empty, []) k = (states, logged, k1)"
    by (metis prod_cases3)
  with assms(1) obtain detected k2 where "activate_startup_interfaces K binds ifaces {} k1 = Some (mo_ifaces mo, detected, k2)" "mo_states mo = states"
    by (auto simp: iface_monitor_start_def)
  with startup_absent[OF _ assms(3)] scan_absent[OF sc] assms(2,3) show ?thesis
    by (fastforce simp: absent_def never_listed_def fresh_ifaces_def)
qed

section \<open>A concrete kernel\<close>

definition plain_links :: "plain_kernel link_kernel" where
  "plain_links = \<lparr> lk_net = plain_netlink,
     lk_links = (\<lambda>(links, as, rt).
       [Inr \<lparr> lm_index = 2, lm_lower_up = True, lm_attributes = [IfName ''eth0'', LinkAddress [2, 0, 0, 0, 0, 2]] \<rparr>]),
     lk_change = (\<lambda>x c k. (True, k)), lk_sysfs_names = (\<lambda>k. None), lk_sysfs = (\<lambda>n f k. None) \<rparr>"

definition demo_ifaces :: "managed_interface list" where
  "demo_ifaces =
     [managed_interface_new ''wan'' (MacAddr 2 0 0 0 0 2) [\<lparr> rs_kind = DhcpClientService, rs_controller = controller_new \<rparr>],
      managed_interface_new ''lan'' (MacAddr 2 0 0 0 0 3) [\<lparr> rs_kind = LanManagerService, rs_controller = controller_new \<rparr>]]"

definition demo_newlink :: link_msg where
  "demo_newlink = \<lparr> lm_index = 3, lm_lower_up = True, lm_attributes = [IfName ''eth1'', LinkAddress [2, 0, 0, 0, 0, 3]] \<rparr>"

lemmas demo_iface_defs = plain_links_def demo_ifaces_def demo_newlink_def iface_monitor_start_def named_link_def find_interface_by_mac_def
  update_carrier_state_def ensure_interface_up_def plain_netlink_def try_nl_def new_connection_def find_link_def check_nl_def
  rename_and_up_interface_def rename_interface_by_index_def activate_interface_def managed_interface_new_def
  start_services_def service_start_def controller_new_def is_running_def List.map_filter_def
  handle_new_link_event_def resolve_link_def handle_new_link_def Let_def


end
