(* ===== verification/Boot_Props.thy ===== *)
theory Boot_Props
  imports Boot Interface_Props
begin

text \<open>
  What boot guarantees: the order of its steps, and how it is composed with the watchdog and the
  interface monitor.
\<close>

section \<open>The order of the boot\<close>

fun starts_service :: "boot_action \<Rightarrow> bool" where
  "starts_service (DnsStarted servers) = True"
| "starts_service (MonitorStarted ifaces) = True"
| "starts_service a = False"

definition quiet :: "boot_action list \<Rightarrow> bool" where
  "quiet acts \<longleftrightarrow> Panic \<notin> set (butlast acts) \<and> (\<forall>a \<in> set acts. \<not> starts_service a)"

lemma storage_quiet:
  assumes "mount_storage_and_modules W s = (acts, s')"
  shows "quiet acts \<and> acts \<noteq> [] \<and> bs_net s' = bs_net s \<and> bs_filter s' = bs_filter s"
  using assms
  by (auto simp: mount_storage_and_modules_def quiet_def Let_def split: if_splits prod.splits sum.splits bool.splits)

lemma early_boot_result:
  assumes "early_boot L C W s = (r, acts, s')"
  shows "quiet acts \<and> bs_net s' = bs_net s \<and> bs_filter s' = bs_filter s
    \<and> (case r of None \<Rightarrow> Panic \<in> set acts
       | Some c \<Rightarrow> Panic \<notin> set acts \<and> parse_config L C (bw_config W) = Inr c \<and> ConfigLoaded c \<in> set acts)"
proof -
  obtain a1 s1 where m: "mount_storage_and_modules W s = (a1, s1)" by fastforce
  note q = storage_quiet[OF m]
  show ?thesis
  proof (cases "Panic \<in> set a1")
    case True
    with assms m q show ?thesis by (auto simp: early_boot_def Let_def quiet_def)
  next
    case False
    with assms m q show ?thesis
      by (auto simp: early_boot_def Let_def quiet_def load_and_apply_config_def butlast_append split: sum.splits)
  qed
qed

lemma networking_result:
  assumes "setup_loopback_and_firewall L W c s = (acts, s')" "bw_pid1 W"
  shows "Panic \<notin> set (butlast acts) \<and> (\<forall>a \<in> set acts. \<not> starts_service a)
    \<and> (Panic \<notin> set acts \<longrightarrow> FirewallInstalled (rc_port_forwards c) \<in> set acts
        \<and> configure_firewall (bw_nft W) WAN_INTERFACE LAN_INTERFACE (rc_port_forwards c) (bs_filter s) = (Inr (), bs_filter s'))"
  using assms by (auto simp: setup_loopback_and_firewall_def Let_def split: prod.splits sum.splits)

lemma configure_firewall_sent:
  assumes "configure_firewall F wan lan forwards k = (Inr (), k')"
  shows "\<exists>batch k1. validate_interface_name wan = Inr () \<and> validate_interface_name lan = Inr ()
    \<and> firewall_batch F wan lan forwards = Inr batch \<and> nft_send F batch k1 = (SendOk, k')"
  using assms
  by (auto simp: configure_firewall_def split: sum.splits prod.splits send_result.splits if_splits)

lemma system_services_quiet: "Panic \<notin> set (start_system_services W on) \<and> (\<forall>a \<in> set (start_system_services W on). \<not> starts_service a)"
  by (auto simp: start_system_services_def)

text \<open>A service that starts in a list without a panic starts after what precedes every service.\<close>

lemma service_after_prefix:
  assumes "pre @ a # post = xs @ ys" "\<forall>x \<in> set xs. \<not> starts_service x" "starts_service a"
  shows "set xs \<subseteq> set pre"
proof -
  from assms(1) consider us where "pre = xs @ us" | us where "xs = pre @ us" "us @ ys = a # post"
    by (auto simp: append_eq_append_conv2)
  then show ?thesis
  proof cases
    case 2
    then show ?thesis using assms(2,3) by (cases us) auto
  qed simp
qed

lemma run_as_init_cases:
  assumes "run_as_init L C W s = (acts, s')" "bw_pid1 W"
  shows "quiet acts \<and> Panic \<in> set acts \<or>
    (\<exists>c xs. acts = xs @ [DnsStarted (rc_dns_servers c), MonitorStarted (build_managed_interfaces c)] \<and> Panic \<notin> set xs
      \<and> (\<forall>a \<in> set xs. \<not> starts_service a) \<and> parse_config L C (bw_config W) = Inr c \<and> ConfigLoaded c \<in> set xs
      \<and> FirewallInstalled (rc_port_forwards c) \<in> set xs
      \<and> configure_firewall (bw_nft W) WAN_INTERFACE LAN_INTERFACE (rc_port_forwards c) (bs_filter s) = (Inr (), bs_filter s'))"
proof -
  obtain r a1 s1 where e: "early_boot L C W s = (r, a1, s1)" by (metis prod_cases3)
  note early = early_boot_result[OF e]
  show ?thesis
  proof (cases r)
    case None
    with assms(1) e early show ?thesis by (simp add: run_as_init_def)
  next
    case (Some c)
    obtain a2 s2 where n: "setup_loopback_and_firewall L W c s1 = (a2, s2)" by fastforce
    note net = networking_result[OF n assms(2)] system_services_quiet[of W "rc_watchdog c"]
    show ?thesis
    proof (cases "Panic \<in> set a2")
      case True
      then have "acts = a1 @ start_system_services W (rc_watchdog c) @ a2"
        using assms(1) e Some n by (simp add: run_as_init_def configure_networking_and_services_def)
      with True net early Some show ?thesis by (auto simp: quiet_def butlast_append)
    next
      case False
      let ?xs = "a1 @ start_system_services W (rc_watchdog c) @ a2 @ map (\<lambda>(n, i). HostRegistered n i) (startup_hosts L c)"
      from False have "acts = ?xs @ [DnsStarted (rc_dns_servers c), MonitorStarted (build_managed_interfaces c)]" "s' = s2"
        using assms(1) e Some n by (simp_all add: run_as_init_def configure_networking_and_services_def)
      moreover have "Panic \<notin> set ?xs" "\<forall>a \<in> set ?xs. \<not> starts_service a" using False net early Some by (auto simp: quiet_def)
      ultimately show ?thesis using False net(1) early Some by (intro disjI2 exI[of _ c] exI[of _ ?xs]) simp
    qed
  qed
qed

text \<open>
  C7. No service is exposed without the firewall. As process 1, boot either panics, and then it has
  started no service, or it starts them all, with the accepted configuration. Whenever it starts
  the DNS forwarder or the interface monitor, the configuration was loaded and the firewall
  was installed before, and the kernel then holds rules that drop every packet for the router
  that arrives on the WAN interface, except of known connections, DHCP replies and ICMP.
\<close>

theorem services_start_behind_firewall:
  assumes "run_as_init L C W s = (acts, s')" "bw_pid1 W" "nft_laws (bw_nft W)"
  shows "Panic \<in> set acts \<and> (\<forall>a \<in> set acts. \<not> starts_service a)
    \<or> (\<exists>c. parse_config L C (bw_config W) = Inr c \<and> Panic \<notin> set acts
        \<and> DnsStarted (rc_dns_servers c) \<in> set acts \<and> MonitorStarted (build_managed_interfaces c) \<in> set acts
        \<and> (\<forall>pre a post. acts = pre @ a # post \<longrightarrow> starts_service a \<longrightarrow>
             ConfigLoaded c \<in> set pre \<and> FirewallInstalled (rc_port_forwards c) \<in> set pre)
        \<and> (\<exists>batch k. firewall_batch (bw_nft W) WAN_INTERFACE LAN_INTERFACE (rc_port_forwards c) = Inr batch
             \<and> nft_send (bw_nft W) batch k = (SendOk, bs_filter s')
             \<and> (\<forall>p. pkt_iif (bw_nft W) p = WAN_INTERFACE \<longrightarrow>
                   nft_eval (bw_nft W) (rules_of ''filter_input'' batch) (nc_policy filter_chain) p =
                     (if pkt_ct_state (bw_nft W) p AND 1 = 0
                         \<and> (pkt_ct_state (bw_nft W) p AND 6 \<noteq> 0 \<or> pkt_dport (bw_nft W) p = Some (NftUdp, 68) \<or> pkt_icmp (bw_nft W) p)
                      then ActAccept else ActDrop))))"
proof (rule disjE[OF run_as_init_cases[OF assms(1,2)]])
  assume "quiet acts \<and> Panic \<in> set acts"
  then show ?thesis by (simp add: quiet_def)
next
  assume "\<exists>c xs. acts = xs @ [DnsStarted (rc_dns_servers c), MonitorStarted (build_managed_interfaces c)] \<and> Panic \<notin> set xs
      \<and> (\<forall>a \<in> set xs. \<not> starts_service a) \<and> parse_config L C (bw_config W) = Inr c \<and> ConfigLoaded c \<in> set xs
      \<and> FirewallInstalled (rc_port_forwards c) \<in> set xs
      \<and> configure_firewall (bw_nft W) WAN_INTERFACE LAN_INTERFACE (rc_port_forwards c) (bs_filter s) = (Inr (), bs_filter s')"
  then obtain c xs where b: "acts = xs @ [DnsStarted (rc_dns_servers c), MonitorStarted (build_managed_interfaces c)]" "Panic \<notin> set xs"
      "\<forall>a \<in> set xs. \<not> starts_service a" "parse_config L C (bw_config W) = Inr c" "ConfigLoaded c \<in> set xs"
      "FirewallInstalled (rc_port_forwards c) \<in> set xs"
    and f: "configure_firewall (bw_nft W) WAN_INTERFACE LAN_INTERFACE (rc_port_forwards c) (bs_filter s) = (Inr (), bs_filter s')"
    by blast
  obtain batch k where v: "validate_interface_name WAN_INTERFACE = Inr ()" "validate_interface_name LAN_INTERFACE = Inr ()"
      "firewall_batch (bw_nft W) WAN_INTERFACE LAN_INTERFACE (rc_port_forwards c) = Inr batch" "nft_send (bw_nft W) batch k = (SendOk, bs_filter s')"
    using configure_firewall_sent[OF f] by blast
  have "\<forall>p. pkt_iif (bw_nft W) p = WAN_INTERFACE \<longrightarrow>
      nft_eval (bw_nft W) (rules_of ''filter_input'' batch) (nc_policy filter_chain) p =
        (if pkt_ct_state (bw_nft W) p AND 1 = 0
            \<and> (pkt_ct_state (bw_nft W) p AND 6 \<noteq> 0 \<or> pkt_dport (bw_nft W) p = Some (NftUdp, 68) \<or> pkt_icmp (bw_nft W) p)
         then ActAccept else ActDrop)"
    using firewall_batch_decides[OF assms(3) v(1,2), of "rc_port_forwards c"] v(3) by (auto simp: WAN_INTERFACE_def LAN_INTERFACE_def)
  moreover have "\<forall>pre a post. acts = pre @ a # post \<longrightarrow> starts_service a \<longrightarrow>
      ConfigLoaded c \<in> set pre \<and> FirewallInstalled (rc_port_forwards c) \<in> set pre"
    using service_after_prefix[OF _ b(3)] b(1,5,6) by (metis subsetD)
  ultimately show ?thesis using b v(3,4) by (intro disjI2 exI[of _ c] conjI) auto
qed

section \<open>A boot\<close>

definition demo_modules :: "unit module_world" where
  "demo_modules = \<lparr> mw_release = [], mw_tree = [], mw_dep = None, mw_alias = None, mw_init = (\<lambda>path compressed k. (InitOk, k)) \<rparr>"

definition demo_partition :: block_entry where
  "demo_partition = \<lparr> be_name = ''sda1'', be_partition = True, be_opens = True, be_label = Some ''TRIMROUTER'',
     be_parent = Some ''/sys/devices/sda'' \<rparr>"

definition demo_world :: "log_env \<Rightarrow> log_disk \<Rightarrow> (plain_kernel, nft_message list option, plain_packet, unit) boot_world" where
  "demo_world E d = \<lparr> bw_pid1 = True, bw_mount_ok = (\<lambda>_. True), bw_resolv = (True, True, True), bw_modules = demo_modules,
     bw_devices = None, bw_partitions = [(0, Some [Some demo_partition])], bw_p2_known = True, bw_node_after = None,
     bw_image = False, bw_image_mounts = (\<lambda>_. False), bw_log_mounts = (True, True, True), bw_log_disk = d, bw_jail = (True, True, True),
     bw_log_env = E, bw_config = Some ''demo'', bw_netlink = plain_netlink, bw_nft = plain_nft True, bw_watchdog = Some (True, 60) \<rparr>"

definition demo_state :: "log_state \<Rightarrow> (plain_kernel, nft_message list option, unit) boot_state" where
  "demo_state lg = \<lparr> bs_files = Map.empty, bs_kmod = \<lparr> km_loaded = {}, km_dep_cache = None, km_alias_cache = None, km_kernel = () \<rparr>,
     bs_disk = fresh_disk, bs_log = lg, bs_net = demo_kernel, bs_filter = None \<rparr>"

lemma demo_boot_partition: "wait_for_boot_partition [(0, Some [Some demo_partition])] = Inr (''/dev/sda1'', ''/dev/sda'')"
proof -
  have "utf8_trim ''TRIMROUTER'' = ''TRIMROUTER''" "path_file_name ''/sys/devices/sda'' = Some ''sda''" by code_simp+
  then show ?thesis by (simp add: BOOT_MOUNT_TIMEOUT_def from_secs_def check_partition_entry_def demo_partition_def)
qed

lemma demo_mounts: "\<exists>made. mount_virtual_filesystems True (\<lambda>_. True) = (Inr (), made, True)"
  by (simp add: mount_virtual_filesystems_def virtual_mounts_def real_mount_def)

lemma demo_storage: "Panic \<notin> set (fst (mount_storage_and_modules (demo_world E d) (demo_state lg)))"
proof -
  obtain made where "mount_virtual_filesystems True (\<lambda>_. True) = (Inr (), made, True)" using demo_mounts by blast
  then show ?thesis
    by (simp add: mount_storage_and_modules_def demo_world_def demo_state_def demo_boot_partition setup_resolv_conf_def Let_def
        mount_boot_partition_def real_mount_def del: wait_for_boot_partition.simps split: prod.split)
qed

lemma demo_filter: "\<exists>k. configure_firewall (plain_nft True) ''wan'' ''lan'' forwards None = (Inr (), k)"
proof -
  have v: "validate_interface_name ''wan'' = Inr ()" "validate_interface_name ''lan'' = Inr ()"
    by (simp_all add: validate_interface_name_def IFNAMSIZ_def char_of_def)
  then obtain b where b: "firewall_batch (plain_nft True) ''wan'' ''lan'' forwards = Inr b"
    using firewall_batch_decides[OF plain_nft_laws] by blast
  then have "b \<noteq> [NftDel TRIMROUTER_TABLE]" by (auto simp: firewall_batch_def)
  with b v show ?thesis
    by (simp add: configure_firewall_def flush_existing_table_def plain_nft_def plain_fields_def)
qed

theorem services_start_behind_firewall_witness:
  "\<forall>E d lg. \<exists>acts s' batch. run_as_init cidr_lib demo_config_lib (demo_world E d) (demo_state lg) = (acts, s')
     \<and> DnsStarted [151587081] \<in> set acts
     \<and> firewall_batch (plain_nft True) ''wan'' ''lan'' [web_rule] = Inr batch
     \<and> nft_eval (plain_nft True) (rules_of ''filter_input'' batch) ActDrop ssh_from_wan = ActDrop"
proof (intro allI)
  fix E d lg
  let ?W = "demo_world E d"
  obtain acts s' where r: "run_as_init cidr_lib demo_config_lib ?W (demo_state lg) = (acts, s')" by fastforce
  have w: "bw_pid1 ?W" "bw_nft ?W = plain_nft True" "bw_config ?W = Some ''demo''" by (simp_all add: demo_world_def)
  have "\<exists>a \<in> set acts. starts_service a"
  proof -
    obtain e c s1 where eb: "early_boot cidr_lib demo_config_lib ?W (demo_state lg) = (Some c, e, s1)"
      using demo_storage[of E d lg]
      by (cases "mount_storage_and_modules ?W (demo_state lg)") (simp add: early_boot_def Let_def load_and_apply_config_def w demo_config_parsed)
    then have s1: "bs_net s1 = demo_kernel" "bs_filter s1 = None" using early_boot_result[OF eb] by (simp_all add: demo_state_def)
    obtain k where "configure_network_init cidr_lib plain_netlink demo_kernel = (Inr (), k)"
      by (simp add: configure_network_init_def plain_netlink_def try_nl_def check_nl_def new_connection_def
          enable_strict_reverse_path_filtering_def)
    then have "Panic \<notin> set (fst (setup_loopback_and_firewall cidr_lib ?W c s1))"
      using demo_filter[of "rc_port_forwards c"] s1
      by (auto simp: setup_loopback_and_firewall_def demo_world_def WAN_INTERFACE_def LAN_INTERFACE_def Let_def)
    then show ?thesis using r eb by (force simp: run_as_init_def configure_networking_and_services_def split: prod.splits)
  qed
  then obtain batch where "DnsStarted [151587081] \<in> set acts" "firewall_batch (plain_nft True) ''wan'' ''lan'' [web_rule] = Inr batch"
      "nft_eval (plain_nft True) (rules_of ''filter_input'' batch) (nc_policy filter_chain) ssh_from_wan = ActDrop"
    using services_start_behind_firewall[OF r w(1)] plain_nft_laws[of True]
    by (auto simp: w demo_config_parsed demo_router_config_def WAN_INTERFACE_def LAN_INTERFACE_def plain_nft_def plain_fields_def ssh_from_wan_def)
  with r show "\<exists>acts s' batch. run_as_init cidr_lib demo_config_lib ?W (demo_state lg) = (acts, s')
     \<and> DnsStarted [151587081] \<in> set acts \<and> firewall_batch (plain_nft True) ''wan'' ''lan'' [web_rule] = Inr batch
     \<and> nft_eval (plain_nft True) (rules_of ''filter_input'' batch) ActDrop ssh_from_wan = ActDrop"
    by (auto simp: filter_chain_def)
qed

section \<open>A missing interface\<close>

text \<open>
  The interface monitor and the watchdog together: \<open>router_run \<dots> events mo q t tks\<close> holds of the
  events the monitor has handled, its state, the heartbeats in the channel, the time and the ticks of the watchdog
  so far. Each turn of the monitor sends its heartbeats; a heartbeat of the DHCP client is sent
  by the service of that kind, hence while it runs; every other service may send at any time.
\<close>

definition client_running :: "'k monitor \<Rightarrow> bool" where
  "client_running mo \<longleftrightarrow> list_ex (\<lambda>i. list_ex (\<lambda>s. rs_kind s = DhcpClientService \<and> is_running (rs_controller s)) (mi_services i)) (mo_ifaces mo)"

inductive router_run ::
  "'k link_kernel \<Rightarrow> (service_kind \<Rightarrow> bool) \<Rightarrow> managed_interface list \<Rightarrow> 'k \<Rightarrow> instant
     \<Rightarrow> iface_event list \<Rightarrow> 'k monitor \<Rightarrow> monitored_service list \<Rightarrow> instant \<Rightarrow> tick list \<Rightarrow> bool"
  for K binds ifaces k start where
  rr_start: "iface_monitor_start K binds ifaces k = Some mo \<Longrightarrow> router_run K binds ifaces k start [] mo [] start []"
| rr_link: "router_run K binds ifaces k start events mo q t tks \<Longrightarrow> iface_monitor_step K binds e mo = Some (beats, mo') \<Longrightarrow>
    router_run K binds ifaces k start (events @ [e]) mo' (fold (send_service_heartbeat True) beats q) t tks"
| rr_beat: "router_run K binds ifaces k start events mo q t tks \<Longrightarrow> svc = MsDhcpClient \<longrightarrow> client_running mo \<Longrightarrow>
    router_run K binds ifaces k start events mo (send_service_heartbeat True svc q) t tks"
| rr_tick: "router_run K binds ifaces k start events mo q t tks \<Longrightarrow> t \<le> now \<Longrightarrow>
    router_run K binds ifaces k start events mo [] now
      (tks @ [\<lparr> tk_now = now, tk_queue = q, tk_shutdown = False, tk_write_ok = write_ok \<rparr>])"

lemma managed_fresh: "fresh_ifaces (build_managed_interfaces c)"
  by (simp add: fresh_ifaces_def build_managed_interfaces_def managed_interface_new_def)

lemma monitor_beats: "iface_monitor_step K binds e mo = Some (beats, mo') \<Longrightarrow> beats = [MsInterfaceMonitor]"
  by (cases e) (auto split: prod.splits sum.splits)

lemma absent_step_ok:
  assumes "iface_monitor_step K binds e mo = Some (beats, mo')" "absent m mo" "all_ok ids (mo_ifaces mo)"
    "m \<noteq> MacAddr 0 0 0 0 0 0" "never_announced [e] m"
  shows "absent m mo' \<and> all_ok ids (mo_ifaces mo')"
proof -
  have "iface_run K binds [e] mo = Some (beats @ [], mo')" using assms(1) by simp
  from run_absent[OF this assms(2,4,5)] run_ok[OF this assms(3)] show ?thesis by blast
qed

lemma client_absent:
  assumes "all_ok (map identity (build_managed_interfaces c)) (mo_ifaces mo)" "absent (rc_wan_mac c) mo"
  shows "\<not> client_running mo"
proof
  assume "client_running mo"
  then obtain i s where i: "i \<in> set (mo_ifaces mo)" "s \<in> set (mi_services i)" "rs_kind s = DhcpClientService"
    "is_running (rs_controller s)" by (auto simp: client_running_def list_ex_iff)
  have "identity i \<in> set (map identity (build_managed_interfaces c))" using assms(1) i(1) by (metis all_ok_def image_eqI set_map)
  with i(2,3) have "mi_mac i = rc_wan_mac c"
    by (auto simp: build_managed_interfaces_def managed_interface_new_def identity_def image_iff dest!: map_eq_Cons_D)
  with assms i show False by (auto simp: all_ok_def absent_def iface_ok_def list_all_iff)
qed

lemma router_run_silent:
  assumes "router_run K binds (build_managed_interfaces c) k start events mo q t tks" "never_listed K (rc_wan_mac c)"
    "never_announced events (rc_wan_mac c)" "rc_wan_mac c \<noteq> MacAddr 0 0 0 0 0 0"
  shows "absent (rc_wan_mac c) mo \<and> all_ok (map identity (build_managed_interfaces c)) (mo_ifaces mo)
    \<and> MsDhcpClient \<notin> set q \<and> (\<forall>tk \<in> set tks. \<not> tk_shutdown tk \<and> MsDhcpClient \<notin> set (tk_queue tk))
    \<and> sorted (start # map tk_now tks @ [t])"
  using assms(1,3)
proof induction
  case (rr_start mo)
  then show ?case using start_absent[OF rr_start(1) managed_fresh assms(2)] start_ok[OF managed_fresh rr_start(1)] by simp
next
  case (rr_link events mo q t tks e beats mo')
  have "never_announced events (rc_wan_mac c)" "never_announced [e] (rc_wan_mac c)"
    using rr_link.prems by (auto simp: never_announced_def)
  with rr_link.IH absent_step_ok[OF rr_link.hyps(2) _ _ assms(4), of "map identity (build_managed_interfaces c)"] monitor_beats[OF rr_link.hyps(2)] show ?case
    by (simp add: send_service_heartbeat_def)
next
  case (rr_beat events mo q t tks svc)
  then have "svc \<noteq> MsDhcpClient" using client_absent by blast
  with rr_beat show ?case by (simp add: send_service_heartbeat_def)
next
  case (rr_tick events mo q t tks now write_ok)
  then show ?case by (auto simp: sorted_append)
qed

text \<open>
  C39. A router whose WAN interface is missing stops petting its watchdog. If no link with the configured
  WAN hardware address is ever seen, the interface monitor never starts the DHCP client; the
  watchdog task that boot started expects its heartbeats like those of the other services, so from
  30 seconds after its start on no tick writes to the device, although everything that can run is running.
\<close>

theorem missing_wan_starves_watchdog:
  assumes "router_run K binds (build_managed_interfaces c) k start events mo q t (tks @ [tk])"
    "never_listed K (rc_wan_mac c)" "never_announced events (rc_wan_mac c)" "rc_wan_mac c \<noteq> MacAddr 0 0 0 0 0 0"
    "Spawned (WatchdogTask expected) \<in> set (start_system_services W (rc_watchdog c))" "start + from_secs 30 < tk_now tk"
  shows "wd_device (start_watchdog_monitor expected (tks @ [tk]) (watchdog_start expected start dev))
    = wd_device (start_watchdog_monitor expected tks (watchdog_start expected start dev))"
proof -
  from router_run_silent[OF assms(1-4)] have t: "sorted (start # map tk_now (tks @ [tk]))"
    "\<forall>x \<in> set (tks @ [tk]). \<not> tk_shutdown x \<and> MsDhcpClient \<notin> set (tk_queue x)" by (auto simp: sorted_append)
  have "expected = all_services"
    using assms(5) by (auto simp: start_system_services_def init_and_spawn_watchdog_def split: if_splits option.splits)
  then have "MsDhcpClient \<in> set expected" by (simp add: all_services_def)
  with t assms(6) show ?thesis by (intro starved[where t = start and s = MsDhcpClient]) auto
qed

theorem missing_wan_starves_watchdog_witness:
  "\<forall>E d. \<exists>tks tk. tk_now tk = from_secs 31 \<and> MsInterfaceMonitor \<in> set (tk_queue tk)
     \<and> Spawned (WatchdogTask all_services) \<in> set (start_system_services (demo_world E d) True)
     \<and> wd_device (start_watchdog_monitor all_services (tks @ [tk]) (watchdog_start all_services 0 (watchdog_open (True, 15))))
       = wd_device (start_watchdog_monitor all_services tks (watchdog_start all_services 0 (watchdog_open (True, 15))))"
proof (intro allI)
  fix E d
  let ?K = "plain_links\<lparr> lk_links := \<lambda>_. [] \<rparr>"
  let ?r = "router_run ?K (\<lambda>_. True) (build_managed_interfaces demo_router_config) ([], [], None) 0"
  obtain mo0 where s: "iface_monitor_start ?K (\<lambda>_. True) (build_managed_interfaces demo_router_config) ([], [], None) = Some mo0"
    by (simp add: iface_monitor_start_def build_managed_interfaces_def find_interface_by_mac_def managed_interface_new_def
        List.map_filter_def plain_links_def plain_netlink_def)
  have "?r [] mo0 [MsInterfaceMonitor] 0 []"
    using rr_beat[OF rr_start[OF s], of MsInterfaceMonitor 0] by (simp add: send_service_heartbeat_def HEARTBEAT_CHANNEL_CAPACITY_def)
  from rr_tick[OF this, of "from_secs 31" True] obtain tk where
    r: "?r [] mo0 [] (from_secs 31) ([] @ [tk])" "tk_now tk = from_secs 31" "tk_queue tk = [MsInterfaceMonitor]" by simp
  have w: "Spawned (WatchdogTask all_services) \<in> set (start_system_services (demo_world E d) (rc_watchdog demo_router_config))"
    "rc_watchdog demo_router_config = True"
    by (simp_all add: start_system_services_def init_and_spawn_watchdog_def demo_world_def demo_router_config_def)
  have "wd_device (start_watchdog_monitor all_services ([] @ [tk]) (watchdog_start all_services 0 (watchdog_open (True, 15))))
       = wd_device (start_watchdog_monitor all_services [] (watchdog_start all_services 0 (watchdog_open (True, 15))))"
    by (rule missing_wan_starves_watchdog[OF r(1) _ _ _ w(1)])
      (simp_all add: never_listed_def never_announced_def demo_router_config_def r(2) from_secs_def)
  with r(2,3) w show "\<exists>tks tk. tk_now tk = from_secs 31 \<and> MsInterfaceMonitor \<in> set (tk_queue tk)
     \<and> Spawned (WatchdogTask all_services) \<in> set (start_system_services (demo_world E d) True)
     \<and> wd_device (start_watchdog_monitor all_services (tks @ [tk]) (watchdog_start all_services 0 (watchdog_open (True, 15))))
       = wd_device (start_watchdog_monitor all_services tks (watchdog_start all_services 0 (watchdog_open (True, 15))))"
    by (intro exI[of _ "[] :: tick list"] exI[of _ tk]) simp
qed

end
