(* ===== verification/Worker_Launch.thy ===== *)
theory Worker_Launch
  imports Rust_Text
begin

text \<open>
  How a worker process is started and finds its way: the arguments and file descriptors the parent
  passes (\<open>cli.rs\<close>, \<open>spawn_process\<close> of \<open>services/supervisor.rs\<close>), and the dispatch of the new process
  (\<open>modes/mod.rs\<close>, \<open>modes/worker.rs\<close>). Arguments are parsed by the crate \<open>clap\<close> according to the declarations
  in \<open>cli.rs\<close>: what it does with positional arguments is a parameter with its law. Descriptors are
  numbers.
\<close>

section \<open>The declarations\<close>

datatype worker_service =
    SntpClient int int
  | DhcpClient int string
  | DhcpServer int string string
  | DnsForwarder int int int int

text \<open>The fields of each variant in order: a descriptor, read by \<open>parse_cli_fd\<close>, or a text.\<close>

datatype cli_field = FdField | TextField
datatype cli_value = FdValue int | TextValue string

definition worker_fields :: "string \<Rightarrow> cli_field list option" where
  "worker_fields name =
     (if name = ''sntp-client'' then Some [FdField, FdField]
      else if name = ''dhcp-client'' then Some [FdField, TextField]
      else if name = ''dhcp-server'' then Some [FdField, TextField, TextField]
      else if name = ''dns-forwarder'' then Some [FdField, FdField, FdField, FdField]
      else None)"

text \<open>\<open>parse::<i32>()\<close>: an optional sign, at least one digit, and no overflow.\<close>

definition parse_i32 :: "string \<Rightarrow> int option" where
  "parse_i32 s =
     (case s of
        [] \<Rightarrow> None
      | c # t \<Rightarrow>
          if c = CHR ''-'' then
            (if t = [] \<or> \<not> list_all is_ascii_digit t \<or> 2 ^ 31 < parse_decimal t then None else Some (- int (parse_decimal t)))
          else map_option int (parse_unsigned (2 ^ 31 - 1) s))"

definition parse_cli_fd :: "string \<Rightarrow> int option" where
  "parse_cli_fd s = parse_i32 s"

fun show_fd :: "int \<Rightarrow> string" where
  "show_fd fd = (if fd < 0 then CHR ''-'' # show_nat (nat (- fd)) else show_nat (nat fd))"

fun to_args :: "worker_service \<Rightarrow> string list" where
  "to_args (SntpClient ipc_fd ntp_socket_fd) = [show_fd ipc_fd, show_fd ntp_socket_fd]"
| "to_args (DhcpClient ipc_fd wan_interface) = [show_fd ipc_fd, wan_interface]"
| "to_args (DhcpServer ipc_fd wan_interface lan_ip) = [show_fd ipc_fd, wan_interface, lan_ip]"
| "to_args (DnsForwarder ipc_fd dns_socket_fd upstream_socket_fd dns_tcp_listener_fd) =
     [show_fd ipc_fd, show_fd dns_socket_fd, show_fd upstream_socket_fd, show_fd dns_tcp_listener_fd]"

fun child_fds :: "worker_service \<Rightarrow> int list" where
  "child_fds (SntpClient ipc_fd ntp_socket_fd) = [ipc_fd, ntp_socket_fd]"
| "child_fds (DhcpClient ipc_fd wan_interface) = [ipc_fd]"
| "child_fds (DhcpServer ipc_fd wan_interface lan_ip) = [ipc_fd]"
| "child_fds (DnsForwarder ipc_fd dns_socket_fd upstream_socket_fd dns_tcp_listener_fd) =
     [ipc_fd, dns_socket_fd, upstream_socket_fd, dns_tcp_listener_fd]"

section \<open>Starting the process\<close>

text \<open>The name under which a parent starts its worker.\<close>

fun worker_name :: "worker_service \<Rightarrow> string" where
  "worker_name (SntpClient _ _) = ''sntp-client''"
| "worker_name (DhcpClient _ _) = ''dhcp-client''"
| "worker_name (DhcpServer _ _ _) = ''dhcp-server''"
| "worker_name (DnsForwarder _ _ _ _) = ''dns-forwarder''"

record spawn_call =
  sp_binary :: string
  sp_argv :: "string list"
  sp_cleared :: "int list"

definition spawn_process :: "bool \<Rightarrow> string \<Rightarrow> string list \<Rightarrow> int list \<Rightarrow> spawn_call" where
  "spawn_process router_binary_exists name args fds =
     \<lparr> sp_binary = (if router_binary_exists then ''/bin/trimrouter'' else ''/proc/self/exe''),
       sp_argv = [''trimrouter'', ''worker'', name] @ args,
       sp_cleared = fds \<rparr>"

text \<open>A descriptor is open in the new process unless it is closed on execution and its flag was not cleared.\<close>

definition open_in_child :: "(int \<Rightarrow> bool) \<Rightarrow> spawn_call \<Rightarrow> int \<Rightarrow> bool" where
  "open_in_child cloexec sp fd \<longleftrightarrow> \<not> cloexec fd \<or> fd \<in> set (sp_cleared sp)"

section \<open>The new process\<close>

text \<open>What \<open>clap\<close> makes of positional arguments, and of the arguments of \<open>modprobe\<close>.\<close>

record clap_lib =
  cl_positionals :: "cli_field list \<Rightarrow> string list \<Rightarrow> cli_value list option"
  cl_modprobe :: "string list \<Rightarrow> string option"

fun field_value :: "cli_field \<Rightarrow> string \<Rightarrow> cli_value option" where
  "field_value FdField a = map_option FdValue (parse_cli_fd a)"
| "field_value TextField a = Some (TextValue a)"

fun field_values :: "cli_field list \<Rightarrow> string list \<Rightarrow> cli_value list option" where
  "field_values [] [] = Some []"
| "field_values (f # fs) (a # as) =
     (case field_value f a of
        None \<Rightarrow> None
      | Some v \<Rightarrow> map_option (\<lambda>vs. v # vs) (field_values fs as))"
| "field_values _ _ = None"

definition positional :: "string \<Rightarrow> bool" where
  "positional a \<longleftrightarrow> a \<noteq> [] \<and> hd a \<noteq> CHR ''-''"

text \<open>Arguments that do not look like options go to the fields in order, through their parsers.\<close>

definition clap_laws :: "clap_lib \<Rightarrow> bool" where
  "clap_laws C \<longleftrightarrow> (\<forall>fs args. list_all positional args \<longrightarrow> cl_positionals C fs args = field_values fs args)"

datatype command =
    InitCommand
  | ModprobeCommand string
  | WorkerCommand worker_service

definition worker_of_values :: "string \<Rightarrow> cli_value list \<Rightarrow> worker_service option" where
  "worker_of_values name vs =
     (case vs of
        [FdValue a, FdValue b] \<Rightarrow> if name = ''sntp-client'' then Some (SntpClient a b) else None
      | [FdValue a, TextValue w] \<Rightarrow> if name = ''dhcp-client'' then Some (DhcpClient a w) else None
      | [FdValue a, TextValue w, TextValue l] \<Rightarrow> if name = ''dhcp-server'' then Some (DhcpServer a w l) else None
      | [FdValue a, FdValue b, FdValue c, FdValue d] \<Rightarrow> if name = ''dns-forwarder'' then Some (DnsForwarder a b c d) else None
      | _ \<Rightarrow> None)"

definition parse_worker :: "clap_lib \<Rightarrow> string list \<Rightarrow> worker_service option" where
  "parse_worker C args =
     (case args of
        [] \<Rightarrow> None
      | name # rest \<Rightarrow>
          Option.bind (worker_fields name) (\<lambda>fs. Option.bind (cl_positionals C fs rest) (worker_of_values name)))"

text \<open>
  The multicall command: the first of \<open>args\<close> selects it. \<open>None\<close> is a parse error. Without a
  subcommand \<open>trimrouter\<close> is \<open>init\<close>.
\<close>

definition parse_multicall :: "clap_lib \<Rightarrow> string list \<Rightarrow> command option" where
  "parse_multicall C args =
     (case args of
        [] \<Rightarrow> Some InitCommand
      | name # args \<Rightarrow>
          if name = ''init'' then Some InitCommand
          else if name = ''modprobe'' then map_option ModprobeCommand (cl_modprobe C args)
          else if name = ''worker'' then map_option WorkerCommand (parse_worker C args)
          else if name = ''trimrouter'' \<or> name = ''exe'' then
            (case args of
               [] \<Rightarrow> Some InitCommand
             | sub # rest \<Rightarrow>
                 if sub = ''worker'' then map_option WorkerCommand (parse_worker C rest)
                 else if sub = ''modprobe'' then map_option ModprobeCommand (cl_modprobe C rest)
                 else None)
          else None)"

text \<open>The name is the file name of the program without its extension; a program path without a file name is skipped.\<close>

definition file_stem :: "string \<Rightarrow> string option" where
  "file_stem path =
     map_option (\<lambda>f. case name_extension f of Some e \<Rightarrow> take (length f - length e - 1) f | None \<Rightarrow> f) (path_file_name path)"

definition try_parse_from :: "clap_lib \<Rightarrow> string list \<Rightarrow> command option" where
  "try_parse_from C argv =
     (case argv of
        [] \<Rightarrow> parse_multicall C []
      | prog # args \<Rightarrow>
          parse_multicall C (case file_stem prog of Some name \<Rightarrow> name # args | None \<Rightarrow> args))"

datatype process_run =
    RunAsInit
  | RunAsModprobe string
  | RunSntpClient int int
  | RunDhcpClient int string
  | RunDhcpServer int string string
  | RunDnsForwarder int int int int
  | ExitProcess nat

fun dispatch_worker :: "worker_service \<Rightarrow> process_run" where
  "dispatch_worker (SntpClient ipc_fd ntp_socket_fd) = RunSntpClient ipc_fd ntp_socket_fd"
| "dispatch_worker (DhcpClient ipc_fd wan_interface) = RunDhcpClient ipc_fd wan_interface"
| "dispatch_worker (DhcpServer ipc_fd wan_interface lan_ip) = RunDhcpServer ipc_fd wan_interface lan_ip"
| "dispatch_worker (DnsForwarder ipc_fd dns_socket_fd upstream_socket_fd dns_tcp_listener_fd) =
     RunDnsForwarder ipc_fd dns_socket_fd upstream_socket_fd dns_tcp_listener_fd"

text \<open>A worker process ends with status 0 or 1; a result of \<open>False\<close> is an error of the worker.\<close>

definition run_worker :: "(process_run \<Rightarrow> bool) \<Rightarrow> worker_service \<Rightarrow> process_run list" where
  "run_worker ok s = [dispatch_worker s, ExitProcess (if ok (dispatch_worker s) then 0 else 1)]"

definition modes_run :: "clap_lib \<Rightarrow> (process_run \<Rightarrow> bool) \<Rightarrow> string list \<Rightarrow> process_run list" where
  "modes_run C ok args =
     (case try_parse_from C args of
        None \<Rightarrow> [ExitProcess 1]
      | Some InitCommand \<Rightarrow> [RunAsInit]
      | Some (WorkerCommand service) \<Rightarrow> run_worker ok service
      | Some (ModprobeCommand name) \<Rightarrow> [RunAsModprobe name, ExitProcess (if ok (RunAsModprobe name) then 0 else 1)])"

section \<open>The worker gets what the parent passed\<close>

lemma parse_show_fd:
  assumes "0 \<le> fd" "fd < 2 ^ 31"
  shows "parse_cli_fd (show_fd fd) = Some fd" "positional (show_fd fd)"
proof -
  obtain c t where ct: "show_nat (nat fd) = c # t" by (cases "show_nat (nat fd)") auto
  have "is_ascii_digit c" using show_nat_digits[of "nat fd"] ct by simp
  then have c: "c \<noteq> CHR ''-''" by (auto simp: is_ascii_digit_def ascii_code_def)
  have "parse_unsigned (2 ^ 31 - 1) (show_nat (nat fd)) = Some (nat fd)"
    using assms by (intro parse_unsigned_show) simp
  with ct c assms(1) show "parse_cli_fd (show_fd fd) = Some fd" by (simp add: parse_cli_fd_def parse_i32_def)
  show "positional (show_fd fd)" using ct c assms(1) by (simp add: positional_def)
qed

definition valid_fd :: "int \<Rightarrow> bool" where
  "valid_fd fd \<longleftrightarrow> 0 \<le> fd \<and> fd < 2 ^ 31"

fun launchable :: "worker_service \<Rightarrow> bool" where
  "launchable (SntpClient a b) \<longleftrightarrow> valid_fd a \<and> valid_fd b"
| "launchable (DhcpClient a w) \<longleftrightarrow> valid_fd a \<and> positional w"
| "launchable (DhcpServer a w l) \<longleftrightarrow> valid_fd a \<and> positional w \<and> positional l"
| "launchable (DnsForwarder a b c d) \<longleftrightarrow> valid_fd a \<and> valid_fd b \<and> valid_fd c \<and> valid_fd d"

lemma launch_parses:
  assumes "clap_laws C" "launchable s"
  shows "parse_worker C (worker_name s # to_args s) = Some s"
proof (cases s)
  case (SntpClient a b)
  with assms parse_show_fd show ?thesis
    by (simp add: clap_laws_def valid_fd_def parse_worker_def worker_fields_def worker_of_values_def del: show_fd.simps)
next
  case (DhcpClient a w)
  with assms parse_show_fd show ?thesis
    by (simp add: clap_laws_def valid_fd_def parse_worker_def worker_fields_def worker_of_values_def del: show_fd.simps)
next
  case (DhcpServer a w l)
  with assms parse_show_fd show ?thesis
    by (simp add: clap_laws_def valid_fd_def parse_worker_def worker_fields_def worker_of_values_def del: show_fd.simps)
next
  case (DnsForwarder a b c d)
  with assms parse_show_fd show ?thesis
    by (simp add: clap_laws_def valid_fd_def parse_worker_def worker_fields_def worker_of_values_def del: show_fd.simps)
qed

text \<open>
  C19. A worker gets exactly what its parent prepared. The process started for a worker service
  with valid descriptors and texts that do not look like options runs the function of that
  worker, with the descriptors and texts of the parent in their places, and then ends, with status
  0 if the worker succeeded and 1 otherwise; of the descriptors that are closed on execution exactly
  those of the service are open in it.
\<close>

theorem worker_launch_roundtrip:
  assumes "clap_laws C" "launchable s"
  shows "let sp = spawn_process exists (worker_name s) (to_args s) (child_fds s);
       (run, fds) = (case s of
            SntpClient ipc ntp \<Rightarrow> (RunSntpClient ipc ntp, {ipc, ntp})
          | DhcpClient ipc wan \<Rightarrow> (RunDhcpClient ipc wan, {ipc})
          | DhcpServer ipc wan lan_ip \<Rightarrow> (RunDhcpServer ipc wan lan_ip, {ipc})
          | DnsForwarder ipc udp upstream tcp \<Rightarrow> (RunDnsForwarder ipc udp upstream tcp, {ipc, udp, upstream, tcp}))
    in modes_run C ok (sp_argv sp) = [run, ExitProcess (if ok run then 0 else 1)]
      \<and> (\<forall>cloexec fd. cloexec fd \<longrightarrow> open_in_child cloexec sp fd = (fd \<in> fds))"
proof -
  have "file_stem ''trimrouter'' = Some ''trimrouter''" by code_simp
  then have "modes_run C ok (sp_argv (spawn_process exists (worker_name s) (to_args s) (child_fds s)))
      = [dispatch_worker s, ExitProcess (if ok (dispatch_worker s) then 0 else 1)]"
    using launch_parses[OF assms] by (simp add: spawn_process_def modes_run_def try_parse_from_def parse_multicall_def run_worker_def)
  then show ?thesis by (cases s) (auto simp: spawn_process_def open_in_child_def Let_def)
qed

definition plain_clap :: clap_lib where
  "plain_clap = \<lparr> cl_positionals = field_values, cl_modprobe = (\<lambda>args. case args of [] \<Rightarrow> None | a # _ \<Rightarrow> Some a) \<rparr>"

theorem worker_launch_roundtrip_witness:
  "modes_run plain_clap (\<lambda>_. True) [''trimrouter'', ''worker'', ''dns-forwarder'', ''5'', ''6'', ''7'', ''12'']
     = [RunDnsForwarder 5 6 7 12, ExitProcess 0]"
proof -
  have "clap_laws plain_clap" by (simp add: clap_laws_def plain_clap_def)
  moreover have "launchable (DnsForwarder 5 6 7 12)" by (simp add: valid_fd_def)
  moreover have "to_args (DnsForwarder 5 6 7 12) = [''5'', ''6'', ''7'', ''12'']"
    by (simp add: show_nat_small digit_char_def char_of_def bit_iff_odd)
  ultimately show ?thesis
    using worker_launch_roundtrip[of plain_clap "DnsForwarder 5 6 7 12" True "\<lambda>_. True"] by (simp add: Let_def spawn_process_def)
qed

end
