(* ===== verification/Observability.thy ===== *)
theory Observability
  imports Logging Utils Service_Controller "HOL-Library.Char_ord" "HOL-Library.List_Lexorder" "HOL-Library.Product_Lexorder"
begin

text \<open>
  The status page: the status report (\<open>services/observability/status.rs\<close>), the request handling
  (\<open>server.rs\<close>) and the listening socket (\<open>mod.rs\<close>). Files are read through the argument \<open>read\<close> (\<open>None\<close>
  when a file cannot be read), the file system answers \<open>statvfs\<close>; routing and the encoding of answers
  are those of the crate \<open>axum\<close>. The uptime and the load average, which the code reads as
  floating-point numbers, the version, and the text of the page are not modelled.
\<close>

section \<open>Numbers and files\<close>

definition sat_add64 :: "nat \<Rightarrow> nat \<Rightarrow> nat" where
  "sat_add64 a b = min (a + b) (2 ^ 64 - 1)"

definition sat_mul64 :: "nat \<Rightarrow> nat \<Rightarrow> nat" where
  "sat_mul64 a b = min (a * b) (2 ^ 64 - 1)"

definition parse_u64 :: "string \<Rightarrow> nat option" where
  "parse_u64 s = parse_unsigned (2 ^ 64 - 1) s"

definition read_sysfs_u64 :: "(string \<Rightarrow> string option) \<Rightarrow> string \<Rightarrow> nat" where
  "read_sysfs_u64 read path =
     (case Option.bind (read path) (\<lambda>s. parse_u64 (utf8_trim s)) of Some n \<Rightarrow> n | None \<Rightarrow> 0)"

definition read_interface_mac :: "(string \<Rightarrow> string option) \<Rightarrow> string \<Rightarrow> string" where
  "read_interface_mac read iface_name =
     (case read (''/sys/class/net/'' @ iface_name @ ''/address'') of
        Some s \<Rightarrow> utf8_trim s | None \<Rightarrow> ''00:00:00:00:00:00'')"

record traffic =
  tr_rx_bytes :: nat
  tr_tx_bytes :: nat
  tr_rx_packets :: nat
  tr_tx_packets :: nat

definition read_interface_traffic :: "(string \<Rightarrow> string option) \<Rightarrow> string \<Rightarrow> traffic" where
  "read_interface_traffic read iface_name =
     (let dir = path_join (path_join ''/sys/class/net'' iface_name) ''statistics'' in
      \<lparr> tr_rx_bytes = read_sysfs_u64 read (path_join dir ''rx_bytes''),
        tr_tx_bytes = read_sysfs_u64 read (path_join dir ''tx_bytes''),
        tr_rx_packets = read_sysfs_u64 read (path_join dir ''rx_packets''),
        tr_tx_packets = read_sysfs_u64 read (path_join dir ''tx_packets'') \<rparr>)"

section \<open>Memory and storage\<close>

record usage =
  us_total :: nat
  us_used :: nat
  us_free :: nat

record meminfo =
  mi_total_kb :: nat
  mi_avail_kb :: "nat option"
  mi_free_kb :: nat
  mi_buffers_kb :: nat
  mi_cached_kb :: nat

definition meminfo_line :: "meminfo \<Rightarrow> string \<Rightarrow> meminfo" where
  "meminfo_line m line =
     (case split_once (CHR '':'') line of
        None \<Rightarrow> m
      | Some (key, val) \<Rightarrow>
          let kb = (case Option.bind (case split_whitespace val of [] \<Rightarrow> None | w # _ \<Rightarrow> Some w) parse_u64 of Some n \<Rightarrow> n | None \<Rightarrow> 0);
              k = utf8_trim key
          in if k = ''MemTotal'' then m\<lparr> mi_total_kb := kb \<rparr>
             else if k = ''MemAvailable'' then m\<lparr> mi_avail_kb := Some kb \<rparr>
             else if k = ''MemFree'' then m\<lparr> mi_free_kb := kb \<rparr>
             else if k = ''Buffers'' then m\<lparr> mi_buffers_kb := kb \<rparr>
             else if k = ''Cached'' then m\<lparr> mi_cached_kb := kb \<rparr>
             else m)"

definition parse_meminfo_str :: "string \<Rightarrow> usage" where
  "parse_meminfo_str content =
     (let m = foldl meminfo_line
                \<lparr> mi_total_kb = 0, mi_avail_kb = None, mi_free_kb = 0, mi_buffers_kb = 0, mi_cached_kb = 0 \<rparr> (text_lines content);
          avail = (case mi_avail_kb m of
                     Some a \<Rightarrow> a
                   | None \<Rightarrow> sat_add64 (sat_add64 (mi_free_kb m) (mi_buffers_kb m)) (mi_cached_kb m));
          total_bytes = sat_mul64 (mi_total_kb m) 1024;
          free_bytes = sat_mul64 avail 1024
      in \<lparr> us_total = total_bytes, us_used = total_bytes - free_bytes, us_free = free_bytes \<rparr>)"

record statvfs =
  sf_frsize :: nat
  sf_blocks :: nat
  sf_bavail :: nat

definition read_storage_stats :: "(string \<Rightarrow> statvfs option) \<Rightarrow> string \<Rightarrow> usage" where
  "read_storage_stats statvfs path =
     (if CHR 0x00 \<in> set path then \<lparr> us_total = 0, us_used = 0, us_free = 0 \<rparr>
      else case statvfs path of
        None \<Rightarrow> \<lparr> us_total = 0, us_used = 0, us_free = 0 \<rparr>
      | Some st \<Rightarrow>
          let total_bytes = sat_mul64 (sf_blocks st) (sf_frsize st);
              free_bytes = sat_mul64 (sf_bavail st) (sf_frsize st)
          in \<lparr> us_total = total_bytes, us_used = total_bytes - free_bytes, us_free = free_bytes \<rparr>)"

section \<open>The report\<close>

record wan_status =
  ws_interface :: string
  ws_mac :: string
  ws_ip :: "string option"
  ws_prefix_len :: "u8 option"
  ws_gateway :: "string option"
  ws_dns_servers :: "string list"
  ws_traffic :: traffic

definition collect_wan_status :: "(string \<Rightarrow> string option) \<Rightarrow> wan_lease \<Rightarrow> string \<Rightarrow> wan_status" where
  "collect_wan_status read lease wan_iface =
     \<lparr> ws_interface = wan_iface, ws_mac = read_interface_mac read wan_iface, ws_ip = map_option show_ip (wl_ip lease),
       ws_prefix_len = Option.bind (wl_mask lease) (\<lambda>m. case mask_to_prefix_len m of Inr p \<Rightarrow> Some p | Inl _ \<Rightarrow> None),
       ws_gateway = map_option show_ip (wl_gateway lease), ws_dns_servers = map show_ip (wl_dns_servers lease),
       ws_traffic = read_interface_traffic read wan_iface \<rparr>"

record lan_status =
  la_interface :: string
  la_mac :: string
  la_ip :: string
  la_prefix_len :: u8
  la_mode :: string
  la_traffic :: traffic

text \<open>The fallback address is a literal that parses; \<open>None\<close> is the panic of its \<open>unwrap\<close>.\<close>

definition collect_lan_status ::
  "'n net_lib \<Rightarrow> (string \<Rightarrow> string option) \<Rightarrow> string \<Rightarrow> string \<Rightarrow> lan_status option" where
  "collect_lan_status L read lan_iface current_lan_ip_str =
     (case (case net_parse L current_lan_ip_str of Some n \<Rightarrow> Some n | None \<Rightarrow> net_parse L ''192.168.1.1/24'') of
        None \<Rightarrow> None
      | Some lan_net \<Rightarrow>
          Some \<lparr> la_interface = lan_iface, la_mac = read_interface_mac read lan_iface, la_ip = show_ip (net_addr L lan_net),
                 la_prefix_len = net_prefix_len L lan_net,
                 la_mode = (if take 10 current_lan_ip_str = ''192.168.1.'' then ''primary'' else ''backup''),
                 la_traffic = read_interface_traffic read lan_iface \<rparr>)"

record arp_entry =
  ae_ip :: string
  ae_mac :: string
  ae_interface :: string
  ae_flags :: string

definition arp_line :: "string \<Rightarrow> arp_entry option" where
  "arp_line line =
     (let cols = split_whitespace line in
      if 6 \<le> length cols
      then Some \<lparr> ae_ip = cols ! 0, ae_mac = cols ! 3, ae_interface = cols ! 5, ae_flags = cols ! 2 \<rparr> else None)"

definition parse_arp_cache_str :: "string \<Rightarrow> arp_entry list" where
  "parse_arp_cache_str content =
     sort_key (\<lambda>e. (ae_interface e, ae_ip e)) (List.map_filter arp_line (drop 1 (text_lines content)))"

definition collect_arp_cache :: "(string \<Rightarrow> string option) \<Rightarrow> string \<Rightarrow> arp_entry list" where
  "collect_arp_cache read arp_path = (case read arp_path of Some c \<Rightarrow> parse_arp_cache_str c | None \<Rightarrow> [])"

record network_status =
  ns_wan :: wan_status
  ns_lan :: lan_status
  ns_arp_cache :: "arp_entry list"

definition collect_network_status ::
  "'n net_lib \<Rightarrow> (string \<Rightarrow> string option) \<Rightarrow> wan_lease \<Rightarrow> string \<Rightarrow> string \<Rightarrow> string \<Rightarrow> network_status option" where
  "collect_network_status L read lease wan_iface lan_iface lan_ip =
     map_option (\<lambda>lan. \<lparr> ns_wan = collect_wan_status read lease wan_iface, ns_lan = lan,
                        ns_arp_cache = collect_arp_cache read ''/proc/net/arp'' \<rparr>)
       (collect_lan_status L read lan_iface lan_ip)"

record dhcp_lease_entry =
  le_mac_text :: string
  le_ip_text :: string
  le_hostname :: "string option"
  le_expires_in :: nat
  le_static :: bool

record dhcp_server_status =
  dss_active_leases_count :: nat
  dss_leases :: "dhcp_lease_entry list"

definition collect_dhcp_status :: "(mac \<Rightarrow> string) \<Rightarrow> dhcp_lease_info list \<Rightarrow> dhcp_server_status" where
  "collect_dhcp_status show_mac leases_raw =
     (let leases = map (\<lambda>l. \<lparr> le_mac_text = show_mac (li_mac l), le_ip_text = show_ip (li_ip l), le_hostname = li_hostname l,
                              le_expires_in = li_expires_in_seconds l, le_static = li_is_static l \<rparr>) leases_raw
      in \<lparr> dss_active_leases_count = length leases, dss_leases = leases \<rparr>)"

section \<open>Which host names are served\<close>

definition eq_ignore_ascii_case :: "string \<Rightarrow> string \<Rightarrow> bool" where
  "eq_ignore_ascii_case a b \<longleftrightarrow> to_ascii_lowercase a = to_ascii_lowercase b"

fun find_char :: "char \<Rightarrow> string \<Rightarrow> nat option" where
  "find_char c [] = None"
| "find_char c (d # s) = (if d = c then Some 0 else map_option Suc (find_char c s))"

definition extract_host_name :: "string \<Rightarrow> string" where
  "extract_host_name host_header =
     (let trimmed = utf8_trim host_header in
      case (case trimmed of c # rest \<Rightarrow> if c = CHR ''['' then find_char (CHR '']'') rest else None | [] \<Rightarrow> None) of
        Some i \<Rightarrow> take (i + 2) trimmed
      | None \<Rightarrow>
          if 1 < length (filter (\<lambda>c. c = CHR '':'') trimmed) then trimmed
          else hd (split_char (CHR '':'') trimmed))"

definition is_allowed_host :: "string \<Rightarrow> string \<Rightarrow> bool" where
  "is_allowed_host host_header lan_ip =
     (let host = extract_host_name host_header in
      if host = [] then False
      else if eq_ignore_ascii_case host ''localhost'' \<or> host = ''127.0.0.1'' \<or> host = ''::1'' \<or> host = ''[::1]''
          \<or> eq_ignore_ascii_case host ''router.lan'' \<or> eq_ignore_ascii_case host ''router'' \<or> eq_ignore_ascii_case host ''router.local''
      then True
      else let ip_only = hd (split_char (CHR ''/'') lan_ip) in ip_only \<noteq> [] \<and> eq_ignore_ascii_case host ip_only)"

section \<open>Requests\<close>

definition DEFAULT_LOG_LINES_COUNT :: nat where "DEFAULT_LOG_LINES_COUNT = 100"
definition MAX_LOG_LINES_COUNT :: nat where "MAX_LOG_LINES_COUNT = 500"
definition MAX_CONCURRENT_SSE_STREAMS :: nat where "MAX_CONCURRENT_SSE_STREAMS = 4"
definition MAX_SSE_STREAMS_PER_IP :: nat where "MAX_SSE_STREAMS_PER_IP = 2"

record logs_response =
  total_lines_available :: nat
  log_lines :: "string list"

definition handle_logs :: "nat option \<Rightarrow> log_level option \<Rightarrow> string list \<Rightarrow> logs_response" where
  "handle_logs lines level ring =
     (let lines_count = min (case lines of Some n \<Rightarrow> n | None \<Rightarrow> DEFAULT_LOG_LINES_COUNT) MAX_LOG_LINES_COUNT
      in \<lparr> total_lines_available = length ring, log_lines = get_recent_logs lines_count level ring \<rparr>)"

definition log_filter_from_str :: "string \<Rightarrow> log_level option" where
  "log_filter_from_str s =
     (let l = to_ascii_lowercase s in
      if l = ''off'' then Some LevelOff
      else if l = ''error'' then Some LevelError
      else if l = ''warn'' \<or> l = ''warning'' then Some LevelWarn
      else if l = ''info'' then Some LevelInfo
      else if l = ''debug'' then Some LevelDebug
      else if l = ''trace'' then Some LevelTrace
      else None)"

datatype status_code = StatusOk | BadRequest | TooManyRequests

record http_response =
  hr_status :: status_code
  hr_headers :: "(string \<times> string) list"
  hr_body :: string

definition security_headers :: "(string \<times> string) list" where
  "security_headers =
     [(''x-frame-options'', ''DENY''), (''x-content-type-options'', ''nosniff''),
      (''content-security-policy'',
       ''default-src 'self'; script-src 'self' 'unsafe-inline'; style-src 'self' 'unsafe-inline'; connect-src 'self'; img-src 'self' data:; frame-ancestors 'none'; base-uri 'self';''),
      (''referrer-policy'', ''no-referrer'')]"

text \<open>\<open>headers.insert\<close> replaces the header of that name.\<close>

definition security_headers_middleware :: "http_response \<Rightarrow> http_response" where
  "security_headers_middleware r =
     r\<lparr> hr_headers := foldl (\<lambda>hs (n, v). AList.update n v hs) (hr_headers r) security_headers \<rparr>"

text \<open>\<open>HeaderValue::to_str\<close> of the bytes of a header: \<open>None\<close> unless all of them are visible ASCII characters, spaces or tabs.\<close>

definition header_to_str :: "string \<Rightarrow> string option" where
  "header_to_str h = (if list_all (\<lambda>c. 32 \<le> ascii_code c \<and> ascii_code c < 127 \<or> ascii_code c = 9) h then Some h else None)"

definition validate_host_middleware :: "string \<Rightarrow> string option \<Rightarrow> (unit \<Rightarrow> http_response) \<Rightarrow> http_response" where
  "validate_host_middleware lan_ip host_header handler =
     (if is_allowed_host (case Option.bind host_header header_to_str of Some h \<Rightarrow> h | None \<Rightarrow> []) lan_ip then handler ()
      else \<lparr> hr_status = BadRequest, hr_headers = [], hr_body = [] \<rparr>)"

text \<open>The layers of \<open>create_router\<close>: the last one added runs first.\<close>

definition create_router :: "string \<Rightarrow> string option \<Rightarrow> (unit \<Rightarrow> http_response) \<Rightarrow> http_response" where
  "create_router lan_ip host_header routes =
     security_headers_middleware (validate_host_middleware lan_ip host_header routes)"

section \<open>The listening socket\<close>

text \<open>The address bound, after an attempt with the LAN address; the answers are of the kernel.\<close>

definition resolve_bind_socket_addr :: "string \<Rightarrow> ip" where
  "resolve_bind_socket_addr lan_ip =
     (case parse_ip (hd (split_char (CHR ''/'') lan_ip)) of Some i \<Rightarrow> i | None \<Rightarrow> 0)"

definition configure_socket_binding :: "(ip \<Rightarrow> bool) \<Rightarrow> bool \<Rightarrow> string \<Rightarrow> service_error + ip" where
  "configure_socket_binding bind_ok listen_ok lan_ip =
     (let addr = resolve_bind_socket_addr lan_ip in
      if bind_ok addr then (if listen_ok then Inr addr else Inl ServiceIo)
      else if bind_ok 0 then (if listen_ok then Inr 0 else Inl ServiceIo)
      else Inl ServiceIo)"

definition create_bound_tcp_listener :: "bool \<Rightarrow> (ip \<Rightarrow> bool) \<Rightarrow> bool \<Rightarrow> string \<Rightarrow> service_error + ip" where
  "create_bound_tcp_listener socket_ok bind_ok listen_ok lan_ip =
     (if \<not> socket_ok then Inl ServiceIo else configure_socket_binding bind_ok listen_ok lan_ip)"

text \<open>Starting the service: the socket first, then the controller; a listener that is not needed is dropped.\<close>

definition observability_service_start ::
  "bool \<Rightarrow> (ip \<Rightarrow> bool) \<Rightarrow> bool \<Rightarrow> string \<Rightarrow> controller \<Rightarrow> (service_error + ip) \<times> controller" where
  "observability_service_start socket_ok bind_ok listen_ok lan_ip c =
     (case create_bound_tcp_listener socket_ok bind_ok listen_ok lan_ip of
        Inl e \<Rightarrow> (Inl e, c)
      | Inr addr \<Rightarrow> (case controller_start c of (Inl e, c') \<Rightarrow> (Inl e, c') | (Inr _, c') \<Rightarrow> (Inr addr, c')))"

end
