(* ===== verification/Sse_Limits.thy ===== *)
theory Sse_Limits
  imports Observability
begin

text \<open>
  The limits on log streams of the status page (\<open>reserve_ip_sse_slot\<close>, \<open>release_ip_sse_slot\<close>,
  \<open>handle_logs_stream\<close> and the permit dropped with a stream, \<open>server.rs\<close>). Requests are served by
  several threads, so every access to the shared counters is a step of its own and the steps of
  all requests interleave.
\<close>

section \<open>The counters\<close>

type_synonym tracker = "ip \<rightharpoonup> nat"

definition reserve_ip_sse_slot :: "tracker \<Rightarrow> ip \<Rightarrow> (status_code + unit) \<times> tracker" where
  "reserve_ip_sse_slot t client =
     (let count = (case t client of Some n \<Rightarrow> n | None \<Rightarrow> 0) in
      if MAX_SSE_STREAMS_PER_IP \<le> count then (Inl TooManyRequests, t(client \<mapsto> count))
      else (Inr (), t(client \<mapsto> count + 1)))"

definition release_ip_sse_slot :: "tracker \<Rightarrow> ip \<Rightarrow> tracker" where
  "release_ip_sse_slot t client =
     (case t client of
        None \<Rightarrow> t
      | Some n \<Rightarrow> if n - 1 = 0 then t(client := None) else t(client \<mapsto> n - 1))"

text \<open>
  Where a request is: it has reserved its slot; it got no permit and must give its slot back; it is
  streaming; its stream was dropped and gave the slot back, but still has the permit.
\<close>

datatype sse_task = Reserved ip | Refused ip | Streaming ip | Dropping ip

record sse_state =
  ss_tracker :: tracker
  ss_permits :: nat
  ss_tasks :: "sse_task list"

definition sse_init :: sse_state where
  "sse_init = \<lparr> ss_tracker = Map.empty, ss_permits = MAX_CONCURRENT_SSE_STREAMS, ss_tasks = [] \<rparr>"

datatype sse_event = Request ip | Advance nat

text \<open>One step, with the answer when the step gives one. A streaming task advances when its stream is dropped.\<close>

definition sse_advance :: "sse_task \<Rightarrow> sse_state \<Rightarrow> status_code option \<times> tracker \<times> nat \<times> sse_task list" where
  "sse_advance task s =
     (case task of
        Reserved i \<Rightarrow>
          if 0 < ss_permits s then (Some StatusOk, ss_tracker s, ss_permits s - 1, [Streaming i])
          else (None, ss_tracker s, ss_permits s, [Refused i])
      | Refused i \<Rightarrow> (Some TooManyRequests, release_ip_sse_slot (ss_tracker s) i, ss_permits s, [])
      | Streaming i \<Rightarrow> (None, release_ip_sse_slot (ss_tracker s) i, ss_permits s, [Dropping i])
      | Dropping i \<Rightarrow> (None, ss_tracker s, ss_permits s + 1, []))"

definition handle_logs_stream :: "sse_event \<Rightarrow> sse_state \<Rightarrow> status_code option \<times> sse_state" where
  "handle_logs_stream e s =
     (case e of
        Request i \<Rightarrow>
          (case reserve_ip_sse_slot (ss_tracker s) i of
             (Inl code, t) \<Rightarrow> (Some code, s\<lparr> ss_tracker := t \<rparr>)
           | (Inr _, t) \<Rightarrow> (None, s\<lparr> ss_tracker := t, ss_tasks := ss_tasks s @ [Reserved i] \<rparr>))
      | Advance k \<Rightarrow>
          if k < length (ss_tasks s) then
            (case sse_advance (ss_tasks s ! k) s of
               (answer, t, p, tasks) \<Rightarrow>
                 (answer, s\<lparr> ss_tracker := t, ss_permits := p, ss_tasks := take k (ss_tasks s) @ tasks @ drop (Suc k) (ss_tasks s) \<rparr>))
          else (None, s))"

fun sse_run :: "sse_event list \<Rightarrow> sse_state \<Rightarrow> sse_state" where
  "sse_run [] s = s"
| "sse_run (e # es) s = sse_run es (snd (handle_logs_stream e s))"

section \<open>The limits hold\<close>

fun holds_slot :: "ip \<Rightarrow> sse_task \<Rightarrow> bool" where
  "holds_slot c (Reserved i) = (i = c)"
| "holds_slot c (Refused i) = (i = c)"
| "holds_slot c (Streaming i) = (i = c)"
| "holds_slot c (Dropping i) = False"

fun holds_permit :: "sse_task \<Rightarrow> bool" where
  "holds_permit (Reserved i) = False"
| "holds_permit (Refused i) = False"
| "holds_permit (Streaming i) = True"
| "holds_permit (Dropping i) = True"

definition count_tasks :: "(sse_task \<Rightarrow> bool) \<Rightarrow> sse_task list \<Rightarrow> nat" where
  "count_tasks P ts = length (filter P ts)"

lemma count_tasks_simps [simp]:
  "count_tasks P [] = 0" "count_tasks P (t # ts) = (if P t then 1 else 0) + count_tasks P ts"
  "count_tasks P (ts @ us) = count_tasks P ts + count_tasks P us"
  by (simp_all add: count_tasks_def)

text \<open>The tracker counts the slots exactly, and the permits given out are held by tasks.\<close>

definition tracked :: "tracker \<Rightarrow> (ip \<Rightarrow> nat) \<Rightarrow> bool" where
  "tracked tr n \<longleftrightarrow> (\<forall>c. n c \<le> 2 \<and> tr c = (if n c = 0 then None else Some (n c)))"

definition sse_inv :: "sse_state \<Rightarrow> bool" where
  "sse_inv s \<longleftrightarrow> tracked (ss_tracker s) (\<lambda>c. count_tasks (holds_slot c) (ss_tasks s))
     \<and> ss_permits s + count_tasks holds_permit (ss_tasks s) = 4"

lemma split_at: "k < length ts \<Longrightarrow> ts = take k ts @ [ts ! k] @ drop (Suc k) ts"
  by (simp add: id_take_nth_drop)

lemma tracked_release:
  assumes "tracked tr n" "n i = Suc m"
  shows "tracked (release_ip_sse_slot tr i) (n(i := m))"
proof -
  have "tr i = Some (Suc m)" "m \<le> 2" using assms by (auto simp: tracked_def dest: spec[of _ i])
  with assms(1) show ?thesis by (auto simp: tracked_def release_ip_sse_slot_def)
qed

lemma tracked_reserve:
  assumes "tracked tr n"
  shows "reserve_ip_sse_slot tr i = (if n i = 2 then (Inl TooManyRequests, tr) else (Inr (), tr(i \<mapsto> Suc (n i))))"
    "n i \<noteq> 2 \<Longrightarrow> tracked (tr(i \<mapsto> Suc (n i))) (n(i := Suc (n i)))"
proof -
  have "n i \<le> 2" "tr i = (if n i = 0 then None else Some (n i))" using assms by (auto simp: tracked_def)
  then show "reserve_ip_sse_slot tr i = (if n i = 2 then (Inl TooManyRequests, tr) else (Inr (), tr(i \<mapsto> Suc (n i))))"
    by (auto simp: reserve_ip_sse_slot_def MAX_SSE_STREAMS_PER_IP_def Let_def fun_upd_idem)
  show "n i \<noteq> 2 \<Longrightarrow> tracked (tr(i \<mapsto> Suc (n i))) (n(i := Suc (n i)))"
    using le_neq_implies_less[OF \<open>n i \<le> 2\<close>] assms by (simp add: tracked_def less_Suc_eq_le numeral_2_eq_2)
qed

lemma slots_without:
  assumes "\<And>c. holds_slot c t \<longleftrightarrow> c = i" "\<And>c. count_tasks (holds_slot c) ts = 0"
  shows "(\<lambda>c. count_tasks (holds_slot c) (us @ ts @ vs)) =
    (\<lambda>c. count_tasks (holds_slot c) (us @ [t] @ vs))(i := count_tasks (holds_slot i) us + count_tasks (holds_slot i) vs)"
  using assms by (auto simp: fun_eq_iff)

lemma advance_inv:
  assumes "sse_inv s" "ss_tasks s = us @ [t] @ vs" "sse_advance t s = (answer, tr, p, ts)"
  shows "sse_inv (s\<lparr> ss_tracker := tr, ss_permits := p, ss_tasks := us @ ts @ vs \<rparr>)"
proof (cases t)
  case (Reserved i)
  with assms show ?thesis by (auto simp: sse_inv_def sse_advance_def split: if_splits)
next
  case (Refused i)
  have "tracked (release_ip_sse_slot (ss_tracker s) i) (\<lambda>c. count_tasks (holds_slot c) (us @ [] @ vs))"
    by (subst slots_without[of t i]) (use assms(1,2) Refused in \<open>auto simp: sse_inv_def intro!: tracked_release\<close>)
  with assms Refused show ?thesis by (auto simp: sse_inv_def sse_advance_def)
next
  case (Streaming i)
  have "tracked (release_ip_sse_slot (ss_tracker s) i) (\<lambda>c. count_tasks (holds_slot c) (us @ [Dropping i] @ vs))"
    by (subst slots_without[of t i]) (use assms(1,2) Streaming in \<open>auto simp: sse_inv_def intro!: tracked_release\<close>)
  with assms Streaming show ?thesis by (auto simp: sse_inv_def sse_advance_def)
next
  case (Dropping i)
  with assms show ?thesis by (auto simp: sse_inv_def sse_advance_def)
qed

lemma stream_step_inv:
  assumes "sse_inv s"
  shows "sse_inv (snd (handle_logs_stream e s))"
proof (cases e)
  case (Request i)
  let ?n = "\<lambda>c. count_tasks (holds_slot c) (ss_tasks s)"
  have t: "tracked (ss_tracker s) ?n" using assms by (simp add: sse_inv_def)
  have new: "(\<lambda>c. count_tasks (holds_slot c) (ss_tasks s @ [Reserved i])) = ?n(i := Suc (?n i))" by (auto simp: fun_eq_iff)
  show ?thesis
  proof (cases "?n i = 2")
    case True
    with assms tracked_reserve(1)[OF t, of i] Request show ?thesis by (simp add: handle_logs_stream_def sse_inv_def)
  next
    case False
    with assms tracked_reserve[OF t, of i] Request show ?thesis
      by (simp add: handle_logs_stream_def sse_inv_def new del: count_tasks_simps(3)) simp
  qed
next
  case (Advance k)
  show ?thesis
  proof (cases "k < length (ss_tasks s)")
    case True
    obtain answer tr p ts where "sse_advance (ss_tasks s ! k) s = (answer, tr, p, ts)" by (metis prod_cases4)
    with advance_inv[OF assms split_at[OF True]] True Advance show ?thesis by (simp add: handle_logs_stream_def)
  qed (use assms Advance in \<open>simp add: handle_logs_stream_def\<close>)
qed

lemma run_inv: "sse_inv s \<Longrightarrow> sse_inv (sse_run es s)"
  by (induction es arbitrary: s) (simp_all add: stream_step_inv)

lemma init_inv: "sse_inv sse_init"
  by (simp add: sse_inv_def sse_init_def MAX_CONCURRENT_SSE_STREAMS_def tracked_def)

lemma streams_permits: "count_tasks (\<lambda>t. \<exists>i. t = Streaming i) ts \<le> count_tasks holds_permit ts"
  by (induction ts) auto

lemma streams_slots: "count_tasks (\<lambda>t. t = Streaming c) ts \<le> count_tasks (holds_slot c) ts"
  by (induction ts) auto

text \<open>
  C18. The limits on log streams hold, and nothing leaks. However the steps of any number of
  requests interleave, at most four streams run, at most two of one client; a new request of a
  client is turned away at once exactly when the client has two requests in flight; and when all
  requests have ended, all slots and permits are free again.
\<close>

theorem sse_streams_bounded:
  "let s = sse_run es sse_init in
     length (filter (\<lambda>t. \<exists>i. t = Streaming i) (ss_tasks s)) \<le> 4
     \<and> (\<forall>c. length (filter (\<lambda>t. t = Streaming c) (ss_tasks s)) \<le> 2)
     \<and> (\<forall>c. fst (handle_logs_stream (Request c) s) =
           (if length (filter (holds_slot c) (ss_tasks s)) = 2 then Some TooManyRequests else None))
     \<and> (ss_tasks s = [] \<longrightarrow> s = sse_init)"
proof -
  define s where "s = sse_run es sse_init"
  have inv: "sse_inv s" unfolding s_def by (rule run_inv[OF init_inv])
  have "count_tasks (\<lambda>t. \<exists>i. t = Streaming i) (ss_tasks s) \<le> 4"
    using streams_permits[of "ss_tasks s"] inv by (simp add: sse_inv_def)
  moreover have "count_tasks (\<lambda>t. t = Streaming c) (ss_tasks s) \<le> 2" for c
    using streams_slots[of c "ss_tasks s"] inv by (auto simp: sse_inv_def tracked_def intro: le_trans)
  moreover have "fst (handle_logs_stream (Request c) s) = (if count_tasks (holds_slot c) (ss_tasks s) = 2 then Some TooManyRequests else None)" for c
    using tracked_reserve(1)[of "ss_tracker s" "\<lambda>c. count_tasks (holds_slot c) (ss_tasks s)" c] inv
    by (simp add: sse_inv_def handle_logs_stream_def)
  moreover have "s = sse_init" if "ss_tasks s = []"
    using inv that by (cases s) (auto simp: sse_inv_def tracked_def sse_init_def MAX_CONCURRENT_SSE_STREAMS_def)
  ultimately show ?thesis by (simp add: s_def count_tasks_def Let_def)
qed

text \<open>Four streams of two clients take all permits; a third client is turned away after its reservation.\<close>

theorem sse_streams_bounded_witness:
  "let s = sse_run ([Request 1, Request 1, Request 2, Request 2, Request 3] @ map Advance [0, 1, 2, 3, 4, 4]) sse_init in
     map ss_tracker [s] = [[1 \<mapsto> 2, 2 \<mapsto> 2]] \<and> length (filter (\<lambda>t. \<exists>i. t = Streaming i) (ss_tasks s)) \<le> 4"
  using sse_streams_bounded[of "[Request 1, Request 1, Request 2, Request 2, Request 3] @ map Advance [0, 1, 2, 3, 4, 4]"]
  by (simp add: Let_def handle_logs_stream_def reserve_ip_sse_slot_def release_ip_sse_slot_def sse_advance_def sse_init_def
      MAX_SSE_STREAMS_PER_IP_def MAX_CONCURRENT_SSE_STREAMS_def fun_eq_iff)

end
