(* ===== verification/Observability_Props.thy ===== *)
theory Observability_Props
  imports Sse_Limits
begin

text \<open>
  What the status page guarantees: which requests are served, and that every answer carries the
  headers that keep it out of foreign pages.
\<close>

section \<open>White space in a header\<close>

definition blank :: "char \<Rightarrow> bool" where
  "blank c \<longleftrightarrow> c = CHR '' '' \<or> c = CHR 0x09"

definition visible :: "char \<Rightarrow> bool" where
  "visible c \<longleftrightarrow> 32 < ascii_code c \<and> ascii_code c < 127"

definition blanks_removed :: "string \<Rightarrow> string" where
  "blanks_removed h = rev (dropWhile blank (rev (dropWhile blank h)))"

lemma header_chars: "header_to_str h = (if list_all (\<lambda>c. visible c \<or> blank c) h then Some h else None)"
proof -
  have "(32 \<le> ascii_code c \<and> ascii_code c < 127 \<or> ascii_code c = 9) \<longleftrightarrow> visible c \<or> blank c" for c
  proof -
    have "c = char_of (ascii_code c)" by (simp add: ascii_code_def)
    then have "ascii_code c = 32 \<longleftrightarrow> c = CHR '' ''" "ascii_code c = 9 \<longleftrightarrow> c = CHR 0x09"
      by (auto simp: ascii_code_def char_of_def bit_iff_odd)
    then show ?thesis unfolding visible_def blank_def by auto
  qed
  then show ?thesis by (simp add: header_to_str_def)
qed

lemma header_spaces:
  assumes "visible c \<or> blank c"
  shows "is_whitespace c \<longleftrightarrow> blank c" "\<not> pair_space c d" "\<not> wide_space c d e" "\<not> pair_space d c" "\<not> wide_space d e c"
  using assms
  by (auto simp: visible_def blank_def is_whitespace_def pair_space_def wide_space_def ascii_code_def Let_def of_char_eq_iff[symmetric])

lemma trim_start_header: "list_all (\<lambda>c. visible c \<or> blank c) s \<Longrightarrow> utf8_trim_start s = dropWhile blank s"
proof (induction s)
  case (Cons c s)
  then have "ws_len (c # s) = (if blank c then 1 else 0)"
    using header_spaces by (cases "c # s" rule: ws_len.cases) auto
  with Cons show ?case by (subst utf8_trim_start.simps) simp
qed (simp add: utf8_trim_start.simps)

lemma drop_space_header: "list_all (\<lambda>c. visible c \<or> blank c) s \<Longrightarrow> drop_space_rev s = dropWhile blank s"
proof (induction s)
  case (Cons c s)
  then have "ws_len_rev (c # s) = (if blank c then 1 else 0)"
    using header_spaces by (cases "c # s" rule: ws_len_rev.cases) auto
  with Cons show ?case by (subst drop_space_rev.simps) simp
qed (simp add: drop_space_rev.simps)

lemma trim_header:
  assumes "list_all (\<lambda>c. visible c \<or> blank c) h"
  shows "utf8_trim h = blanks_removed h"
proof -
  have "list_all (\<lambda>c. visible c \<or> blank c) (rev (dropWhile blank h))"
    using assms by (auto simp: list_all_iff dest: set_dropWhileD)
  with assms show ?thesis by (simp add: utf8_trim_def utf8_trim_end_def trim_start_header drop_space_header blanks_removed_def)
qed

section \<open>The host header\<close>

text \<open>The three forms a header takes: an address in brackets and more, an address with two colons, or a name with a port or without.\<close>

definition host_of :: "string \<Rightarrow> string" where
  "host_of t = (if t \<noteq> [] \<and> hd t = CHR ''['' \<and> CHR '']'' \<in> set t then takeWhile (\<lambda>c. c \<noteq> CHR '']'') t @ '']''
     else if 1 < length (filter (\<lambda>c. c = CHR '':'') t) then t else takeWhile (\<lambda>c. c \<noteq> CHR '':'') t)"

lemma find_char_takeWhile: "find_char c s = (if c \<in> set s then Some (length (takeWhile (\<lambda>d. d \<noteq> c) s)) else None)"
  by (induction s) auto

lemma take_after_takeWhile: "c \<in> set s \<Longrightarrow> take (Suc (length (takeWhile (\<lambda>d. d \<noteq> c) s))) s = takeWhile (\<lambda>d. d \<noteq> c) s @ [c]"
  by (induction s) auto

lemma extract_host_of:
  assumes "list_all (\<lambda>c. visible c \<or> blank c) h"
  shows "extract_host_name h = host_of (blanks_removed h)"
proof (cases "blanks_removed h")
  case Nil
  then show ?thesis by (simp add: extract_host_name_def host_of_def trim_header[OF assms] Let_def)
next
  case (Cons c t)
  then show ?thesis using take_after_takeWhile[of "CHR '']''" t]
    by (simp add: extract_host_name_def host_of_def trim_header[OF assms] Let_def find_char_takeWhile hd_split_char del: split_char.simps)
qed

lemma headers_set:
  "map_of (foldl (\<lambda>hs (n, v). AList.update n v hs) hs new) k =
     (case map_of (rev new) k of Some v \<Rightarrow> Some v | None \<Rightarrow> map_of hs k)"
  by (induction new arbitrary: hs) (auto simp: update_conv' map_add_def split: option.splits)

lemma char_lower_eq: "ascii_code d < 65 \<Longrightarrow> char_lower c = d \<longleftrightarrow> c = d"
  by (auto simp: char_lower_def is_ascii_uppercase_def ascii_code_def)

lemma lower_eq_iff: "list_all (\<lambda>d. ascii_code d < 65) s \<Longrightarrow> to_ascii_lowercase name = s \<longleftrightarrow> name = s"
proof (induction s arbitrary: name)
  case (Cons d s)
  then show ?case by (cases name) (auto simp: to_ascii_lowercase_def char_lower_eq)
qed (simp add: to_ascii_lowercase_def)

definition router_hosts :: "string list" where
  "router_hosts = [''localhost'', ''127.0.0.1'', ''router.lan'', ''router'', ''router.local'']"

text \<open>
  What a host header has to say: one of the router's own names or the LAN address in any case of letters, with
  a port or without; or the loopback address of IPv6, in brackets with anything after it or alone.
\<close>

definition names_router :: "string \<Rightarrow> string \<Rightarrow> bool" where
  "names_router lan_ip t \<longleftrightarrow>
     (\<exists>host. host \<noteq> [] \<and> to_ascii_lowercase host \<in> to_ascii_lowercase ` set (takeWhile (\<lambda>c. c \<noteq> CHR ''/'') lan_ip # router_hosts)
        \<and> (t = host \<or> (\<exists>port. t = host @ '':'' @ port \<and> CHR '':'' \<notin> set port)))
     \<or> t = ''::1'' \<or> (\<exists>rest. t = ''[::1]'' @ rest)"

definition address_text :: "string \<Rightarrow> bool" where
  "address_text s \<longleftrightarrow> list_all (\<lambda>c. is_ascii_digit c \<or> c = CHR ''.'' \<or> c = CHR ''/'') s"

lemma own_names_plain:
  assumes "to_ascii_lowercase host \<in> to_ascii_lowercase ` set (takeWhile (\<lambda>c. c \<noteq> CHR ''/'') lan_ip # router_hosts)" "address_text lan_ip"
  shows "CHR '':'' \<notin> set host" "CHR ''['' \<notin> set host"
proof -
  have low: "CHR '':'' \<in> set s \<longleftrightarrow> CHR '':'' \<in> set (to_ascii_lowercase s)" "CHR ''['' \<in> set s \<longleftrightarrow> CHR ''['' \<in> set (to_ascii_lowercase s)" for s
  proof -
    have l: "char_lower c = d \<longleftrightarrow> c = d" if "\<not> 65 \<le> ascii_code d \<or> 90 < ascii_code d \<and> ascii_code d < 97" for c d
    proof (cases "is_ascii_uppercase c")
      case True
      then have u: "65 \<le> ascii_code c" "ascii_code c \<le> 90" by (simp_all add: is_ascii_uppercase_def)
      then have "ascii_code (char_lower c) = ascii_code c + 32" using True by (simp add: char_lower_def ascii_code_def)
      with u that show ?thesis by force
    qed (simp add: char_lower_def)
    have "char_lower c = CHR '':'' \<longleftrightarrow> c = CHR '':''" "char_lower c = CHR ''['' \<longleftrightarrow> c = CHR ''[''" for c
      by (rule l; simp add: ascii_code_def)+
    then show "CHR '':'' \<in> set s \<longleftrightarrow> CHR '':'' \<in> set (to_ascii_lowercase s)"
      "CHR ''['' \<in> set s \<longleftrightarrow> CHR ''['' \<in> set (to_ascii_lowercase s)"
      unfolding to_ascii_lowercase_def set_map by (metis imageE imageI)+
  qed
  have hosts: "list_all (\<lambda>s. CHR '':'' \<notin> set s \<and> CHR ''['' \<notin> set s) router_hosts" by code_simp
  have "\<not> is_ascii_digit (CHR '':'')" "\<not> is_ascii_digit (CHR ''['')" by code_simp+
  then have "CHR '':'' \<notin> set (takeWhile (\<lambda>c. c \<noteq> CHR ''/'') lan_ip)" "CHR ''['' \<notin> set (takeWhile (\<lambda>c. c \<noteq> CHR ''/'') lan_ip)"
    using assms(2) by (auto simp: address_text_def list_all_iff dest!: set_takeWhileD)
  with hosts have "\<forall>s \<in> set (takeWhile (\<lambda>c. c \<noteq> CHR ''/'') lan_ip # router_hosts). CHR '':'' \<notin> set s \<and> CHR ''['' \<notin> set s"
    by (simp add: list_all_iff)
  with assms(1) obtain s where "to_ascii_lowercase host = to_ascii_lowercase s" "CHR '':'' \<notin> set s" "CHR ''['' \<notin> set s" by blast
  then show "CHR '':'' \<notin> set host" "CHR ''['' \<notin> set host" using low[of host] low[of s] by simp_all
qed

lemma one_colon:
  assumes "\<not> 1 < length (filter (\<lambda>c. c = CHR '':'') t)"
  shows "t = takeWhile (\<lambda>c. c \<noteq> CHR '':'') t \<or> (\<exists>port. t = takeWhile (\<lambda>c. c \<noteq> CHR '':'') t @ '':'' @ port \<and> CHR '':'' \<notin> set port)"
proof (cases "dropWhile (\<lambda>c. c \<noteq> CHR '':'') t")
  case Nil
  then show ?thesis by (metis append_Nil2 takeWhile_dropWhile_id)
next
  case (Cons c port)
  then have c: "c = CHR '':''" by (simp add: dropWhile_eq_Cons_conv)
  have t: "t = takeWhile (\<lambda>c. c \<noteq> CHR '':'') t @ '':'' @ port" using Cons c by (metis append_Cons append_Nil takeWhile_dropWhile_id)
  have "length (filter (\<lambda>c. c = CHR '':'') t) = Suc (length (filter (\<lambda>c. c = CHR '':'') port))"
    by (subst t) (auto simp: filter_empty_conv dest: set_takeWhileD)
  with assms have "filter (\<lambda>c. c = CHR '':'') port = []" by simp
  then have "CHR '':'' \<notin> set port" by (auto simp: filter_empty_conv)
  with t show ?thesis by blast
qed

lemma host_of_own:
  assumes "to_ascii_lowercase host \<in> to_ascii_lowercase ` set (takeWhile (\<lambda>c. c \<noteq> CHR ''/'') lan_ip # router_hosts)" "address_text lan_ip"
    "host \<noteq> []" "t = host \<or> (\<exists>port. t = host @ '':'' @ port \<and> CHR '':'' \<notin> set port)"
  shows "host_of t = host"
proof -
  note plain = own_names_plain[OF assms(1,2)]
  have hd: "hd t \<noteq> CHR ''[''" using assms(3,4) plain(2) by (cases host) auto
  have tw: "takeWhile (\<lambda>c. c \<noteq> CHR '':'') host = host" using plain(1) by (auto simp: takeWhile_eq_all_conv)
  have "filter (\<lambda>c. c = CHR '':'') host = []" using plain(1) by (auto simp: filter_empty_conv)
  moreover have "filter (\<lambda>c. c = CHR '':'') port = []" if "CHR '':'' \<notin> set port" for port using that by (auto simp: filter_empty_conv)
  ultimately have "\<not> 1 < length (filter (\<lambda>c. c = CHR '':'') t)" using assms(4) by auto
  moreover have "takeWhile (\<lambda>c. c \<noteq> CHR '':'') t = host"
  proof -
    have "takeWhile (\<lambda>c. c \<noteq> CHR '':'') (host @ '':'' @ port) = host" for port using plain(1) by (subst takeWhile_append2) auto
    with tw assms(4) show ?thesis by metis
  qed
  ultimately show ?thesis using hd by (simp add: host_of_def)
qed

lemma names_router_iff:
  assumes "address_text lan_ip"
  shows "names_router lan_ip t \<longleftrightarrow> host_of t \<noteq> [] \<and>
    (to_ascii_lowercase (host_of t) \<in> to_ascii_lowercase ` set (takeWhile (\<lambda>c. c \<noteq> CHR ''/'') lan_ip # router_hosts)
     \<or> host_of t = ''::1'' \<or> host_of t = ''[::1]'')" (is "_ \<longleftrightarrow> _ \<and> (?own (host_of t) \<or> _)")
proof
  assume "names_router lan_ip t"
  then show "host_of t \<noteq> [] \<and> (?own (host_of t) \<or> host_of t = ''::1'' \<or> host_of t = ''[::1]'')"
    unfolding names_router_def
  proof (elim disjE exE conjE)
    fix host assume h: "host \<noteq> []" "?own host" "t = host"
    then have "host_of t = host" by (intro host_of_own[OF h(2) assms h(1)]) simp
    with h show ?thesis by metis
  next
    fix host port assume h: "host \<noteq> []" "?own host" "t = host @ '':'' @ port" "CHR '':'' \<notin> set port"
    then have "host_of t = host" by (intro host_of_own[OF h(2) assms h(1)]) blast
    with h show ?thesis by metis
  qed (simp_all add: host_of_def)
next
  assume h: "host_of t \<noteq> [] \<and> (?own (host_of t) \<or> host_of t = ''::1'' \<or> host_of t = ''[::1]'')"
  consider (bracket) "t \<noteq> []" "hd t = CHR ''[''" "CHR '']'' \<in> set t" "host_of t = takeWhile (\<lambda>c. c \<noteq> CHR '']'') t @ '']''"
    | (many) "1 < length (filter (\<lambda>c. c = CHR '':'') t)" "host_of t = t"
    | (name) "\<not> 1 < length (filter (\<lambda>c. c = CHR '':'') t)" "host_of t = takeWhile (\<lambda>c. c \<noteq> CHR '':'') t"
    unfolding host_of_def by metis
  then show "names_router lan_ip t"
  proof cases
    case bracket
    obtain c r where t: "t = c # r" "c = CHR ''[''" using bracket(1,2) by (cases t) auto
    then have "CHR ''['' \<in> set (host_of t)" using bracket(4) by simp
    with own_names_plain(2)[OF _ assms, of "host_of t"] h have "host_of t = ''[::1]''" by auto
    moreover obtain rest where "dropWhile (\<lambda>c. c \<noteq> CHR '']'') t = CHR '']'' # rest"
    proof (cases "dropWhile (\<lambda>c. c \<noteq> CHR '']'') t")
      case Nil
      with bracket(3) have False by (auto simp: dropWhile_eq_Nil_conv)
      then show ?thesis ..
    next
      case (Cons d rest)
      then have "d = CHR '']''" by (simp add: dropWhile_eq_Cons_conv)
      with Cons that show ?thesis by blast
    qed
    ultimately have "t = ''[::1]'' @ rest" using bracket(4) takeWhile_dropWhile_id[of "\<lambda>c. c \<noteq> CHR '']''" t] by simp
    then show ?thesis unfolding names_router_def by blast
  next
    case many
    have "CHR '':'' \<in> set t"
    proof (rule ccontr)
      assume "CHR '':'' \<notin> set t"
      then have "filter (\<lambda>c. c = CHR '':'') t = []" by (auto simp: filter_empty_conv)
      with many(1) show False by simp
    qed
    with own_names_plain(1)[OF _ assms, of t] h many show ?thesis unfolding names_router_def by auto
  next
    case name
    then have "CHR '':'' \<notin> set (host_of t)" by (auto dest: set_takeWhileD)
    with h have "?own (host_of t)" by auto
    with h one_colon[OF name(1)] name(2) show ?thesis unfolding names_router_def by metis
  qed
qed

text \<open>
  C21. Pages of other sites cannot use the status page. A request is served exactly when it has
  a host header of printable characters which, after spaces and tabs around it are dropped, is one of the
  router's own names or its LAN address in any case of letters, with or without a port, or the
  IPv6 loopback address; every other request, one without the header too, is refused with an
  empty answer, without the handler being run. Every answer, a refusal too, forbids framing
  and sniffing, sends no referrer, and admits only resources of the page itself (scripts and styles in it included);
  the other headers are those of the handler.
\<close>

theorem only_router_hosts_served:
  assumes "address_text lan_ip"
  shows "(let served = (\<exists>h. header = Some h \<and> list_all (\<lambda>c. visible c \<or> blank c) h \<and> names_router lan_ip (blanks_removed h));
            r = create_router lan_ip header handler;
            answer = (if served then handler () else \<lparr> hr_status = BadRequest, hr_headers = [], hr_body = [] \<rparr>) in
      hr_status r = hr_status answer \<and> hr_body r = hr_body answer
      \<and> map_of (hr_headers r) = (map_of (hr_headers answer))
          (''x-frame-options'' \<mapsto> ''DENY'', ''x-content-type-options'' \<mapsto> ''nosniff'', ''referrer-policy'' \<mapsto> ''no-referrer'',
           ''content-security-policy'' \<mapsto>
             ''default-src 'self'; script-src 'self' 'unsafe-inline'; style-src 'self' 'unsafe-inline'; connect-src 'self'; img-src 'self' data:; frame-ancestors 'none'; base-uri 'self';''))"
proof -
  have "is_allowed_host (case Option.bind header header_to_str of Some h \<Rightarrow> h | None \<Rightarrow> []) lan_ip
      \<longleftrightarrow> (\<exists>h. header = Some h \<and> list_all (\<lambda>c. visible c \<or> blank c) h \<and> names_router lan_ip (blanks_removed h))"
  proof (cases "Option.bind header header_to_str")
    case None
    then show ?thesis
      by (cases header) (auto simp: is_allowed_host_def extract_host_name_def utf8_trim_def utf8_trim_end_def utf8_trim_start.simps
          drop_space_rev.simps header_chars split: if_splits)
  next
    case (Some h)
    then have h: "header = Some h" "list_all (\<lambda>c. visible c \<or> blank c) h" by (cases header; auto simp: header_chars split: if_splits)+
    have "list_all (\<lambda>d. ascii_code d < 65) ''127.0.0.1''" "to_ascii_lowercase ''127.0.0.1'' = ''127.0.0.1''" by code_simp+
    then have digits: "to_ascii_lowercase name = to_ascii_lowercase ''127.0.0.1'' \<longleftrightarrow> name = ''127.0.0.1''" for name using lower_eq_iff by metis
    have empty: "to_ascii_lowercase a = to_ascii_lowercase [] \<longleftrightarrow> a = []" for a by (simp add: to_ascii_lowercase_def)
    have "is_allowed_host h lan_ip \<longleftrightarrow> names_router lan_ip (blanks_removed h)"
      unfolding names_router_iff[OF assms] is_allowed_host_def extract_host_of[OF h(2)] Let_def hd_split_char eq_ignore_ascii_case_def
      using digits[of "host_of (blanks_removed h)"] empty[of "host_of (blanks_removed h)"] by (auto simp: router_hosts_def)
    with Some h show ?thesis by simp
  qed
  then show ?thesis
    by (simp add: create_router_def validate_host_middleware_def security_headers_middleware_def headers_set Let_def fun_eq_iff)
       (auto simp: security_headers_def)
qed

definition ok_page :: "unit \<Rightarrow> http_response" where
  "ok_page u = \<lparr> hr_status = StatusOk, hr_headers = [], hr_body = ''ok'' \<rparr>"

theorem only_router_hosts_served_witness:
  "hr_status (create_router ''192.168.1.1/24'' None ok_page) = BadRequest
   \<and> hr_body (create_router ''192.168.1.1/24'' (Some ''Router.LAN:80'') ok_page) = ''ok''
   \<and> map_of (hr_headers (create_router ''192.168.1.1/24'' None ok_page)) ''x-frame-options'' = Some ''DENY''"
proof -
  have a: "address_text ''192.168.1.1/24''" by code_simp
  have p: "list_all (\<lambda>c. visible c \<or> blank c) ''Router.LAN:80''" "blanks_removed ''Router.LAN:80'' = ''Router.LAN'' @ '':'' @ ''80''"
    "to_ascii_lowercase ''Router.LAN'' = to_ascii_lowercase ''router.lan''" by code_simp+
  have n: "names_router ''192.168.1.1/24'' (blanks_removed ''Router.LAN:80'')"
    unfolding names_router_def p(2) router_hosts_def
    by (rule disjI1, rule exI[of _ "''Router.LAN''"], intro conjI) (simp, simp add: p(3), rule disjI2, rule exI[of _ "''80''"], simp)
  show ?thesis
    using only_router_hosts_served[OF a, of None ok_page] only_router_hosts_served[OF a, of "Some ''Router.LAN:80''" ok_page] n p(1)
    by (simp add: Let_def ok_page_def)
qed

end
