(* ===== verification/Spec2Isabelle.thy ===== *)
theory Spec2Isabelle
  imports Lease_Actor Packet_Wire Dhcp_Runs Dhcp_Probe Dhcp_Parent Lan_Names Lan_Manager Rate_Limiter Dns_Parent Wan_Liveness Firewall
    Sandbox Supervisor Sntp Kmod_Deps Logging_Props Init_Props Storage Boot_Props Worker_Launch Observability_Props
begin

text \<open>
  A verification of trimrouter, a home router that runs as process 1 of a Linux kernel and
  implements DHCP client, DHCP server, DNS forwarder, time synchronization, firewall and status
  page itself. Paths below are those of the repository.

  \<^bold>\<open>The program.\<close> Process 1 (\<open>src/init/mod.rs\<close>) mounts the file systems, loads kernel modules, starts
  logging, reads the configuration, installs the firewall and starts the interface monitor, which
  renames the two network interfaces and starts the services of each. Services that touch the
  network run as pairs: a privileged parent task in process 1, and an unprivileged worker process in a
  sandbox, connected by a message socket. The DHCP client obtains the WAN lease and publishes it; the
  LAN manager moves the LAN, with its DHCP server and its port forwards, to a fallback network when the
  WAN overlaps it; the DHCP server registers host names with the DNS forwarder; every service sends
  heartbeats to the hardware watchdog, which reboots the machine when one is missing.

  \<^bold>\<open>Foundations.\<close>
  \<^item> \<open>Prelude\<close>: machine types, clock readings, results, hash maps with an explicit iteration order.
  \<^item> \<open>Net_Lib\<close>: addresses, and the crate \<open>ipnet\<close> as a record of functions with the locale \<open>net_laws\<close>,
    interpreted (\<open>cidr\<close>) by an executable implementation. \<open>Ip_Text\<close>, \<open>Rust_Text\<close>: printing and parsing
    of addresses, and UTF-8 strings with the library's methods, including where slicing panics.
  \<^item> \<open>Utils\<close> (\<open>services/utils.rs\<close>), \<open>Ipc\<close> (\<open>services/ipc.rs\<close>), \<open>Packet\<close> (\<open>packet.rs\<close>, the crate \<open>pnet\<close> as a
    record), \<open>Packet_Wire\<close> (its locale \<open>pnet_laws\<close> and the byte-level interpretation \<open>wire\<close>; frames survive
    building and parsing), \<open>Network\<close> (\<open>network.rs\<close>; netlink is a parameter with laws).

  \<^bold>\<open>DHCP server.\<close>
  \<^item> \<open>Lease_Table\<close>, \<open>Lease_Actor\<close> (\<open>dhcp_server/lease_table.rs\<close>): every operation of the table, its invariant
    (the index and the reserved addresses belong to entries), the meaning of allocation and confirmation,
    and no address leased twice in any reachable table, as long as the two unchecked commands are served for
    addresses nobody holds.
  \<^item> \<open>Dhcp_Worker\<close> (\<open>dhcp_server/worker.rs\<close>): handlers as programs that interact with the lease actor, the network
    and the parent. \<open>Dhcp_System\<close>: any number of packet tasks interleave over one actor, seen through the
    locale \<open>lease_service\<close>; all messages are valid and answer their request. \<open>Dhcp_Runs\<close>: complete
    exchanges. \<open>Dhcp_Probe\<close>: the probe loop needs at most one round more than the network has addresses.
  \<^item> \<open>Dhcp_Parent\<close> (\<open>dhcp_server/manager.rs\<close>): the monitor and the frames it sends. \<open>Lan_Manager\<close> (\<open>lan/manager.rs\<close>): the overlap test
    is exact, and reservations survive the move to the fallback network.

  \<^bold>\<open>WAN.\<close> \<open>Dhcp_Client\<close> (\<open>dhcp_client/worker.rs\<close>), \<open>Dhcp_Client_Parent\<close> (\<open>dhcp_client/manager.rs\<close>), \<open>Wan\<close>: the client's
  phases as a step relation over time, the parent, the kernel, and that the published lease and the
  address are always those of the lease held. \<open>Wan_Liveness\<close>: foreign frames, and a silent server.

  \<^bold>\<open>DNS.\<close> \<open>Dns_Forwarder\<close>, \<open>Dns_Loop\<close> (\<open>dns_forwarder/worker.rs\<close>; the crate \<open>hickory\<close> is a record of functions), \<open>Rate_Limiter\<close>
  (reals with an explicit rounding), \<open>Dns_Props\<close> (bounded tables, caching, spoofing, delivery),
  \<open>Dns_Queries\<close> (local names, retries, framing), \<open>Dns_Parent\<close> (\<open>dns_forwarder/manager.rs\<close>: a worker's tables refine the
  parent's, across restarts).

  \<^bold>\<open>Processes.\<close> \<open>Service_Controller\<close>, \<open>Supervisor\<close> (\<open>services/supervisor.rs\<close>: the supervising task and a stop
  interleave), \<open>Sandbox\<close> (\<open>services/utils.rs\<close>: order and completeness of the sandbox), \<open>Worker_Launch\<close> (\<open>cli.rs\<close>,
  \<open>modes/\<close>: arguments and descriptors reach the worker), \<open>Sntp\<close> (\<open>sntp_client/\<close>).

  \<^bold>\<open>Process 1.\<close> \<open>Config\<close> (\<open>config.rs\<close>), \<open>Firewall\<close> (\<open>init/firewall.rs\<close>, with a semantics of rules on packets),
  \<open>Kmod\<close>, \<open>Wildcard\<close>, \<open>Kmod_Deps\<close> (\<open>init/kmod.rs\<close>), \<open>Storage\<close> (\<open>init/storage.rs\<close>), \<open>Logging\<close>, \<open>Logging_Props\<close> (\<open>logging.rs\<close>),
  \<open>Init_System\<close>, \<open>Init_Props\<close> (\<open>init/system.rs\<close>, \<open>init/reaper.rs\<close>, \<open>init/power.rs\<close>, \<open>init/kmsg.rs\<close>), \<open>Watchdog\<close> (\<open>init/watchdog.rs\<close>),
  \<open>Interface\<close>, \<open>Interface_Props\<close> (\<open>interface.rs\<close>), \<open>Boot\<close>, \<open>Boot_Props\<close> (\<open>init/mod.rs\<close>: boot as a list of actions, with
  services only behind the firewall), \<open>Observability\<close>, \<open>Sse_Limits\<close>, \<open>Observability_Props\<close> (\<open>observability/\<close>).

  \<^bold>\<open>Composition.\<close> The present theory connects configuration, LAN manager, monitor and DHCP worker; \<open>Lan_Names\<close>
  follows a name from a DHCP request through both parents to the answer of the DNS worker; \<open>Boot_Props\<close>
  connects configuration, firewall, interface monitor and watchdog; \<open>Wan_Liveness\<close> connects DHCP client and watchdog; \<open>Init_Props\<close> connects worker output, log and panic handler.

  \<^bold>\<open>Conventions.\<close> Errors are left values of sum types, panics are values. Time is a count of nanoseconds
  or of the component's own unit, and is given to every operation that reads a clock. The iteration
  order of a hash map is an argument, over all permutations. Concurrency is the interleaving of atomic
  steps: one command of an actor, one access to a shared variable, one message. Loops that end have
  termination proofs; only the probe loop carries fuel, shown sufficient in \<open>Dhcp_Probe\<close> as long as it stays within the
  five minutes of a conflict hold, and the search for a transaction number runs on a finite list of draws. Third-party crates and the
  kernel are records of functions; what is assumed of them are named predicates, and each has an
  executable instance on which the witnesses run.

  \<^bold>\<open>Not modelled.\<close> The page text of \<open>observability/html.rs\<close> and the integration tests under \<open>src/bin\<close> are no part of
  the router's logic. Opening and binding of sockets, duplication of the console, process-wide statics and the
  task handles that carry a modelled loop are system calls and library calls with no logic of their
  own; formatting a partition, compiling BPF and seccomp programs and routing requests is done by crates.
  Uptime and load are copied from text into floating-point fields of the status report. Display texts
  of errors and the contents of log messages are left out, except where the text is data. The test doubles
  inside \<open>init/system.rs\<close> and \<open>init/watchdog.rs\<close> are not part of the program.
\<close>

section \<open>From the configuration to the DHCP worker\<close>

text \<open>
  What \<open>DhcpServer::start\<close> passes on: the monitor gets the reservations and the LAN text of the server
  object, and the worker process the same text.
\<close>

definition monitor_params_of :: "dhcp_server_obj \<Rightarrow> u32 \<Rightarrow> bool \<Rightarrow> dhcp_monitor_params" where
  "monitor_params_of d pid hosts =
     \<lparr> mp_child_pid = pid, mp_has_hosts = hosts, mp_static_leases = ds_static_leases d, mp_lan_ip = ds_lan_ip d \<rparr>"

definition config_of_net :: "'n net_lib \<Rightarrow> 'n \<Rightarrow> 'n server_config" where
  "config_of_net L net = \<lparr> server_ip = net_addr L net, server_net = net \<rparr>"

lemma served_static_ok:
  assumes "net_laws L" "parse_config L C content = Inr c"
    "lan_reach L (runner_of_config c lan_if wan_if lease has_hosts) running r"
  obtains net where "net_parse L (ds_lan_ip (lr_dhcp_server r)) = Some net"
    "\<And>l. l \<in> set (ds_static_leases (lr_dhcp_server r)) \<Longrightarrow> static_ok L (config_of_net L net) l"
proof -
  obtain net f where n: "ds_lan_ip (lr_dhcp_server r) = lr_current_ip r" "net_parse L (lr_current_ip r) = Some net"
      "ds_static_leases (lr_dhcp_server r) = map (\<lambda>l. l\<lparr> sl_ip := f (sl_ip l) \<rparr>) (rc_static_leases c)"
      "\<And>l. l \<in> set (rc_static_leases c) \<Longrightarrow> \<not> invalid_host L net (f (sl_ip l))"
    by (rule served_leases[OF assms]) blast
  obtain parsed :: config_toml and lan backup where
      p: "parse_dhcp_reservations L C (ct_dhcp parsed) lan backup = Inr (rc_static_leases c)"
    by (rule parse_configD[OF assms(2)]) blast
  have "static_ok L (config_of_net L net) (l\<lparr> sl_ip := f (sl_ip l) \<rparr>)" if "l \<in> set (rc_static_leases c)" for l
    using n(4)[OF that] parse_dhcp_reservations_valid(4)[OF assms(1) p that]
    by (auto simp: static_ok_def pool_def config_of_net_def invalid_host_def label_opt_def split: option.splits)
  with n show thesis by (intro that[of net]) auto
qed

lemma monitor_message_ok:
  assumes "\<And>l. l \<in> set (ds_static_leases d) \<Longrightarrow> static_ok L cfg l"
    "MonSent m \<in> set (run_parent_dhcp_server_monitor L P D (monitor_params_of d pid hosts) sent smac listening ifindex evs)"
  shows "parent_msg_ok L cfg m"
  using monitor_sends[OF assms(2)] assms(1) by (cases m) (auto simp: monitor_params_of_def)

text \<open>
  C5. The configuration, the LAN manager, the monitor of the DHCP server and its worker fit together.
  From an accepted configuration, whatever the LAN manager has seen, the worker it runs starts on
  the LAN text it is given and takes up the reservations its monitor sends first; and
  whatever events the monitor sees, every message it sends can be taken up in any reachable state of the
  worker, after which all messages of the worker, however its tasks go on, are valid for its network.
\<close>

theorem worker_contract_met:
  assumes "net_laws L" "parse_config L C content = Inr c"
    "lan_reach L (runner_of_config c lan_if wan_if lease has_hosts) running r"
  shows "\<exists>cfg. run_dhcp_server_worker L (ds_lan_ip (lr_dhcp_server r)) (Inr (Some (SetStaticLeasesMsg (ds_static_leases (lr_dhcp_server r)))))
        = Inr (cfg, handle_set_static_leases (ds_static_leases (lr_dhcp_server r)))
    \<and> (\<forall>pid hosts smac listening ifindex evs out.
         out = run_parent_dhcp_server_monitor L P D (monitor_params_of (lr_dhcp_server r) pid hosts) True smac listening ifindex evs
         \<longrightarrow> hd out = MonSent (SetStaticLeasesMsg (ds_static_leases (lr_dhcp_server r)))
           \<and> (\<forall>m p s s'. MonSent m \<in> set out
                \<longrightarrow> on_parent_msg L P D fuel cfg (Some m) \<in> {Spawn p, Inline p}
                \<longrightarrow> (sys_step L P D fuel cfg)\<^sup>*\<^sup>* (init_sys now) s
                \<longrightarrow> (sys_step L P D fuel cfg)\<^sup>*\<^sup>* (s\<lparr> sys_tasks := sys_tasks s @ [p] \<rparr>) s'
                \<longrightarrow> (\<forall>msg \<in> set (sys_sent s'). message_ok L cfg msg)))"
proof -
  let ?d = "lr_dhcp_server r"
  obtain net where n: "net_parse L (ds_lan_ip ?d) = Some net"
      "\<And>l. l \<in> set (ds_static_leases ?d) \<Longrightarrow> static_ok L (config_of_net L net) l"
    by (rule served_static_ok[OF assms]) blast
  let ?cfg = "config_of_net L net"
  let ?out = "\<lambda>pid hosts smac listening ifindex evs.
      run_parent_dhcp_server_monitor L P D (monitor_params_of ?d pid hosts) True smac listening ifindex evs"
  have start: "run_dhcp_server_worker L (ds_lan_ip ?d) (Inr (Some (SetStaticLeasesMsg (ds_static_leases ?d))))
      = Inr (?cfg, handle_set_static_leases (ds_static_leases ?d))"
    using n(1) by (simp add: run_dhcp_server_worker_def sync_initial_static_leases_def config_of_net_def)
  have first: "hd (?out pid hosts smac listening ifindex evs) = MonSent (SetStaticLeasesMsg (ds_static_leases ?d))"
    for pid hosts smac listening ifindex evs
    by (simp add: run_parent_dhcp_server_monitor_def monitor_params_of_def)
  have valid: "message_ok L ?cfg msg"
    if "MonSent m \<in> set (?out pid hosts smac listening ifindex evs)"
      "on_parent_msg L P D fuel ?cfg (Some m) \<in> {Spawn p, Inline p}"
      and s: "(sys_step L P D fuel ?cfg)\<^sup>*\<^sup>* (init_sys now) s"
      and s': "(sys_step L P D fuel ?cfg)\<^sup>*\<^sup>* (s\<lparr> sys_tasks := sys_tasks s @ [p] \<rparr>) s'" "msg \<in> set (sys_sent s')"
    for pid hosts smac listening ifindex evs m p s s' msg
  proof -
    have "parent_msg_ok L ?cfg m" by (rule monitor_message_ok[OF n(2) that(1)])
    with that(2) have "sys_step L P D fuel ?cfg s (s\<lparr> sys_tasks := sys_tasks s @ [p] \<rparr>)" by (auto intro: step_message)
    with s s'(1) have "(sys_step L P D fuel ?cfg)\<^sup>*\<^sup>* (init_sys now) s'" by (meson rtranclp.rtrancl_into_rtrancl rtranclp_trans)
    from sys_inv_reachable[OF assms(1) this] s'(2) show ?thesis by (simp add: sys_inv_def)
  qed
  show ?thesis
    by (rule exI[of _ ?cfg], intro conjI allI impI ballI, rule start, simp only: first, rule valid) simp_all
qed

theorem worker_contract_met_witness:
  "\<exists>r cfg. lan_reach cidr_lib demo_runner True r
     \<and> run_dhcp_server_worker cidr_lib (ds_lan_ip (lr_dhcp_server r)) (Inr (Some (SetStaticLeasesMsg (ds_static_leases (lr_dhcp_server r)))))
         = Inr (cfg, handle_set_static_leases (ds_static_leases (lr_dhcp_server r)))"
proof -
  obtain r where "lan_run_start cidr_lib demo_env demo_runner = (True, r)"
    using demo_start by (cases "lan_run_start cidr_lib demo_env demo_runner") auto
  then have reach: "lan_reach cidr_lib demo_runner True r" by (rule lan_reach.start)
  obtain cfg where
      "run_dhcp_server_worker cidr_lib (ds_lan_ip (lr_dhcp_server r)) (Inr (Some (SetStaticLeasesMsg (ds_static_leases (lr_dhcp_server r)))))
         = Inr (cfg, handle_set_static_leases (ds_static_leases (lr_dhcp_server r)))"
    using worker_contract_met[OF cidr.net_laws_axioms demo_config_parsed reach[unfolded demo_runner_def], of wire_pnet demo_codec 1 0]
    by (elim exE conjE)
  with reach show ?thesis by (intro exI conjI)
qed

end
